theory Spec2Isabelle
  imports Complex_Main
begin

section \<open>Data model (types/order.types.ts)\<close>

text \<open>
  JavaScript numbers are modelled as reals: the model covers finite values; NaN and the
  infinities have no counterpart here. A double is a real on which \<open>isDouble\<close> holds
  (section on double-precision arithmetic). The arithmetic of executeSwap, whose slippage
  guard compares a rounded quotient with the tolerance, is rounded operation by
  operation; the arithmetic of the quote generators is exact. Timestamps
  (\<^verbatim>\<open>new Date()\<close>) and the \<^verbatim>\<open>sleep\<close> delays are real time and are left out.
  A thrown JavaScript exception is a value of type \<open>js_error\<close>; a function that can
  throw returns \<open>js_error + 'a\<close>.
\<close>

datatype OrderType = MARKET | LIMIT | SNIPER

datatype OrderStatus = PENDING | ROUTING | BUILDING | SUBMITTED | CONFIRMED | FAILED

datatype DexProvider = RAYDIUM | METEORA

datatype js_error = Error string | TypeError string

record Order =
  orderId :: string
  orderType :: OrderType
  tokenIn :: string
  tokenOut :: string
  amountIn :: real
  slippage :: real
  status :: OrderStatus
  retryCount :: "nat option"

record DexQuote =
  dex :: DexProvider
  price :: real
  amountOut :: real
  fee :: real
  priceImpact :: real

record ExecutionResult =
  res_orderId :: string
  res_txHash :: string
  res_executedPrice :: real
  res_amountOut :: real
  res_dex :: DexProvider

text \<open>The optional \<^verbatim>\<open>data\<close> object of a status update.\<close>

record StatusData =
  selectedDex :: "DexProvider option"
  quotes :: "DexQuote list option"
  txHash :: "string option"
  executedPrice :: "real option"
  error :: "string option"

record OrderStatusUpdate =
  upd_orderId :: string
  upd_status :: OrderStatus
  upd_data :: "StatusData option"

text \<open>\<^verbatim>\<open>Partial<Order>\<close>, the argument of validateOrder: every field may be undefined.\<close>

record PartialOrder =
  p_type :: "OrderType option"
  p_tokenIn :: "string option"
  p_tokenOut :: "string option"
  p_amountIn :: "real option"
  p_slippage :: "real option"

section \<open>Number formatting\<close>

definition digitChar :: "nat \<Rightarrow> char" where
  "digitChar d = char_of (of_char (CHR ''0'') + d)"

function showNat :: "nat \<Rightarrow> string" where
  "showNat n = (if n < 10 then [digitChar n] else showNat (n div 10) @ [digitChar (n mod 10)])"
  by pat_completeness auto
termination
  by (relation "measure id") auto

declare showNat.simps [simp del]

text \<open>
  \<^verbatim>\<open>Number.prototype.toFixed(2)\<close> for magnitudes below 1e21: the multiple of 0.01
  nearest to the value of the double, the larger one on a tie, with a minus sign for a
  negative argument.
\<close>

definition toFixed2 :: "real \<Rightarrow> string" where
  "toFixed2 x =
     (let n = nat \<lfloor>\<bar>x\<bar> * 100 + 1 / 2\<rfloor>
      in (if x < 0 then ''-'' else '''') @ showNat (n div 100) @ ''.'' @
         [digitChar (n mod 100 div 10), digitChar (n mod 10)])"

section \<open>Double-precision arithmetic\<close>

text \<open>
  \<open>fl x\<close> is the IEEE 754 double nearest to \<open>x\<close>, the one with the even significand on a
  tie: around \<open>x\<close> the doubles are the multiples of \<open>ulp x\<close>, which is
  \<open>2 powi (e - 52)\<close> for \<open>2 powi e \<le> \<bar>x\<bar> < 2 powi (e + 1)\<close> and \<open>2 powi (- 1074)\<close> in the
  subnormal range. A JavaScript operation on doubles returns \<open>fl\<close> of the exact result.
  Results of magnitude \<open>2 ^ 1024\<close> or more (Infinity in JavaScript) are outside the model.
  \<open>log2i n\<close> is the integer part of the binary logarithm of \<open>n \<ge> 1\<close>, \<open>ilog2 x\<close> that of
  a positive real.
\<close>

function log2i :: "int \<Rightarrow> int" where
  "log2i n = (if n < 2 then 0 else 1 + log2i (n div 2))"
  by pat_completeness auto
termination
  by (relation "measure nat") auto

declare log2i.simps [simp del]

definition ilog2 :: "real \<Rightarrow> int" where
  "ilog2 x = (if 1 \<le> x then log2i \<lfloor>x\<rfloor> else - log2i (\<lceil>1 / x\<rceil> - 1) - 1)"

definition ulp :: "real \<Rightarrow> real" where
  "ulp x = 2 powi (max (ilog2 \<bar>x\<bar> - 52) (- 1074))"

definition roundEven :: "real \<Rightarrow> int" where
  "roundEven y =
     (let n = \<lfloor>y\<rfloor>; r = y - of_int n
      in if r < 1 / 2 then n else if r > 1 / 2 then n + 1 else if even n then n else n + 1)"

definition fl :: "real \<Rightarrow> real" where
  "fl x = (if x = 0 then 0 else of_int (roundEven (x / ulp x)) * ulp x)"

definition isDouble :: "real \<Rightarrow> bool" where
  "isDouble x = (fl x = x \<and> \<bar>x\<bar> < 2 ^ 1024)"

section \<open>MockDexRouter (services/mockDexRouter.service.ts)\<close>

text \<open>
  Every \<^verbatim>\<open>Math.random()\<close> draw is an explicit argument. \<^verbatim>\<open>charCodeAt(0)\<close> of an
  empty string is NaN in JavaScript; the model writes 0 there, and admitted orders have
  non-empty symbols (request schema and validateTokenAddress).
\<close>

definition charCodeAt0 :: "string \<Rightarrow> nat" where
  "charCodeAt0 s = (case s of [] \<Rightarrow> 0 | c # _ \<Rightarrow> of_char c)"

definition getBasePrice :: "string \<Rightarrow> string \<Rightarrow> real \<Rightarrow> real" where
  "getBasePrice tIn tOut amt =
     (let seed = charCodeAt0 tIn + charCodeAt0 tOut;
          baseRate = 0.5 + real (seed mod 100) / 100
      in amt * baseRate)"

definition getRaydiumQuote :: "string \<Rightarrow> string \<Rightarrow> real \<Rightarrow> real \<Rightarrow> real \<Rightarrow> DexQuote" where
  "getRaydiumQuote tIn tOut amt rVariance rImpact =
     (let basePrice = getBasePrice tIn tOut amt;
          priceVariance = 0.98 + rVariance * 0.04;
          p = basePrice * priceVariance;
          f = 0.003
      in \<lparr>dex = RAYDIUM, price = p, amountOut = p * (1 - f), fee = f,
          priceImpact = 0.001 + rImpact * 0.002\<rparr>)"

definition getMeteorQuote :: "string \<Rightarrow> string \<Rightarrow> real \<Rightarrow> real \<Rightarrow> real \<Rightarrow> DexQuote" where
  "getMeteorQuote tIn tOut amt rVariance rImpact =
     (let basePrice = getBasePrice tIn tOut amt;
          priceVariance = 0.97 + rVariance * 0.05;
          p = basePrice * priceVariance;
          f = 0.002
      in \<lparr>dex = METEORA, price = p, amountOut = p * (1 - f), fee = f,
          priceImpact = 0.0015 + rImpact * 0.0025\<rparr>)"

text \<open>
  The random draws of one pipeline attempt, in the order the code makes them. The draws
  that only size a \<^verbatim>\<open>sleep\<close> (the random part of the execution delay) decide no value
  and are not recorded.
\<close>

record Draws =
  rayVariance :: real
  rayImpact :: real
  metVariance :: real
  metImpact :: real
  swapSlippage :: real
  swapFailure :: real
  hashDraws :: "nat \<Rightarrow> real"

definition getAllQuotes :: "Draws \<Rightarrow> string \<Rightarrow> string \<Rightarrow> real \<Rightarrow> DexQuote list" where
  "getAllQuotes dr tIn tOut amt =
     [getRaydiumQuote tIn tOut amt (rayVariance dr) (rayImpact dr),
      getMeteorQuote tIn tOut amt (metVariance dr) (metImpact dr)]"

text \<open>
  \<^verbatim>\<open>quotes.reduce((best, current) => current.amountOut > best.amountOut ? current : best)\<close>:
  with no initial value, reduce starts from the first element and throws a TypeError on
  an empty array.
\<close>

definition selectBestDex :: "DexQuote list \<Rightarrow> js_error + DexQuote" where
  "selectBestDex qs =
     (case qs of
        [] \<Rightarrow> Inl (TypeError ''Reduce of empty array with no initial value'')
      | q # rest \<Rightarrow>
          Inr (foldl (\<lambda>best current. if amountOut current > amountOut best then current else best)
                 q rest))"

definition generateMockTxHash :: "(nat \<Rightarrow> real) \<Rightarrow> string" where
  "generateMockTxHash rnd = map (\<lambda>i. ''0123456789abcdef'' ! nat \<lfloor>rnd i * 16\<rfloor>) [0..<64]"

text \<open>
  executeSwap, in double arithmetic: every literal is the double nearest to it and every
  operation is rounded. \<open>swapExecutedPrice\<close> is its local \<^verbatim>\<open>executedPrice\<close>, computed from
  the quoted price and the slippage draw.
\<close>

definition slippageMessage :: "real \<Rightarrow> real \<Rightarrow> string" where
  "slippageMessage actual tol =
     ''Slippage tolerance exceeded: '' @ toFixed2 (fl (actual * 100)) @ ''% > '' @
       toFixed2 (fl (tol * 100)) @ ''%''"

definition swapExecutedPrice :: "DexQuote \<Rightarrow> real \<Rightarrow> real" where
  "swapExecutedPrice q rSlip = fl (price q * fl (1 - fl (rSlip * fl 0.01)))"

definition executeSwap :: "Draws \<Rightarrow> Order \<Rightarrow> DexQuote \<Rightarrow> js_error + ExecutionResult" where
  "executeSwap dr order selectedQuote =
     (let executed = swapExecutedPrice selectedQuote (swapSlippage dr);
          out = fl (executed * fl (1 - fee selectedQuote));
          actualSlippage = fl (fl (price selectedQuote - executed) / price selectedQuote)
      in if actualSlippage > slippage order
         then Inl (Error (slippageMessage actualSlippage (slippage order)))
         else if swapFailure dr < fl 0.05
         then Inl (Error ''Transaction simulation failed: Network congestion'')
         else Inr \<lparr>res_orderId = orderId order,
                   res_txHash = generateMockTxHash (hashDraws dr),
                   res_executedPrice = executed, res_amountOut = out,
                   res_dex = dex selectedQuote\<rparr>)"

definition validateSlippage :: "real \<Rightarrow> bool" where
  "validateSlippage s = (s \<ge> 0 \<and> s \<le> 0.5)"

definition validateTokenAddress :: "string \<Rightarrow> bool" where
  "validateTokenAddress address = (length address > 0 \<and> length address \<le> 44)"

section \<open>Order validation (services/orderExecution.service.ts)\<close>

text \<open>
  \<^verbatim>\<open>!order.tokenIn\<close> holds for undefined and for the empty string;
  \<^verbatim>\<open>!order.amountIn\<close> for undefined and for 0. \<^verbatim>\<open>===\<close> on two optional strings is
  equality of options: two undefined fields are equal. The result pair is
  \<^verbatim>\<open>{valid, errors}\<close>.
\<close>

definition validateOrder :: "PartialOrder \<Rightarrow> bool \<times> string list" where
  "validateOrder order =
     (let e1 = (if (case p_tokenIn order of None \<Rightarrow> True
                    | Some t \<Rightarrow> t = [] \<or> \<not> validateTokenAddress t)
                then [''Invalid tokenIn address''] else []);
          e2 = (if (case p_tokenOut order of None \<Rightarrow> True
                    | Some t \<Rightarrow> t = [] \<or> \<not> validateTokenAddress t)
                then [''Invalid tokenOut address''] else []);
          e3 = (if p_tokenIn order = p_tokenOut order
                then [''tokenIn and tokenOut must be different''] else []);
          e4 = (if (case p_amountIn order of None \<Rightarrow> True | Some a \<Rightarrow> a = 0 \<or> a \<le> 0)
                then [''amountIn must be greater than 0''] else []);
          e5 = (if (case p_slippage order of None \<Rightarrow> False | Some s \<Rightarrow> \<not> validateSlippage s)
                then [''Slippage must be between 0 and 0.5 (0-50%)''] else []);
          errors = e1 @ e2 @ e3 @ e4 @ e5
      in (errors = [], errors))"

section \<open>The shared state and the environment\<close>

text \<open>
  The services are process-wide singletons; their state is one record that every
  stateful function takes and returns. \<open>published\<close> is the sequence of updates handed to
  \<^verbatim>\<open>wsManager.sendUpdate\<close>, whether or not a subscriber is connected. The logger keeps
  the \<^verbatim>\<open>logger.error\<close> and \<^verbatim>\<open>logger.warn\<close> records (message text only);
  \<^verbatim>\<open>logger.info\<close> and \<^verbatim>\<open>logger.debug\<close> calls are left out.

  The orders table keeps the columns the pipeline writes; the immutable input columns
  are left out. A failing statement (connection loss, constraint violation, ...) is
  chosen by the environment: \<open>dbFails env n q\<close> is the error message when the \<open>n\<close>-th
  statement sent to the database is \<open>q\<close> and fails.
\<close>

datatype LogLevel = LogError | LogWarn

record OrderRow =
  row_status :: OrderStatus
  row_selected_dex :: "DexProvider option"
  row_executed_price :: "real option"
  row_tx_hash :: "string option"
  row_error :: "string option"
  row_retry_count :: nat

datatype Query =
    InsertOrder Order
  | UpdateOrder OrderStatus "DexProvider option" "real option" "string option" "string option" string
  | InsertEvent string OrderStatus "StatusData option"
  | InsertQuote string DexQuote
  | IncrementRetry string

text \<open>
  A message on a socket stands for the JSON text of the object it serialises: a status
  update, or one of the route's replies.
\<close>

datatype Message =
    StatusMessage OrderStatusUpdate
  | ValidationFailed
  | OrderValidationFailed "string list"
  | OrderCreated string
  | CreateFailed string

text \<open>The socket as the tests' MockWebSocket has it; readyState 1 is OPEN, 3 is CLOSED.\<close>

record WebSocket =
  readyState :: nat
  sentMessages :: "Message list"

datatype JobState = Waiting | Active | Delayed | Completed | JobFailed string

record Job =
  job_data :: Order
  attemptsMade :: nat
  attemptsStarted :: nat
  job_state :: JobState

record World =
  orders :: "string \<rightharpoonup> OrderRow"
  order_events :: "(string \<times> OrderStatus \<times> StatusData option) list"
  dex_quotes :: "(string \<times> DexQuote) list"
  queryCount :: nat
  connections :: "string \<rightharpoonup> WebSocket"
  published :: "OrderStatusUpdate list"
  logs :: "(LogLevel \<times> string) list"
  jobs :: "string \<rightharpoonup> Job"
  waiting :: "string list"

record Env =
  dbFails :: "nat \<Rightarrow> Query \<Rightarrow> string option"
  draws :: "string \<Rightarrow> nat \<Rightarrow> Draws"
  retryMaxAttempts :: int

definition logger :: "LogLevel \<Rightarrow> string \<Rightarrow> World \<Rightarrow> World" where
  "logger lvl msg w = w\<lparr>logs := logs w @ [(lvl, msg)]\<rparr>"

text \<open>\<^verbatim>\<open>await m; rest\<close>: an exception of \<open>m\<close> skips the rest.\<close>

definition bindE ::
  "(js_error + 'a) \<times> World \<Rightarrow> ('a \<Rightarrow> World \<Rightarrow> (js_error + 'b) \<times> World) \<Rightarrow> (js_error + 'b) \<times> World"
where
  "bindE m f = (case m of (Inl e, w) \<Rightarrow> (Inl e, w) | (Inr x, w) \<Rightarrow> f x w)"

fun message :: "js_error \<Rightarrow> string" where
  "message (Error m) = m"
| "message (TypeError m) = m"

definition showInt :: "int \<Rightarrow> string" where
  "showInt i = (if i < 0 then ''-'' @ showNat (nat (- i)) else showNat (nat i))"

section \<open>Database (utils/database.ts)\<close>

definition coalesce :: "'a option \<Rightarrow> 'a option \<Rightarrow> 'a option" where
  "coalesce new old = (case new of None \<Rightarrow> old | Some v \<Rightarrow> Some v)"

fun applyQuery :: "Query \<Rightarrow> World \<Rightarrow> World" where
  "applyQuery (InsertOrder order) w =
     w\<lparr>orders := (orders w)(orderId order \<mapsto>
         \<lparr>row_status = status order, row_selected_dex = None, row_executed_price = None,
          row_tx_hash = None, row_error = None,
          row_retry_count = (case retryCount order of None \<Rightarrow> 0 | Some n \<Rightarrow> n)\<rparr>)\<rparr>"
| "applyQuery (UpdateOrder st sd ep th er oid) w =
     (case orders w oid of
        None \<Rightarrow> w
      | Some r \<Rightarrow>
          w\<lparr>orders := (orders w)(oid \<mapsto>
              r\<lparr>row_status := st,
                row_selected_dex := coalesce sd (row_selected_dex r),
                row_executed_price := coalesce ep (row_executed_price r),
                row_tx_hash := coalesce th (row_tx_hash r),
                row_error := coalesce er (row_error r)\<rparr>)\<rparr>)"
| "applyQuery (InsertEvent oid st d) w = w\<lparr>order_events := order_events w @ [(oid, st, d)]\<rparr>"
| "applyQuery (InsertQuote oid q) w = w\<lparr>dex_quotes := dex_quotes w @ [(oid, q)]\<rparr>"
| "applyQuery (IncrementRetry oid) w =
     (case orders w oid of
        None \<Rightarrow> w
      | Some r \<Rightarrow> w\<lparr>orders := (orders w)(oid \<mapsto> r\<lparr>row_retry_count := Suc (row_retry_count r)\<rparr>)\<rparr>)"

definition db_query :: "Env \<Rightarrow> Query \<Rightarrow> World \<Rightarrow> (js_error + unit) \<times> World" where
  "db_query env q w =
     (let n = queryCount w; w1 = w\<lparr>queryCount := Suc n\<rparr>
      in case dbFails env n q of
           Some msg \<Rightarrow> (Inl (Error msg), logger LogError ''Database query error'' w1)
         | None \<Rightarrow> (Inr (), applyQuery q w1))"

section \<open>OrderModel (models/order.model.ts)\<close>

definition om_create :: "Env \<Rightarrow> Order \<Rightarrow> World \<Rightarrow> (js_error + unit) \<times> World" where
  "om_create env order w =
     (case db_query env (InsertOrder order) w of
        (Inr u, w1) \<Rightarrow> (Inr (), w1)
      | (Inl e, w1) \<Rightarrow> (Inl e, logger LogError ''Failed to create order'' w1))"

text \<open>The catch block logs and does not rethrow.\<close>

definition logEvent ::
  "Env \<Rightarrow> string \<Rightarrow> OrderStatus \<Rightarrow> StatusData option \<Rightarrow> World \<Rightarrow> (js_error + unit) \<times> World"
where
  "logEvent env oid st d w =
     (case db_query env (InsertEvent oid st d) w of
        (Inr u, w1) \<Rightarrow> (Inr (), w1)
      | (Inl e, w1) \<Rightarrow> (Inr (), logger LogError ''Failed to log order event'' w1))"

text \<open>\<^verbatim>\<open>data?.x || null\<close>: a falsy value (0, the empty string) becomes null.\<close>

definition orNullNum :: "real option \<Rightarrow> real option" where
  "orNullNum x = (case x of Some v \<Rightarrow> (if v = 0 then None else Some v) | None \<Rightarrow> None)"

definition orNullStr :: "string option \<Rightarrow> string option" where
  "orNullStr x = (case x of Some v \<Rightarrow> (if v = [] then None else Some v) | None \<Rightarrow> None)"

definition updateQuery :: "OrderStatusUpdate \<Rightarrow> Query" where
  "updateQuery update =
     (case upd_data update of
        None \<Rightarrow> UpdateOrder (upd_status update) None None None None (upd_orderId update)
      | Some d \<Rightarrow>
          UpdateOrder (upd_status update) (selectedDex d) (orNullNum (executedPrice d))
            (orNullStr (txHash d)) (orNullStr (error d)) (upd_orderId update))"

text \<open>The catch block logs and rethrows.\<close>

definition om_updateStatus :: "Env \<Rightarrow> OrderStatusUpdate \<Rightarrow> World \<Rightarrow> (js_error + unit) \<times> World" where
  "om_updateStatus env update w =
     (case bindE (db_query env (updateQuery update) w)
             (\<lambda>_. logEvent env (upd_orderId update) (upd_status update) (upd_data update)) of
        (Inr u, w1) \<Rightarrow> (Inr (), w1)
      | (Inl e, w1) \<Rightarrow> (Inl e, logger LogError ''Failed to update order status'' w1))"

fun saveQuotesLoop :: "Env \<Rightarrow> string \<Rightarrow> DexQuote list \<Rightarrow> World \<Rightarrow> (js_error + unit) \<times> World" where
  "saveQuotesLoop env oid [] w = (Inr (), w)"
| "saveQuotesLoop env oid (q # rest) w =
     bindE (db_query env (InsertQuote oid q) w) (\<lambda>_. saveQuotesLoop env oid rest)"

text \<open>The loop runs inside the try block: the first failing insert ends it; nothing is rethrown.\<close>

definition saveQuotes :: "Env \<Rightarrow> string \<Rightarrow> DexQuote list \<Rightarrow> World \<Rightarrow> (js_error + unit) \<times> World" where
  "saveQuotes env oid qs w =
     (case saveQuotesLoop env oid qs w of
        (Inr u, w1) \<Rightarrow> (Inr (), w1)
      | (Inl e, w1) \<Rightarrow> (Inr (), logger LogError ''Failed to save quotes'' w1))"

definition incrementRetryCount :: "Env \<Rightarrow> string \<Rightarrow> World \<Rightarrow> (js_error + unit) \<times> World" where
  "incrementRetryCount env oid w =
     (case db_query env (IncrementRetry oid) w of
        (Inr u, w1) \<Rightarrow> (Inr (), w1)
      | (Inl e, w1) \<Rightarrow> (Inl e, logger LogError ''Failed to increment retry count'' w1))"

section \<open>WebSocketManager (services/websocket.service.ts)\<close>

text \<open>
  \<open>ws_send\<close> and \<open>ws_close\<close> follow MockWebSocket: send appends to the sent messages.
  The handlers that register installs for the socket's close and error events are
  \<open>onClose\<close> and \<open>onError\<close>.
\<close>

definition ws_send :: "WebSocket \<Rightarrow> Message \<Rightarrow> js_error + WebSocket" where
  "ws_send ws m = Inr (ws\<lparr>sentMessages := sentMessages ws @ [m]\<rparr>)"

definition ws_close :: "WebSocket \<Rightarrow> WebSocket" where
  "ws_close ws = ws\<lparr>readyState := 3\<rparr>"

definition register :: "string \<Rightarrow> WebSocket \<Rightarrow> World \<Rightarrow> World" where
  "register oid ws w = w\<lparr>connections := (connections w)(oid \<mapsto> ws)\<rparr>"

definition onClose :: "string \<Rightarrow> World \<Rightarrow> World" where
  "onClose oid w = w\<lparr>connections := (connections w)(oid := None)\<rparr>"

definition onError :: "string \<Rightarrow> World \<Rightarrow> World" where
  "onError oid w = logger LogError ''WebSocket error'' w\<lparr>connections := (connections w)(oid := None)\<rparr>"

definition sendUpdate :: "OrderStatusUpdate \<Rightarrow> World \<Rightarrow> World" where
  "sendUpdate update w =
     (case connections w (upd_orderId update) of
        None \<Rightarrow> logger LogWarn ''WebSocket not open, skipping update'' w
      | Some ws \<Rightarrow>
          if readyState ws \<noteq> 1
          then logger LogWarn ''WebSocket not open, skipping update'' w
          else (case ws_send ws (StatusMessage update) of
                  Inr ws' \<Rightarrow> w\<lparr>connections := (connections w)(upd_orderId update \<mapsto> ws')\<rparr>
                | Inl e \<Rightarrow> logger LogError ''Failed to send WebSocket update'' w))"

section \<open>OrderExecutionService (services/orderExecution.service.ts)\<close>

definition noData :: StatusData where
  "noData = \<lparr>selectedDex = None, quotes = None, txHash = None, executedPrice = None, error = None\<rparr>"

definition updateStatus ::
  "Env \<Rightarrow> string \<Rightarrow> OrderStatus \<Rightarrow> StatusData option \<Rightarrow> World \<Rightarrow> (js_error + unit) \<times> World"
where
  "updateStatus env oid st d w =
     (let update = \<lparr>upd_orderId = oid, upd_status = st, upd_data = d\<rparr>
      in bindE (om_updateStatus env update w)
           (\<lambda>_ w1. (Inr (), sendUpdate update (w1\<lparr>published := published w1 @ [update]\<rparr>))))"

text \<open>The try block of executeOrder.\<close>

definition executeOrderBody :: "Env \<Rightarrow> Draws \<Rightarrow> Order \<Rightarrow> World \<Rightarrow> (js_error + unit) \<times> World" where
  "executeOrderBody env dr order w0 =
     bindE (updateStatus env (orderId order) PENDING None w0) (\<lambda>_ w1.
     bindE (updateStatus env (orderId order) ROUTING None w1) (\<lambda>_ w2.
     let qs = getAllQuotes dr (tokenIn order) (tokenOut order) (amountIn order) in
     bindE (saveQuotes env (orderId order) qs w2) (\<lambda>_ w3.
     bindE (selectBestDex qs, w3) (\<lambda>bestQuote w4.
     bindE (updateStatus env (orderId order) ROUTING
              (Some (noData\<lparr>selectedDex := Some (dex bestQuote), quotes := Some qs\<rparr>)) w4) (\<lambda>_ w5.
     bindE (updateStatus env (orderId order) BUILDING
              (Some (noData\<lparr>selectedDex := Some (dex bestQuote)\<rparr>)) w5) (\<lambda>_ w6.
     bindE (updateStatus env (orderId order) SUBMITTED
              (Some (noData\<lparr>selectedDex := Some (dex bestQuote)\<rparr>)) w6) (\<lambda>_ w7.
     bindE (executeSwap dr order bestQuote, w7) (\<lambda>result w8.
     updateStatus env (orderId order) CONFIRMED
       (Some (noData\<lparr>selectedDex := Some (dex bestQuote), txHash := Some (res_txHash result),
                     executedPrice := Some (res_executedPrice result)\<rparr>)) w8))))))))"

definition handleFailure ::
  "Env \<Rightarrow> Order \<Rightarrow> js_error \<Rightarrow> bool \<Rightarrow> World \<Rightarrow> (js_error + unit) \<times> World"
where
  "handleFailure env order err isFinal w =
     (let errorMessage = (if message err = [] then ''Unknown error'' else message err);
          w1 = logger LogError ''Order execution failed'' w
      in if \<not> isFinal \<and>
            int (case retryCount order of None \<Rightarrow> 0 | Some n \<Rightarrow> n) < retryMaxAttempts env - 1
         then incrementRetryCount env (orderId order) w1
         else updateStatus env (orderId order) FAILED
                (Some (noData\<lparr>error := Some (errorMessage @ '' (after '' @
                    showInt (retryMaxAttempts env) @ '' attempts)'')\<rparr>)) w1)"

definition executeOrder :: "Env \<Rightarrow> Draws \<Rightarrow> Order \<Rightarrow> World \<Rightarrow> (js_error + unit) \<times> World" where
  "executeOrder env dr order w =
     (case executeOrderBody env dr order w of
        (Inr u, w1) \<Rightarrow> (Inr (), w1)
      | (Inl e, w1) \<Rightarrow> handleFailure env order e False w1)"

section \<open>OrderQueueService (services/queue.service.ts)\<close>

text \<open>
  BullMQ is a library outside the repository; the model keeps what the service relies
  on. \<^verbatim>\<open>queue.add\<close> with a \<^verbatim>\<open>jobId\<close> that the queue already holds (in any state) adds
  nothing. The worker runs the processor on a job; when the processor throws, the job's
  \<open>attemptsMade\<close> is incremented and the job runs again while \<open>attemptsMade\<close> is below the
  \<^verbatim>\<open>attempts\<close> option, else it is failed. Backoff delays, the rate limiter and the
  interleaving of concurrent workers are not modelled: jobs run one after the other.
\<close>

definition addOrder :: "Order \<Rightarrow> World \<Rightarrow> World" where
  "addOrder order w =
     (case jobs w (orderId order) of
        Some existing \<Rightarrow> w
      | None \<Rightarrow>
          w\<lparr>jobs := (jobs w)(orderId order \<mapsto>
               \<lparr>job_data = order, attemptsMade = 0, attemptsStarted = 0, job_state = Waiting\<rparr>),
            waiting := waiting w @ [orderId order]\<rparr>)"

definition processOrder :: "Env \<Rightarrow> Job \<Rightarrow> World \<Rightarrow> (js_error + unit) \<times> World" where
  "processOrder env job w =
     (let order = job_data job
      in case executeOrder env (draws env (orderId order) (attemptsMade job)) order w of
           (Inr u, w1) \<Rightarrow> (Inr (), w1)
         | (Inl e, w1) \<Rightarrow>
             (let w2 = logger LogError ''Order execution failed in queue'' w1
              in if int (attemptsMade job) \<ge> retryMaxAttempts env - 1
                 then (case handleFailure env order e True w2 of
                         (Inr u, w3) \<Rightarrow> (Inl e, w3)
                       | (Inl e2, w3) \<Rightarrow> (Inl e2, w3))
                 else (Inl e, w2)))"

function runJob :: "Env \<Rightarrow> Job \<Rightarrow> World \<Rightarrow> Job \<times> World" where
  "runJob env job w =
     (let job1 = job\<lparr>attemptsStarted := Suc (attemptsStarted job), job_state := Active\<rparr>;
          r = processOrder env job1 w
      in case fst r of
           Inr u \<Rightarrow> (job1\<lparr>job_state := Completed\<rparr>, snd r)
         | Inl e \<Rightarrow>
             if int (Suc (attemptsMade job)) < retryMaxAttempts env
             then runJob env (job1\<lparr>attemptsMade := Suc (attemptsMade job), job_state := Delayed\<rparr>) (snd r)
             else (job1\<lparr>attemptsMade := Suc (attemptsMade job), job_state := JobFailed (message e)\<rparr>,
                   snd r))"
  by pat_completeness auto
termination
  by (relation "measure (\<lambda>(env, job, w). nat (retryMaxAttempts env - int (attemptsMade job)))") auto

declare runJob.simps [simp del]


section \<open>Order route (routes/orders.routes.ts, POST /execute)\<close>

text \<open>
  A field of the request body is absent, present with a value of the wrong JSON type, or
  present. \<open>createOrderSchema\<close> is the zod schema's \<^verbatim>\<open>safeParse\<close>: \<open>None\<close> when
  parsing fails. The fresh \<^verbatim>\<open>uuidv4()\<close> is an argument of the handler.
\<close>

datatype 'a field = Absent | WrongType | Present 'a

record RequestBody =
  b_type :: "OrderType field"
  b_tokenIn :: "string field"
  b_tokenOut :: "string field"
  b_amountIn :: "real field"
  b_slippage :: "real field"

record CreateOrderData =
  d_type :: OrderType
  d_tokenIn :: string
  d_tokenOut :: string
  d_amountIn :: real
  d_slippage :: real

definition createOrderSchema :: "RequestBody \<Rightarrow> CreateOrderData option" where
  "createOrderSchema b =
     (case (b_type b, b_tokenIn b, b_tokenOut b, b_amountIn b) of
        (Present t, Present tIn, Present tOut, Present amt) \<Rightarrow>
          if 1 \<le> length tIn \<and> length tIn \<le> 44 \<and> 1 \<le> length tOut \<and> length tOut \<le> 44 \<and> amt > 0
          then (case b_slippage b of
                  Absent \<Rightarrow>
                    Some \<lparr>d_type = t, d_tokenIn = tIn, d_tokenOut = tOut, d_amountIn = amt,
                          d_slippage = 0.01\<rparr>
                | Present s \<Rightarrow>
                    if 0 \<le> s \<and> s \<le> 0.5
                    then Some \<lparr>d_type = t, d_tokenIn = tIn, d_tokenOut = tOut, d_amountIn = amt,
                               d_slippage = s\<rparr>
                    else None
                | WrongType \<Rightarrow> None)
          else None
      | _ \<Rightarrow> None)"

definition asPartial :: "CreateOrderData \<Rightarrow> PartialOrder" where
  "asPartial d =
     \<lparr>p_type = Some (d_type d), p_tokenIn = Some (d_tokenIn d), p_tokenOut = Some (d_tokenOut d),
      p_amountIn = Some (d_amountIn d), p_slippage = Some (d_slippage d)\<rparr>"

definition socketSend :: "WebSocket \<Rightarrow> Message \<Rightarrow> WebSocket" where
  "socketSend ws m = (case ws_send ws m of Inr ws' \<Rightarrow> ws' | Inl e \<Rightarrow> ws)"

datatype RouteOutcome = Rejected WebSocket | Admitted string

definition executeRoute ::
  "Env \<Rightarrow> string \<Rightarrow> WebSocket \<Rightarrow> RequestBody \<Rightarrow> World \<Rightarrow> RouteOutcome \<times> World"
where
  "executeRoute env uuid socket body w =
     (case createOrderSchema body of
        None \<Rightarrow> (Rejected (ws_close (socketSend socket ValidationFailed)), w)
      | Some orderData \<Rightarrow>
          (let validation = validateOrder (asPartial orderData)
           in if \<not> fst validation
              then (Rejected (ws_close (socketSend socket (OrderValidationFailed (snd validation)))), w)
              else
                (let order = \<lparr>orderId = uuid, orderType = d_type orderData,
                              tokenIn = d_tokenIn orderData, tokenOut = d_tokenOut orderData,
                              amountIn = d_amountIn orderData, slippage = d_slippage orderData,
                              status = PENDING, retryCount = Some 0\<rparr>
                 in case om_create env order w of
                      (Inl e, w1) \<Rightarrow>
                        (Rejected (ws_close (socketSend socket (CreateFailed (message e)))),
                         logger LogError ''Failed to create order'' w1)
                    | (Inr u, w1) \<Rightarrow>
                        (let w2 = register uuid socket w1;
                             w3 = w2\<lparr>connections := (connections w2)(uuid \<mapsto>
                                     socketSend socket (OrderCreated uuid))\<rparr>
                         in (Admitted uuid, addOrder order w3)))))"

section \<open>Notions used by the properties\<close>

text \<open>A slippage-exceeded failure is recognised by the text of its message.\<close>

definition isSlippageExceeded :: "js_error + 'a \<Rightarrow> bool" where
  "isSlippageExceeded r =
     (case r of
        Inl (Error m) \<Rightarrow> take 27 m = ''Slippage tolerance exceeded''
      | _ \<Rightarrow> False)"

definition isTerminal :: "OrderStatus \<Rightarrow> bool" where
  "isTerminal st = (st = CONFIRMED \<or> st = FAILED)"

definition terminals :: "OrderStatusUpdate list \<Rightarrow> nat" where
  "terminals us = length (filter (\<lambda>u. isTerminal (upd_status u)) us)"

text \<open>The store fails on no statement but the inserts into order_events and dex_quotes.\<close>

definition insertFaultsOnly :: "Env \<Rightarrow> bool" where
  "insertFaultsOnly env =
     (\<forall>n q. dbFails env n q \<noteq> None \<longrightarrow>
        (case q of InsertEvent oid st d \<Rightarrow> True | InsertQuote oid dq \<Rightarrow> True | _ \<Rightarrow> False))"

text \<open>
  Two states agree on the pipeline's outcome: the orders table, the subscribers and what
  they received, the published updates and the queue; they may differ in the audit
  tables (order_events, dex_quotes), the statement counter and the log.
\<close>

definition sameOutcome :: "World \<Rightarrow> World \<Rightarrow> bool" where
  "sameOutcome w v =
     (orders w = orders v \<and> connections w = connections v \<and> published w = published v \<and>
      jobs w = jobs v \<and> waiting w = waiting v)"

text \<open>Concrete inputs for the worked examples.\<close>

definition emptyWorld :: World where
  "emptyWorld =
     \<lparr>orders = Map.empty, order_events = [], dex_quotes = [], queryCount = 0,
      connections = Map.empty, published = [], logs = [], jobs = Map.empty, waiting = []\<rparr>"

definition midDraws :: Draws where
  "midDraws =
     \<lparr>rayVariance = 0.5, rayImpact = 0.5, metVariance = 0.5, metImpact = 0.5,
      swapSlippage = 0.5, swapFailure = 0.5, hashDraws = (\<lambda>i. 0)\<rparr>"

definition solOrder :: Order where
  "solOrder =
     \<lparr>orderId = ''order-1'', orderType = MARKET, tokenIn = ''SOL'', tokenOut = ''USDC'',
      amountIn = 100, slippage = 0.01, status = PENDING, retryCount = Some 0\<rparr>"

definition solJob :: Job where
  "solJob = \<lparr>job_data = solOrder, attemptsMade = 0, attemptsStarted = 0, job_state = Waiting\<rparr>"

text \<open>A healthy store and a venue that settles.\<close>

definition healthyEnv :: Env where
  "healthyEnv = \<lparr>dbFails = (\<lambda>n q. None), draws = (\<lambda>oid k. midDraws), retryMaxAttempts = 3\<rparr>"

text \<open>A healthy store and a venue whose settlement fails on every attempt.\<close>

definition failingVenueEnv :: Env where
  "failingVenueEnv =
     \<lparr>dbFails = (\<lambda>n q. None), draws = (\<lambda>oid k. midDraws\<lparr>swapFailure := 0\<rparr>),
      retryMaxAttempts = 3\<rparr>"

text \<open>
  A venue that settles and a store that rejects the status update to BUILDING and the
  retry-count increment.
\<close>

definition brokenStoreEnv :: Env where
  "brokenStoreEnv =
     \<lparr>dbFails = (\<lambda>n q. case q of
                   UpdateOrder st sd ep th er oid \<Rightarrow> (if st = BUILDING then Some ''db down'' else None)
                 | IncrementRetry oid \<Rightarrow> Some ''db down''
                 | _ \<Rightarrow> None),
      draws = (\<lambda>oid k. midDraws), retryMaxAttempts = 3\<rparr>"

text \<open>A venue that settles and a store that rejects every audit insert.\<close>

definition noAuditEnv :: Env where
  "noAuditEnv =
     \<lparr>dbFails = (\<lambda>n q. case q of
                   InsertEvent oid st d \<Rightarrow> Some ''db down''
                 | InsertQuote oid dq \<Rightarrow> Some ''db down''
                 | _ \<Rightarrow> None),
      draws = (\<lambda>oid k. midDraws), retryMaxAttempts = 3\<rparr>"

text \<open>The fraction by which a realized price deviates from the quoted price.\<close>

definition deviation :: "DexQuote \<Rightarrow> real \<Rightarrow> real" where
  "deviation q executed = \<bar>price q - executed\<bar> / price q"

text \<open>
  Inputs at the boundary of the slippage guard, all doubles: the example order with
  tolerance 0.01 and the largest value \<^verbatim>\<open>Math.random()\<close> returns as the slippage draw;
  and an order with tolerance 0.006, a quote at price 75.2 and the slippage draw 0.6.
\<close>

definition onePercentOrder :: Order where
  "onePercentOrder = solOrder\<lparr>slippage := fl 0.01\<rparr>"

definition lastDraws :: Draws where
  "lastDraws = midDraws\<lparr>swapSlippage := 1 - 2 powi (- 53)\<rparr>"

definition boundaryOrder :: Order where
  "boundaryOrder = solOrder\<lparr>slippage := fl 0.006\<rparr>"

definition boundaryDraws :: Draws where
  "boundaryDraws = midDraws\<lparr>swapSlippage := fl 0.6\<rparr>"

definition boundaryQuote :: DexQuote where
  "boundaryQuote =
     \<lparr>dex = RAYDIUM, price = fl 75.2, amountOut = fl (fl 75.2 * fl (1 - fl 0.003)),
      fee = fl 0.003, priceImpact = fl 0.002\<rparr>"

text \<open>Delivery on the status bus: the socket registered for the order received the update.\<close>

definition registeredOpen :: "World \<Rightarrow> string \<Rightarrow> bool" where
  "registeredOpen w oid = (case connections w oid of None \<Rightarrow> False | Some ws \<Rightarrow> readyState ws = 1)"

definition delivered :: "World \<Rightarrow> World \<Rightarrow> OrderStatusUpdate \<Rightarrow> bool" where
  "delivered w w' update =
     (case (connections w (upd_orderId update), connections w' (upd_orderId update)) of
        (Some ws, Some ws') \<Rightarrow>
          ws' = ws\<lparr>sentMessages := sentMessages ws @ [StatusMessage update]\<rparr>
      | _ \<Rightarrow> False)"

definition malformedBody :: "RequestBody \<Rightarrow> bool" where
  "malformedBody b =
     ((case b_amountIn b of Present a \<Rightarrow> a \<le> 0 | _ \<Rightarrow> True) \<or>
      (case b_slippage b of Present s \<Rightarrow> s < 0 \<or> s > 0.5 | WrongType \<Rightarrow> True | Absent \<Rightarrow> False) \<or>
      (case b_tokenIn b of Present t \<Rightarrow> t = [] \<or> length t > 44 | _ \<Rightarrow> True) \<or>
      (case b_tokenOut b of Present t \<Rightarrow> t = [] \<or> length t > 44 | _ \<Rightarrow> True))"

definition openSocket :: WebSocket where
  "openSocket = \<lparr>readyState = 1, sentMessages = []\<rparr>"

definition confirmedUpdate :: OrderStatusUpdate where
  "confirmedUpdate = \<lparr>upd_orderId = ''order-1'', upd_status = CONFIRMED, upd_data = None\<rparr>"

definition badOrder :: PartialOrder where
  "badOrder = \<lparr>p_type = Some MARKET, p_tokenIn = Some [], p_tokenOut = Some (replicate 45 CHR ''A''),
               p_amountIn = Some 0, p_slippage = Some 0.6\<rparr>"

definition zeroAmountBody :: RequestBody where
  "zeroAmountBody = \<lparr>b_type = Present MARKET, b_tokenIn = Present ''SOL'', b_tokenOut = Present ''USDC'',
                     b_amountIn = Present 0, b_slippage = Absent\<rparr>"

definition solBody :: RequestBody where
  "solBody = \<lparr>b_type = Present MARKET, b_tokenIn = Present ''SOL'', b_tokenOut = Present ''USDC'',
               b_amountIn = Present 100, b_slippage = Present 0.01\<rparr>"

text \<open>The updates a run appended to the published sequence.\<close>

definition emitted :: "World \<Rightarrow> World \<Rightarrow> OrderStatusUpdate list" where
  "emitted w w' = drop (length (published w)) (published w')"

text \<open>
  Two specifications of an action, used in the proofs. \<open>emitsE m oid ok err\<close>: from any
  state, \<open>m\<close> appends to the published sequence only updates for \<open>oid\<close>, with statuses
  \<open>ok\<close> when it returns and an initial part of \<open>err\<close> when it throws. \<open>agree m m'\<close>: from
  states that agree on the outcome, \<open>m\<close> and \<open>m'\<close> give the same result and states that
  again agree.
\<close>

definition emitsE ::
  "(World \<Rightarrow> (js_error + 'a) \<times> World) \<Rightarrow> string \<Rightarrow> OrderStatus list \<Rightarrow> OrderStatus list \<Rightarrow> bool"
where
  "emitsE m oid ok err =
     (\<forall>w. \<exists>us. published (snd (m w)) = published w @ us \<and>
            (\<forall>u\<in>set us. upd_orderId u = oid) \<and>
            (case fst (m w) of
               Inr x \<Rightarrow> map upd_status us = ok
             | Inl e \<Rightarrow> (\<exists>rest. err = map upd_status us @ rest)))"

definition agree ::
  "(World \<Rightarrow> (js_error + 'a) \<times> World) \<Rightarrow> (World \<Rightarrow> (js_error + 'a) \<times> World) \<Rightarrow> bool"
where
  "agree m m' =
     (\<forall>w v. sameOutcome w v \<longrightarrow> fst (m w) = fst (m' v) \<and> sameOutcome (snd (m w)) (snd (m' v)))"

text \<open>The store fails on no statement.\<close>

definition storeHealthy :: "Env \<Rightarrow> bool" where
  "storeHealthy env = (\<forall>n q. dbFails env n q = None)"

text \<open>The quote selectBestDex picks for the example order under the example draws.\<close>

definition solQuote :: DexQuote where
  "solQuote = \<lparr>dex = RAYDIUM, price = 118, amountOut = 58823 / 500, fee = 3 / 1000,
               priceImpact = 1 / 500\<rparr>"

text \<open>
  \<open>emitsOk m us\<close>: whenever \<open>m\<close> returns, it has appended exactly the updates \<open>us\<close> to
  the published sequence.
\<close>

definition emitsOk :: "(World \<Rightarrow> (js_error + 'a) \<times> World) \<Rightarrow> OrderStatusUpdate list \<Rightarrow> bool" where
  "emitsOk m us =
     (\<forall>w. case fst (m w) of Inr x \<Rightarrow> published (snd (m w)) = published w @ us | Inl e \<Rightarrow> True)"

text \<open>
  The updates of an attempt that succeeds, with their data: \<open>qs\<close> is the quote set,
  \<open>b\<close> the selected quote and \<open>res\<close> the result of the settlement.
\<close>

definition successUpdates :: "Order \<Rightarrow> DexQuote list \<Rightarrow> DexQuote \<Rightarrow> ExecutionResult \<Rightarrow> OrderStatusUpdate list" where
  "successUpdates order qs b res =
     [\<lparr>upd_orderId = orderId order, upd_status = PENDING, upd_data = None\<rparr>,
      \<lparr>upd_orderId = orderId order, upd_status = ROUTING, upd_data = None\<rparr>,
      \<lparr>upd_orderId = orderId order, upd_status = ROUTING,
        upd_data = Some (noData\<lparr>selectedDex := Some (dex b), quotes := Some qs\<rparr>)\<rparr>,
      \<lparr>upd_orderId = orderId order, upd_status = BUILDING,
        upd_data = Some (noData\<lparr>selectedDex := Some (dex b)\<rparr>)\<rparr>,
      \<lparr>upd_orderId = orderId order, upd_status = SUBMITTED,
        upd_data = Some (noData\<lparr>selectedDex := Some (dex b)\<rparr>)\<rparr>,
      \<lparr>upd_orderId = orderId order, upd_status = CONFIRMED,
        upd_data = Some (noData\<lparr>selectedDex := Some (dex b), txHash := Some (res_txHash res),
                      executedPrice := Some (res_executedPrice res)\<rparr>)\<rparr>]"

text \<open>
  A store that rejects the retry-count increment, and a venue whose settlement fails on
  the first attempt of a job and succeeds from the second.
\<close>

definition flakyEnv :: Env where
  "flakyEnv =
     \<lparr>dbFails = (\<lambda>n q. case q of IncrementRetry oid \<Rightarrow> Some ''db down'' | _ \<Rightarrow> None),
      draws = (\<lambda>oid k. if k = 0 then midDraws\<lparr>swapFailure := 0\<rparr> else midDraws),
      retryMaxAttempts = 3\<rparr>"

text \<open>The store fails on the UPDATEs that set status \<open>st\<close>, with message \<open>m\<close>, and on nothing else.\<close>

definition updateFaultAt :: "Env \<Rightarrow> OrderStatus \<Rightarrow> string \<Rightarrow> bool" where
  "updateFaultAt env st m =
     (\<forall>n q. dbFails env n q =
        (case q of UpdateOrder s sd ep th er oid \<Rightarrow> (if s = st then Some m else None)
         | _ \<Rightarrow> None))"

text \<open>A venue that settles and a store that rejects the status update to BUILDING only.\<close>

definition buildingFaultEnv :: Env where
  "buildingFaultEnv =
     \<lparr>dbFails = (\<lambda>n q. case q of
                   UpdateOrder st sd ep th er oid \<Rightarrow> (if st = BUILDING then Some ''db down'' else None)
                 | _ \<Rightarrow> None),
      draws = (\<lambda>oid k. midDraws), retryMaxAttempts = 3\<rparr>"


text \<open>
  The number of status UPDATEs that have failed so far, read off the log. \<open>failsOnce m\<close>:
  when \<open>m\<close> returns, no status UPDATE has failed in it; when it throws, at most one has.
\<close>

definition updateFailures :: "World \<Rightarrow> nat" where
  "updateFailures w = length (filter (\<lambda>l. l = (LogError, ''Failed to update order status'')) (logs w))"

definition failsOnce :: "(World \<Rightarrow> (js_error + 'a) \<times> World) \<Rightarrow> bool" where
  "failsOnce m =
     (\<forall>w. case fst (m w) of
            Inr x \<Rightarrow> updateFailures (snd (m w)) = updateFailures w
          | Inl e \<Rightarrow> updateFailures (snd (m w)) \<le> updateFailures w + 1)"

section \<open>Properties\<close>

lemma showNat_digit: "n < 10 \<Longrightarrow> showNat n = [digitChar n]"
  by (simp add: showNat.simps)

subsection \<open>Routing decision\<close>

lemma best_mem:
  "foldl (\<lambda>best current. if amountOut current > amountOut best then current else best) q rest
     \<in> set (q # rest)"
  by (induction rest arbitrary: q) auto

lemma best_ge_init:
  "amountOut q \<le>
     amountOut (foldl (\<lambda>best current. if amountOut current > amountOut best then current else best) q rest)"
proof (induction rest arbitrary: q)
  case Nil
  then show ?case by simp
next
  case (Cons a rest)
  show ?case using Cons.IH[of a] Cons.IH[of q] by auto
qed

lemma best_max:
  "x \<in> set rest \<Longrightarrow>
     amountOut x \<le>
       amountOut (foldl (\<lambda>best current. if amountOut current > amountOut best then current else best) q rest)"
proof (induction rest arbitrary: q)
  case Nil
  then show ?case by simp
next
  case (Cons a rest)
  show ?case
  proof (cases "x = a")
    case True
    then show ?thesis using best_ge_init[of a rest] best_ge_init[of q rest] by auto
  next
    case False
    then show ?thesis using Cons by auto
  qed
qed

text \<open>
  C1. For a non-empty list of quotes selectBestDex returns a member of the list whose
  amountOut is maximal; the quotes getAllQuotes produces carry
  amountOut = price * (1 - fee); and on quote A (price 100, fee 0.003, amountOut 99.7)
  and quote B (price 99, fee 0.002, amountOut 98.802), in either order, it returns A.
\<close>

theorem selectBestDex_maximal:
  "(qs \<noteq> [] \<longrightarrow>
      (\<exists>b. selectBestDex qs = Inr b \<and> b \<in> set qs \<and> (\<forall>q\<in>set qs. amountOut q \<le> amountOut b)))
   \<and> (\<forall>q\<in>set (getAllQuotes dr tIn tOut amt). amountOut q = price q * (1 - fee q))
   \<and> selectBestDex
        [\<lparr>dex = dA, price = 100, amountOut = 100 * (1 - 0.003), fee = 0.003, priceImpact = iA\<rparr>,
         \<lparr>dex = dB, price = 99, amountOut = 99 * (1 - 0.002), fee = 0.002, priceImpact = iB\<rparr>]
       = Inr \<lparr>dex = dA, price = 100, amountOut = 99.7, fee = 0.003, priceImpact = iA\<rparr>
   \<and> selectBestDex
        [\<lparr>dex = dB, price = 99, amountOut = 98.802, fee = 0.002, priceImpact = iB\<rparr>,
         \<lparr>dex = dA, price = 100, amountOut = 99.7, fee = 0.003, priceImpact = iA\<rparr>]
       = Inr \<lparr>dex = dA, price = 100, amountOut = 99.7, fee = 0.003, priceImpact = iA\<rparr>"
proof (intro conjI impI)
  assume ne: "qs \<noteq> []"
  then obtain q rest where qs: "qs = q # rest" by (cases qs) auto
  show "\<exists>b. selectBestDex qs = Inr b \<and> b \<in> set qs \<and> (\<forall>q\<in>set qs. amountOut q \<le> amountOut b)"
    unfolding qs selectBestDex_def
    using best_mem[of q rest] best_ge_init[of q rest] best_max[of _ rest q]
    by auto
next
  show "\<forall>q\<in>set (getAllQuotes dr tIn tOut amt). amountOut q = price q * (1 - fee q)"
    by (simp add: getAllQuotes_def getRaydiumQuote_def getMeteorQuote_def Let_def)
qed (simp_all add: selectBestDex_def)

theorem selectBestDex_maximal_witness:
  "[\<lparr>dex = RAYDIUM, price = 100, amountOut = 99.7, fee = 0.003, priceImpact = 0.002\<rparr>,
    \<lparr>dex = METEORA, price = 99, amountOut = 98.802, fee = 0.002, priceImpact = 0.003\<rparr>] \<noteq> []
   \<and> (\<exists>b. selectBestDex
             [\<lparr>dex = RAYDIUM, price = 100, amountOut = 99.7, fee = 0.003, priceImpact = 0.002\<rparr>,
              \<lparr>dex = METEORA, price = 99, amountOut = 98.802, fee = 0.002, priceImpact = 0.003\<rparr>]
            = Inr b
          \<and> amountOut b = 99.7 \<and> dex b = RAYDIUM
          \<and> amountOut \<lparr>dex = METEORA, price = 99, amountOut = 98.802, fee = 0.002,
                          priceImpact = 0.003\<rparr> \<le> amountOut b)
   \<and> solQuote \<in> set (getAllQuotes midDraws ''SOL'' ''USDC'' 100)
   \<and> amountOut solQuote = price solQuote * (1 - fee solQuote)"
proof -
  note T = selectBestDex_maximal
    [of "[\<lparr>dex = RAYDIUM, price = 100, amountOut = 99.7, fee = 0.003, priceImpact = 0.002\<rparr>,
          \<lparr>dex = METEORA, price = 99, amountOut = 98.802, fee = 0.002, priceImpact = 0.003\<rparr>]"
        midDraws "''SOL''" "''USDC''" 100]
  have m: "solQuote \<in> set (getAllQuotes midDraws ''SOL'' ''USDC'' 100)"
    by (simp add: getAllQuotes_def getRaydiumQuote_def getBasePrice_def charCodeAt0_def
        midDraws_def solQuote_def Let_def)
  have a: "amountOut solQuote = price solQuote * (1 - fee solQuote)"
    using m T by blast
  show ?thesis
    using m a T by (simp add: selectBestDex_def)
qed


text \<open>
  C9. On the empty list selectBestDex throws the TypeError of a reduce without initial
  value; it returns a quote exactly when the list is non-empty.
\<close>

theorem selectBestDex_empty_throws:
  "selectBestDex [] = Inl (TypeError ''Reduce of empty array with no initial value'')
   \<and> ((\<exists>b. selectBestDex qs = Inr b) \<longleftrightarrow> qs \<noteq> [])"
  by (cases qs) (simp_all add: selectBestDex_def)

subsection \<open>Rounding to the nearest double\<close>

lemma log2i_nonneg: "0 \<le> log2i n"
  by (induction n rule: log2i.induct) (subst log2i.simps, simp)

lemma log2i_spec: "1 \<le> n \<Longrightarrow> 2 ^ nat (log2i n) \<le> n \<and> n < 2 * 2 ^ nat (log2i n)"
proof (induction n rule: log2i.induct)
  case (1 n)
  show ?case
  proof (cases "n < 2")
    case True
    then have "n = 1" using 1(2) by simp
    then show ?thesis by (subst (1 2) log2i.simps) simp
  next
    case False
    then have h: "1 \<le> n div 2" by simp
    from 1(1)[OF False h] have ih: "2 ^ nat (log2i (n div 2)) \<le> n div 2"
      "n div 2 < 2 * 2 ^ nat (log2i (n div 2))" by simp_all
    have e: "log2i n = 1 + log2i (n div 2)" using False by (subst log2i.simps) simp
    have p: "nat (1 + log2i (n div 2)) = Suc (nat (log2i (n div 2)))"
      using log2i_nonneg[of "n div 2"] by simp
    show ?thesis unfolding e p using ih by simp presburger
  qed
qed


lemma ilog2_spec:
  assumes "0 < x"
  shows "2 powi ilog2 x \<le> x" and "x < 2 powi (ilog2 x + 1)"
proof -
  have "2 powi ilog2 x \<le> x \<and> x < 2 powi (ilog2 x + 1)"
  proof (cases "1 \<le> x")
    case True
    let ?n = "\<lfloor>x\<rfloor>"
    have n: "1 \<le> ?n" using True by simp
    let ?k = "log2i ?n"
    have k: "ilog2 x = ?k" using True by (simp add: ilog2_def)
    have k0: "0 \<le> ?k" by (rule log2i_nonneg)
    from log2i_spec[OF n] have a: "2 ^ nat ?k \<le> ?n" and b: "?n < 2 * 2 ^ nat ?k" by simp_all
    have "(of_int (2 ^ nat ?k) :: real) \<le> of_int ?n" using a by (simp only: of_int_le_iff)
    then have "(2::real) ^ nat ?k \<le> of_int ?n" by simp
    also have "\<dots> \<le> x" by simp
    finally have l: "(2::real) ^ nat ?k \<le> x" .
    have "?n + 1 \<le> 2 * 2 ^ nat ?k" using b by simp
    then have "(of_int (?n + 1) :: real) \<le> of_int (2 * 2 ^ nat ?k)" by (simp only: of_int_le_iff)
    then have "of_int (?n + 1) \<le> (2::real) * 2 ^ nat ?k" by simp
    moreover have "x < of_int (?n + 1)" by linarith
    ultimately have u: "x < (2::real) * 2 ^ nat ?k" by linarith
    have p1: "(2::real) powi ?k = 2 ^ nat ?k" by (rule power_int_nonneg_exp[OF k0])
    have p2: "(2::real) powi (?k + 1) = 2 * 2 ^ nat ?k"
      by (simp add: power_int_add p1)
    show ?thesis unfolding k p1 p2 using l u by simp
  next
    case False
    then have x1: "x < 1" by simp
    let ?y = "1 / x"
    have y1: "1 < ?y" using assms x1 by simp
    let ?m = "\<lceil>?y\<rceil> - 1"
    have m: "1 \<le> ?m" using y1 by linarith
    let ?j = "log2i ?m"
    have k: "ilog2 x = - ?j - 1" using False by (simp add: ilog2_def)
    have j0: "0 \<le> ?j" by (rule log2i_nonneg)
    from log2i_spec[OF m] have a: "2 ^ nat ?j \<le> ?m" and b: "?m < 2 * 2 ^ nat ?j" by simp_all
    have "(of_int (2 ^ nat ?j) :: real) \<le> of_int ?m" using a by (simp only: of_int_le_iff)
    then have "(2::real) ^ nat ?j \<le> of_int ?m" by simp
    moreover have "of_int ?m < ?y" by linarith
    ultimately have l: "(2::real) ^ nat ?j < ?y" by linarith
    have "?m + 1 \<le> 2 * 2 ^ nat ?j" using b by simp
    then have "(of_int (?m + 1) :: real) \<le> of_int (2 * 2 ^ nat ?j)" by (simp only: of_int_le_iff)
    then have "of_int (?m + 1) \<le> (2::real) * 2 ^ nat ?j" by simp
    moreover have "?y \<le> of_int (?m + 1)" by simp
    ultimately have u: "?y \<le> (2::real) * 2 ^ nat ?j" by linarith
    have p0: "(2::real) powi ?j = 2 ^ nat ?j" by (rule power_int_nonneg_exp[OF j0])
    have p1: "(2::real) powi (- ?j - 1) = 1 / (2 * 2 ^ nat ?j)"
      by (simp add: power_int_diff power_int_minus p0 field_simps)
    have p2: "(2::real) powi (- ?j - 1 + 1) = 1 / 2 ^ nat ?j"
      by (simp add: power_int_minus p0 field_simps)
    have pos: "(0::real) < 2 ^ nat ?j" by simp
    have g1: "1 / (2 * 2 ^ nat ?j) \<le> x"
      using u assms pos by (simp add: field_simps)
    have g2: "x < 1 / 2 ^ nat ?j"
      using l assms pos by (simp add: field_simps)
    show ?thesis unfolding k p1 p2 using g1 g2 by simp
  qed
  then show "2 powi ilog2 x \<le> x" and "x < 2 powi (ilog2 x + 1)" by simp_all
qed

lemma pow2_less_iff: "(2::real) powi a < 2 powi b \<longleftrightarrow> a < b"
proof
  assume l: "(2::real) powi a < 2 powi b"
  show "a < b"
  proof (rule ccontr)
    assume "\<not> a < b"
    then have "b \<le> a" by simp
    then have "(2::real) powi b \<le> 2 powi a" by (intro power_int_increasing) simp_all
    then show False using l by simp
  qed
next
  assume "a < b"
  then show "(2::real) powi a < 2 powi b" by (intro power_int_strict_increasing) simp_all
qed

lemma pow2_le_iff: "(2::real) powi a \<le> 2 powi b \<longleftrightarrow> a \<le> b"
  using pow2_less_iff[of b a] by (simp add: not_less[symmetric])

lemma ilog2_unique:
  assumes "0 < x" and "2 powi e \<le> x" and "x < 2 powi (e + 1)"
  shows "ilog2 x = e"
proof -
  have "(2::real) powi ilog2 x < 2 powi (e + 1)" using ilog2_spec(1)[OF assms(1)] assms(3) by linarith
  then have a: "ilog2 x < e + 1" by (simp add: pow2_less_iff)
  have "(2::real) powi e < 2 powi (ilog2 x + 1)" using ilog2_spec(2)[OF assms(1)] assms(2) by linarith
  then have b: "e < ilog2 x + 1" by (simp add: pow2_less_iff)
  show ?thesis using a b by simp
qed

lemma ilog2_mono:
  assumes "0 < x" and "x \<le> y"
  shows "ilog2 x \<le> ilog2 y"
proof -
  have y: "0 < y" using assms by simp
  have "(2::real) powi ilog2 x < 2 powi (ilog2 y + 1)"
    using ilog2_spec(1)[OF assms(1)] ilog2_spec(2)[OF y] assms(2) by linarith
  then have "ilog2 x < ilog2 y + 1" by (simp add: pow2_less_iff)
  then show ?thesis by simp
qed


lemma roundEven_of_int [simp]: "roundEven (of_int n) = n"
  by (simp add: roundEven_def)

lemma roundEven_ge_floor: "\<lfloor>y\<rfloor> \<le> roundEven y"
  by (simp add: roundEven_def Let_def)

lemma roundEven_le_ceiling: "roundEven y \<le> \<lceil>y\<rceil>"
proof (cases "y = of_int \<lfloor>y\<rfloor>")
  case True
  then have "roundEven y = roundEven (of_int \<lfloor>y\<rfloor>)" by simp
  then have "roundEven y = \<lfloor>y\<rfloor>" by (simp only: roundEven_of_int)
  then show ?thesis by (simp add: floor_le_ceiling)
next
  case False
  then have "\<lceil>y\<rceil> = \<lfloor>y\<rfloor> + 1" by (simp add: ceiling_altdef)
  then show ?thesis by (simp add: roundEven_def Let_def)
qed

lemma roundEven_ge: "of_int n \<le> y \<Longrightarrow> n \<le> roundEven y"
proof -
  assume "of_int n \<le> y"
  then have "n \<le> \<lfloor>y\<rfloor>" by (simp add: le_floor_iff)
  then show ?thesis using roundEven_ge_floor[of y] by linarith
qed

lemma roundEven_le: "y \<le> of_int n \<Longrightarrow> roundEven y \<le> n"
proof -
  assume "y \<le> of_int n"
  then have "\<lceil>y\<rceil> \<le> n" by (simp add: ceiling_le_iff)
  then show ?thesis using roundEven_le_ceiling[of y] by linarith
qed


lemma ulp_pos [simp]: "0 < ulp x"
  by (simp add: ulp_def)

lemma ulp_ge0 [simp]: "0 \<le> ulp x"
  by (simp add: ulp_def)

lemma ulp_nz [simp]: "ulp x \<noteq> 0"
  using ulp_pos[of x] by (rule less_imp_neq[symmetric])

lemma div_ulp_eq: "t = a * ulp x \<Longrightarrow> t / ulp x = a"
  by simp

lemma div_ulp_mono: "x \<le> y \<Longrightarrow> x / ulp z \<le> y / ulp z"
  by (rule divide_right_mono) simp_all

lemma fl_zero [simp]: "fl 0 = 0"
  by (simp add: fl_def)

lemma fl_nonneg: "0 \<le> x \<Longrightarrow> 0 \<le> fl x"
proof -
  assume "0 \<le> x"
  then have "of_int 0 \<le> x / ulp x" by (simp add: zero_le_divide_iff)
  then have "0 \<le> roundEven (x / ulp x)" by (rule roundEven_ge)
  then show ?thesis by (simp add: fl_def)
qed

text \<open>The exponent of the spacing at x.\<close>

lemma ulp_eq: "ulp x = 2 powi (max (ilog2 \<bar>x\<bar> - 52) (- 1074))"
  by (simp add: ulp_def)

lemma ulp_ratio:
  assumes "0 < x" and "x \<le> y"
  shows "\<exists>k. ulp y = 2 ^ k * ulp x"
proof -
  let ?a = "max (ilog2 \<bar>x\<bar> - 52) (- 1074)"
  let ?b = "max (ilog2 \<bar>y\<bar> - 52) (- 1074)"
  have "ilog2 \<bar>x\<bar> \<le> ilog2 \<bar>y\<bar>" using assms by (intro ilog2_mono) simp_all
  then have ab: "?a \<le> ?b" by simp
  have "(2::real) powi ?b = 2 powi (?b - ?a) * 2 powi ?a"
    by (simp flip: power_int_add)
  also have "(2::real) powi (?b - ?a) = 2 ^ nat (?b - ?a)"
    using ab by (intro power_int_nonneg_exp) simp
  finally show ?thesis unfolding ulp_def by blast
qed

lemma fl_fixed_grid:
  assumes "fl t = t" and "t \<noteq> 0"
  shows "t = of_int (roundEven (t / ulp t)) * ulp t"
  using assms by (simp add: fl_def)

lemma fl_le_double:
  assumes x: "0 < x" and le: "x \<le> t" and t: "fl t = t"
  shows "fl x \<le> t"
proof -
  have t0: "t \<noteq> 0" using x le by simp
  obtain k where k: "ulp t = 2 ^ k * ulp x" using ulp_ratio[OF x le] by blast
  let ?n = "roundEven (t / ulp t)"
  have g: "t = of_int ?n * ulp t" using fl_fixed_grid[OF t t0] .
  have "t = of_int (?n * 2 ^ k) * ulp x" by (subst g) (simp add: k)
  then have tq: "t / ulp x = of_int (?n * 2 ^ k)" by (rule div_ulp_eq)
  have "x / ulp x \<le> t / ulp x" using le by (rule div_ulp_mono)
  then have "roundEven (x / ulp x) \<le> ?n * 2 ^ k" unfolding tq by (rule roundEven_le)
  then have "of_int (roundEven (x / ulp x)) \<le> (of_int (?n * 2 ^ k) :: real)" by (simp only: of_int_le_iff)
  then have "of_int (roundEven (x / ulp x)) * ulp x \<le> of_int (?n * 2 ^ k) * ulp x"
    by (simp add: mult_right_mono)
  also have "\<dots> = t" using tq by (simp add: field_simps)
  finally show ?thesis using x by (simp add: fl_def)
qed


lemma ulp_of_pos: "0 < x \<Longrightarrow> ulp x = 2 powi (max (ilog2 x - 52) (- 1074))"
  by (simp add: ulp_def)

lemma ulp_ge_min: "2 powi (- 1074) \<le> ulp x"
  unfolding ulp_def by (subst pow2_le_iff) simp

lemma fl_of_grid:
  assumes "x \<noteq> 0" and "x / ulp x = of_int n"
  shows "fl x = x"
proof -
  have "fl x = of_int n * ulp x" using assms by (simp add: fl_def)
  also have "\<dots> = x" using assms(2) by (simp add: field_simps)
  finally show ?thesis .
qed

lemma pos_double_ge:
  assumes "fl t = t" and "0 < t"
  shows "2 powi (- 1074) \<le> t"
proof -
  let ?n = "roundEven (t / ulp t)"
  have g: "t = of_int ?n * ulp t" using fl_fixed_grid[OF assms(1)] assms(2) by simp
  have "0 < of_int ?n * ulp t" using g assms(2) by simp
  then have "0 < (of_int ?n :: real)" by (rule zero_less_mult_pos2) simp
  then have "1 \<le> ?n" by simp
  then have "(1::real) \<le> of_int ?n" by simp
  then have "1 * ulp t \<le> of_int ?n * ulp t" by (intro mult_right_mono) simp_all
  then have "ulp t \<le> t" using g by simp
  then show ?thesis using ulp_ge_min[of t] by linarith
qed

lemma ilog2_pow2 [simp]: "ilog2 (2 powi e) = e"
  by (rule ilog2_unique) (simp_all add: pow2_less_iff)

lemma double_le_fl:
  assumes t: "0 < t" and le: "t \<le> x" and ft: "fl t = t"
  shows "t \<le> fl x"
proof -
  have x: "0 < x" using t le by simp
  have fx: "fl x = of_int (roundEven (x / ulp x)) * ulp x" using x by (simp add: fl_def)
  have kk: "ilog2 t \<le> ilog2 x" using t le by (rule ilog2_mono)
  show ?thesis
  proof (cases "ilog2 t = ilog2 x")
    case True
    then have u: "ulp t = ulp x" using t x by (simp add: ulp_of_pos)
    let ?n = "roundEven (t / ulp t)"
    have g: "t = of_int ?n * ulp x" using fl_fixed_grid[OF ft] t u by simp
    then have tq: "of_int ?n = t / ulp x" by (simp add: div_ulp_eq)
    have "of_int ?n \<le> x / ulp x" unfolding tq using le by (rule div_ulp_mono)
    then have "?n \<le> roundEven (x / ulp x)" by (rule roundEven_ge)
    then have "(of_int ?n :: real) \<le> of_int (roundEven (x / ulp x))" by (simp only: of_int_le_iff)
    then have "of_int ?n * ulp x \<le> of_int (roundEven (x / ulp x)) * ulp x"
      by (intro mult_right_mono) simp_all
    then show ?thesis using g fx by simp
  next
    case False
    then have lt: "ilog2 t + 1 \<le> ilog2 x" using kk by simp
    have "ilog2 (2 powi (- 1074)) \<le> ilog2 t"
      using pos_double_ge[OF ft t] by (intro ilog2_mono) simp_all
    then have kt: "- 1074 \<le> ilog2 t" by (simp only: ilog2_pow2)
    let ?k = "ilog2 x"
    let ?e = "max (?k - 52) (- 1074)"
    have ek: "?e \<le> ?k" using kt lt by simp
    have u: "ulp x = 2 powi ?e" using x by (rule ulp_of_pos)
    have "(2::real) powi ?k = 2 powi (?k - ?e) * 2 powi ?e" by (simp flip: power_int_add)
    also have "(2::real) powi (?k - ?e) = 2 ^ nat (?k - ?e)"
      using ek by (intro power_int_nonneg_exp) simp
    finally have p: "(2::real) powi ?k = of_int (2 ^ nat (?k - ?e)) * ulp x" by (simp add: u)
    then have pq: "of_int (2 ^ nat (?k - ?e)) = 2 powi ?k / ulp x" by (simp add: div_ulp_eq)
    have "2 powi ?k \<le> x" using ilog2_spec(1)[OF x] .
    then have "of_int (2 ^ nat (?k - ?e)) \<le> x / ulp x" unfolding pq by (rule div_ulp_mono)
    then have "2 ^ nat (?k - ?e) \<le> roundEven (x / ulp x)" by (rule roundEven_ge)
    then have "(of_int (2 ^ nat (?k - ?e)) :: real) \<le> of_int (roundEven (x / ulp x))"
      by (simp only: of_int_le_iff)
    then have "of_int (2 ^ nat (?k - ?e)) * ulp x \<le> of_int (roundEven (x / ulp x)) * ulp x"
      by (intro mult_right_mono) simp_all
    then have a: "2 powi ?k \<le> fl x" using p fx by simp
    have "t < 2 powi (ilog2 t + 1)" using ilog2_spec(2)[OF t] .
    also have "\<dots> \<le> 2 powi ?k" using lt by (simp add: pow2_le_iff)
    finally show ?thesis using a by linarith
  qed
qed

lemma fl_repr:
  assumes m: "0 < m" and b: "m < 2 ^ 53" and e: "- 1074 \<le> e"
  shows "fl (of_int m * 2 powi e) = of_int m * 2 powi e"
proof -
  let ?x = "of_int m * (2::real) powi e"
  have x: "0 < ?x" using m by simp
  let ?k = "ilog2 ?x"
  let ?d = "max (?k - 52) (- 1074)"
  have "(of_int m :: real) < of_int (2 ^ 53)" using b by (simp only: of_int_less_iff)
  then have "(of_int m :: real) < 2 ^ 53" by simp
  then have "?x < 2 ^ 53 * 2 powi e" by (intro mult_strict_right_mono) simp_all
  also have "\<dots> = 2 powi (53 + e)" by (simp add: power_int_add)
  finally have "2 powi ?k < (2::real) powi (53 + e)" using ilog2_spec(1)[OF x] by linarith
  then have "?k < 53 + e" by (simp add: pow2_less_iff)
  then have de: "?d \<le> e" using e by simp
  have u: "ulp ?x = 2 powi ?d" using x by (rule ulp_of_pos)
  have "(2::real) powi e = 2 powi (e - ?d) * 2 powi ?d" by (simp flip: power_int_add)
  also have "(2::real) powi (e - ?d) = 2 ^ nat (e - ?d)"
    using de by (intro power_int_nonneg_exp) simp
  finally have "?x = of_int (m * 2 ^ nat (e - ?d)) * ulp ?x" by (simp add: u)
  then have q: "?x / ulp ?x = of_int (m * 2 ^ nat (e - ?d))" by (rule div_ulp_eq)
  have nz: "?x \<noteq> 0" using m by simp
  show ?thesis using nz q by (rule fl_of_grid)
qed


lemma double_grid_bound:
  assumes ft: "fl t = t" and t: "0 < t"
  shows "roundEven (t / ulp t) < 2 ^ 53"
proof -
  let ?k = "ilog2 t"
  let ?e = "max (?k - 52) (- 1074)"
  let ?n = "roundEven (t / ulp t)"
  have u: "ulp t = 2 powi ?e" using t by (rule ulp_of_pos)
  have g: "t = of_int ?n * ulp t" using fl_fixed_grid[OF ft] t by simp
  have "of_int ?n * 2 powi ?e < (2::real) powi (?k + 1)"
    using ilog2_spec(2)[OF t] g u by simp
  also have "\<dots> = 2 powi (?k + 1 - ?e) * 2 powi ?e" by (simp flip: power_int_add)
  finally have "of_int ?n < (2::real) powi (?k + 1 - ?e)" by simp
  also have "\<dots> \<le> 2 powi 53" by (subst pow2_le_iff) simp
  finally have "(of_int ?n :: real) < of_int (2 ^ 53)" by simp
  then show ?thesis by (simp only: of_int_less_iff)
qed

text \<open>Subtraction of nearby doubles is exact.\<close>

lemma fl_sub_exact:
  assumes fp: "fl p = p" and fe: "fl e = e" and e0: "0 < e" and ep: "e \<le> p" and pe: "p \<le> 2 * e"
  shows "fl (p - e) = p - e"
proof (cases "p = e")
  case True
  then show ?thesis by simp
next
  case False
  have p0: "0 < p" using e0 ep by simp
  obtain k where k: "ulp p = 2 ^ k * ulp e" using ulp_ratio[OF e0 ep] by blast
  let ?np = "roundEven (p / ulp p)"
  let ?ne = "roundEven (e / ulp e)"
  have gp: "p = of_int ?np * ulp p" using fl_fixed_grid[OF fp] p0 by simp
  have ge: "e = of_int ?ne * ulp e" using fl_fixed_grid[OF fe] e0 by simp
  let ?m = "?np * 2 ^ k - ?ne"
  have "p = of_int (?np * 2 ^ k) * ulp e" by (subst gp) (simp add: k)
  then have d: "p - e = of_int ?m * ulp e" using ge by (simp add: algebra_simps)
  have "0 < p - e" using ep False by simp
  then have "0 < of_int ?m * ulp e" using d by simp
  then have "0 < (of_int ?m :: real)" by (rule zero_less_mult_pos2) simp
  then have m0: "0 < ?m" by (simp only: of_int_0_less_iff)
  have "p - e \<le> e" using pe by simp
  then have "of_int ?m * ulp e \<le> of_int ?ne * ulp e" using d ge by simp
  then have "(of_int ?m :: real) \<le> of_int ?ne" by (simp add: mult_le_cancel_right)
  then have "?m \<le> ?ne" by (simp only: of_int_le_iff)
  then have mb: "?m < 2 ^ 53" using double_grid_bound[OF fe e0] by linarith
  have u: "ulp e = 2 powi (max (ilog2 e - 52) (- 1074))" using e0 by (rule ulp_of_pos)
  have "fl (of_int ?m * 2 powi (max (ilog2 e - 52) (- 1074)))
          = of_int ?m * 2 powi (max (ilog2 e - 52) (- 1074))"
    using m0 mb by (rule fl_repr) simp
  then show ?thesis unfolding d u .
qed

lemma roundEven_bound:
  assumes x: "0 < x"
  shows "roundEven (x / ulp x) \<le> 2 ^ 53"
proof -
  let ?k = "ilog2 x"
  let ?e = "max (?k - 52) (- 1074)"
  have u: "ulp x = 2 powi ?e" using x by (rule ulp_of_pos)
  have "x < 2 powi (?k + 1)" using ilog2_spec(2)[OF x] .
  also have "\<dots> = 2 powi (?k + 1 - ?e) * 2 powi ?e" by (simp flip: power_int_add)
  also have "\<dots> \<le> 2 powi 53 * 2 powi ?e"
  proof (rule mult_right_mono)
    show "(2::real) powi (?k + 1 - ?e) \<le> 2 powi 53" by (subst pow2_le_iff) simp
  qed simp
  finally have "x \<le> of_int (2 ^ 53) * ulp x" by (simp add: u)
  then have "x / ulp x \<le> of_int (2 ^ 53) * ulp x / ulp x" by (rule div_ulp_mono)
  then have "x / ulp x \<le> of_int (2 ^ 53)" by simp
  then show ?thesis by (rule roundEven_le)
qed

lemma fl_idem_pos:
  assumes x: "0 < x"
  shows "fl (fl x) = fl x"
proof -
  let ?k = "ilog2 x"
  let ?e = "max (?k - 52) (- 1074)"
  let ?n = "roundEven (x / ulp x)"
  have u: "ulp x = 2 powi ?e" using x by (rule ulp_of_pos)
  have f: "fl x = of_int ?n * 2 powi ?e" using x u by (simp add: fl_def)
  have n0: "0 \<le> ?n" using x by (intro roundEven_ge) (simp add: zero_le_divide_iff)
  have nb: "?n \<le> 2 ^ 53" using x by (rule roundEven_bound)
  consider "?n = 0" | "0 < ?n" "?n < 2 ^ 53" | "?n = 2 ^ 53" using n0 nb by linarith
  then show ?thesis
  proof cases
    case 1
    then show ?thesis by (simp add: f)
  next
    case 2
    show ?thesis unfolding f using 2 by (rule fl_repr) simp
  next
    case 3
    have "fl (of_int (2 ^ 52) * 2 powi (?e + 1)) = of_int (2 ^ 52) * 2 powi (?e + 1)"
      by (rule fl_repr) simp_all
    moreover have "of_int (2 ^ 52) * (2::real) powi (?e + 1) = of_int (2 ^ 53) * 2 powi ?e"
      by (simp add: power_int_add)
    ultimately show ?thesis unfolding f 3 by simp
  qed
qed

lemma fl_idem_nonneg: "0 \<le> x \<Longrightarrow> fl (fl x) = fl x"
  using fl_idem_pos[of x] by (cases "x = 0") simp_all

lemma fl_le_double0:
  assumes "0 \<le> x" and "x \<le> t" and "fl t = t"
  shows "fl x \<le> t"
  using assms fl_le_double[of x t] by (cases "x = 0") simp_all

lemma double_le_fl0:
  assumes "0 \<le> x" and "t \<le> x" and "fl t = t"
  shows "t \<le> fl x"
proof (cases "0 < t")
  case True
  then show ?thesis using assms by (intro double_le_fl)
next
  case False
  then show ?thesis using fl_nonneg[OF assms(1)] by simp
qed

lemma fl_half:
  assumes fp: "fl p = p" and p: "2 powi (- 1021) \<le> p"
  shows "fl (p / 2) = p / 2"
proof -
  have p0: "0 < p" using p by (rule less_le_trans[rotated]) simp
  let ?k = "ilog2 p"
  let ?e = "max (?k - 52) (- 1074)"
  let ?n = "roundEven (p / ulp p)"
  have u: "ulp p = 2 powi ?e" using p0 by (rule ulp_of_pos)
  have g: "p = of_int ?n * 2 powi ?e" using fl_fixed_grid[OF fp] p0 u by simp
  have "ilog2 (2 powi (- 1021)) \<le> ?k" using p by (intro ilog2_mono) simp_all
  then have k: "- 1021 \<le> ?k" by (simp only: ilog2_pow2)
  have nb: "?n < 2 ^ 53" using fp p0 by (rule double_grid_bound)
  have "0 < of_int ?n * (2::real) powi ?e" using g p0 by simp
  then have "0 < (of_int ?n :: real)" by (rule zero_less_mult_pos2) simp
  then have n0: "0 < ?n" by (simp only: of_int_0_less_iff)
  have "fl (of_int ?n * 2 powi (?e - 1)) = of_int ?n * 2 powi (?e - 1)"
    using n0 nb by (rule fl_repr) (use k in simp)
  moreover have "of_int ?n * (2::real) powi (?e - 1) = p / 2"
    by (subst (2) g) (simp add: power_int_diff)
  ultimately show ?thesis by simp
qed

lemma fl_consts:
  "fl (1 / 100) = 5764607523034235 / 2 ^ 59"
  "fl (fl (1 / 100)) = fl (1 / 100)"
  "fl 1 = 1"
  "fl (1 / 2) = 1 / 2"
  "fl (1 / 20) = 3602879701896397 / 2 ^ 56"
  by code_simp+


subsection \<open>Settlement\<close>

lemma isDoubleI: "fl x = x \<Longrightarrow> \<bar>x\<bar> < 2 ^ 10 \<Longrightarrow> isDouble x"
proof -
  assume f: "fl x = x" and b: "\<bar>x\<bar> < 2 ^ 10"
  have "(2::real) ^ 10 \<le> 2 ^ 1024" by (rule power_increasing) simp_all
  then show ?thesis using f b by (simp only: isDouble_def) linarith
qed

lemma normal_from_one: "1 \<le> p \<Longrightarrow> 2 powi (- 1021) \<le> (p::real)"
proof -
  assume p: "1 \<le> p"
  have "(2::real) powi (- 1021) \<le> 2 powi 0" by (subst pow2_le_iff) simp
  then show ?thesis using p by simp
qed

lemma next_double: "isDouble (fl (1 / 100) + 2 powi (- 59))"
proof (rule isDoubleI)
  show "fl (fl (1 / 100) + 2 powi (- 59)) = fl (1 / 100) + 2 powi (- 59)" by code_simp
  show "\<bar>fl (1 / 100) + 2 powi (- 59)\<bar> < 2 ^ 10" unfolding fl_consts(1) by simp
qed

text \<open>executeSwap, evaluated from the results of its roundings.\<close>

lemma executeSwap_eval:
  assumes "fl (swapSlippage dr * fl 0.01) = s" and "fl (1 - s) = a" and "fl (price q * a) = e"
    and "fl (price q - e) = d" and "fl (d / price q) = x"
  shows "swapExecutedPrice q (swapSlippage dr) = e"
    and "x > slippage order \<Longrightarrow> isSlippageExceeded (executeSwap dr order q)"
    and "\<not> x > slippage order \<Longrightarrow> \<not> isSlippageExceeded (executeSwap dr order q)"
    and "\<not> x > slippage order \<Longrightarrow> \<not> swapFailure dr < fl 0.05 \<Longrightarrow>
           executeSwap dr order q
             = Inr \<lparr>res_orderId = orderId order, res_txHash = generateMockTxHash (hashDraws dr),
                    res_executedPrice = e, res_amountOut = fl (e * fl (1 - fee q)),
                    res_dex = dex q\<rparr>"
    and "\<not> x > slippage order \<Longrightarrow> swapFailure dr < fl 0.05 \<Longrightarrow>
           executeSwap dr order q
             = Inl (Error ''Transaction simulation failed: Network congestion'')"
proof -
  show e: "swapExecutedPrice q (swapSlippage dr) = e"
    using assms by (simp add: swapExecutedPrice_def)
  have a: "fl (fl (price q - swapExecutedPrice q (swapSlippage dr)) / price q) = x"
    unfolding e using assms by simp
  have a2: "fl (fl (price q - e) / price q) = x"
    using assms by simp
  show "x > slippage order \<Longrightarrow> isSlippageExceeded (executeSwap dr order q)"
    by (simp add: executeSwap_def Let_def a isSlippageExceeded_def slippageMessage_def)
  show "\<not> x > slippage order \<Longrightarrow> \<not> isSlippageExceeded (executeSwap dr order q)"
    by (simp add: executeSwap_def Let_def a isSlippageExceeded_def)
  show "\<not> x > slippage order \<Longrightarrow> \<not> swapFailure dr < fl 0.05 \<Longrightarrow>
           executeSwap dr order q
             = Inr \<lparr>res_orderId = orderId order, res_txHash = generateMockTxHash (hashDraws dr),
                    res_executedPrice = e, res_amountOut = fl (e * fl (1 - fee q)),
                    res_dex = dex q\<rparr>"
    by (simp add: executeSwap_def Let_def e a2)
  show "\<not> x > slippage order \<Longrightarrow> swapFailure dr < fl 0.05 \<Longrightarrow>
           executeSwap dr order q
             = Inl (Error ''Transaction simulation failed: Network congestion'')"
    by (simp add: executeSwap_def Let_def e a2)
qed

text \<open>The roundings of the example runs.\<close>

lemma mid_roundings:
  "fl (swapSlippage midDraws * fl 0.01) = 5764607523034235 / 2 ^ 60"
  "fl (1 - 5764607523034235 / 2 ^ 60) = 8962163258467287 / 2 ^ 53"
  "fl (price solQuote * (8962163258467287 / 2 ^ 53)) = 4130997126949765 / 2 ^ 45"
  "fl (price solQuote - 4130997126949765 / 2 ^ 45) = 20758779532411 / 2 ^ 45"
  "fl (20758779532411 / 2 ^ 45 / price solQuote) = 1441151880758567 / 2 ^ 58"
  "fl (4130997126949765 / 2 ^ 45 * fl (1 - fee solQuote)) = 8237208271137831 / 2 ^ 46"
  by code_simp+

lemma last_roundings:
  "fl (swapSlippage lastDraws * fl 0.01) = 2882303761517117 / 2 ^ 58"
  "fl (1 - 2882303761517117 / 2 ^ 58) = 4458563631096791 / 2 ^ 52"
  "fl (price solQuote * (4458563631096791 / 2 ^ 52)) = 2055119173708677 / 2 ^ 44"
  "fl (price solQuote - 2055119173708677 / 2 ^ 44) = 20758779532411 / 2 ^ 44"
  "fl (20758779532411 / 2 ^ 44 / price solQuote) = 1441151880758567 / 2 ^ 57"
  by code_simp+

lemma boundary_roundings:
  "fl (swapSlippage boundaryDraws * fl 0.01) = 3458764513820541 / 2 ^ 59"
  "fl (1 - 3458764513820541 / 2 ^ 59) = 4476578029606273 / 2 ^ 52"
  "fl (price boundaryQuote * (4476578029606273 / 2 ^ 52)) = 5259979184787371 / 2 ^ 46"
  "fl (price boundaryQuote - 5259979184787371 / 2 ^ 46) = 15875188686481 / 2 ^ 45"
  "fl (15875188686481 / 2 ^ 45 / price boundaryQuote) = 3458764513820541 / 2 ^ 59"
  "fl (5259979184787371 / 2 ^ 46 * fl (1 - fee boundaryQuote)) = 5244199247233009 / 2 ^ 46"
  by code_simp+

lemma executed_bounds:
  assumes fp: "fl p = p" and p: "2 powi (- 1021) \<le> p" and r0: "0 \<le> r" and r1: "r < 1"
  shows "fl (fl (p * fl (1 - fl (r * fl 0.01)))) = fl (p * fl (1 - fl (r * fl 0.01)))"
    and "p / 2 \<le> fl (p * fl (1 - fl (r * fl 0.01)))"
    and "fl (p * fl (1 - fl (r * fl 0.01))) \<le> p"
proof -
  let ?c = "fl 0.01"
  let ?s = "fl (r * ?c)"
  let ?a = "fl (1 - ?s)"
  let ?E = "fl (p * ?a)"
  have p0: "0 < p" using p by (rule less_le_trans[rotated]) simp
  have c: "?c = 5764607523034235 / 2 ^ 59" and fc: "fl ?c = ?c"
    using fl_consts(1,2) by simp_all
  have c0: "0 \<le> ?c" and c1: "?c \<le> 1 / 2" unfolding c by simp_all
  have "r * ?c \<le> 1 * ?c" using r1 c0 by (intro mult_right_mono) simp_all
  then have rc: "r * ?c \<le> ?c" by simp
  have rc0: "0 \<le> r * ?c" using r0 c0 by simp
  have s0: "0 \<le> ?s" using rc0 by (rule fl_nonneg)
  have s1: "?s \<le> ?c" using rc0 rc fc by (rule fl_le_double0)
  have a0: "0 \<le> 1 - ?s" using s1 c1 by simp
  have a1: "?a \<le> 1" using a0 _ fl_consts(3) by (rule fl_le_double0) (use s0 in simp)
  have a2: "1 / 2 \<le> ?a" using a0 _ fl_consts(4) by (rule double_le_fl0) (use s1 c1 in simp)
  have pa0: "0 \<le> p * ?a" using p0 a2 by simp
  have "p * ?a \<le> p * 1" using a1 p0 by (intro mult_left_mono) simp_all
  then have pa1: "p * ?a \<le> p" by simp
  have "p * (1 / 2) \<le> p * ?a" using a2 p0 by (intro mult_left_mono) simp_all
  then have pa2: "p / 2 \<le> p * ?a" by simp
  show "fl ?E = ?E" using pa0 by (rule fl_idem_nonneg)
  show "p / 2 \<le> ?E" using pa0 pa2 fl_half[OF fp p] by (rule double_le_fl0)
  show "?E \<le> p" using pa0 pa1 fp by (rule fl_le_double0)
qed

text \<open>
  C5 (as amended). For a quoted price that is a double from \<open>2 powi (- 1021)\<close> up, a
  slippage draw in [0, 1) and a tolerance that is a double: executeSwap fails with the
  slippage-exceeded error exactly when the deviation of the executed price from the
  quoted price, rounded to the nearest double, is above the order's tolerance (the
  difference of the two prices is computed exactly, the quotient is rounded). When it
  fails, the deviation itself is above the tolerance. It fails whenever the deviation
  reaches a double above the tolerance; in particular with tolerance 0.01 it fails when
  the deviation reaches the next double above 0.01. A successful result carries the
  executed price, which is a double not above the quoted price.
\<close>

theorem executeSwap_slippage:
  assumes dp: "isDouble (price q)" and np: "2 powi (- 1021) \<le> price q"
    and r0: "0 \<le> swapSlippage dr" and r1: "swapSlippage dr < 1"
    and dt: "isDouble (slippage order)"
  shows "(isSlippageExceeded (executeSwap dr order q) \<longleftrightarrow>
            fl (deviation q (swapExecutedPrice q (swapSlippage dr))) > slippage order)
         \<and> (isSlippageExceeded (executeSwap dr order q) \<longrightarrow>
               deviation q (swapExecutedPrice q (swapSlippage dr)) > slippage order)
         \<and> (\<forall>t. isDouble t \<and> slippage order < t \<and>
                 t \<le> deviation q (swapExecutedPrice q (swapSlippage dr)) \<longrightarrow>
               isSlippageExceeded (executeSwap dr order q))
         \<and> (slippage order = fl 0.01 \<and>
               fl 0.01 + 2 powi (- 59) \<le> deviation q (swapExecutedPrice q (swapSlippage dr)) \<longrightarrow>
               isSlippageExceeded (executeSwap dr order q))
         \<and> (\<forall>res. executeSwap dr order q = Inr res \<longrightarrow>
               res_executedPrice res = swapExecutedPrice q (swapSlippage dr) \<and>
               fl (deviation q (res_executedPrice res)) \<le> slippage order)
         \<and> isDouble (swapExecutedPrice q (swapSlippage dr))
         \<and> swapExecutedPrice q (swapSlippage dr) \<le> price q"
proof -
  let ?p = "price q"
  let ?E = "swapExecutedPrice q (swapSlippage dr)"
  let ?x = "(?p - ?E) / ?p"
  let ?t = "slippage order"
  have fp: "fl ?p = ?p" and bp: "\<bar>?p\<bar> < 2 ^ 1024" using dp by (simp_all add: isDouble_def)
  have ft: "fl ?t = ?t" using dt by (simp add: isDouble_def)
  have p0: "0 < ?p" using np by (rule less_le_trans[rotated]) simp
  have fE: "fl ?E = ?E" and lo: "?p / 2 \<le> ?E" and hi: "?E \<le> ?p"
    unfolding swapExecutedPrice_def using executed_bounds[OF fp np r0 r1] by simp_all
  have E0: "0 < ?E" using lo p0 by simp
  have sub: "fl (?p - ?E) = ?p - ?E"
    using fp fE E0 hi by (rule fl_sub_exact) (use lo in simp)
  have dv: "deviation q ?E = ?x" using hi by (simp add: deviation_def)
  have x0: "0 \<le> ?x" using hi p0 by simp
  have A: "isSlippageExceeded (executeSwap dr order q) \<longleftrightarrow> fl ?x > ?t"
    by (simp add: executeSwap_def isSlippageExceeded_def Let_def slippageMessage_def sub)
  have B: "fl ?x > ?t \<longrightarrow> ?x > ?t"
  proof (intro impI, rule ccontr)
    assume g: "fl ?x > ?t" and "\<not> ?x > ?t"
    then have "?x \<le> ?t" by simp
    then have "fl ?x \<le> ?t" using x0 ft by (intro fl_le_double0)
    then show False using g by simp
  qed
  have C: "\<forall>t. isDouble t \<and> ?t < t \<and> t \<le> ?x \<longrightarrow> fl ?x > ?t"
  proof (intro allI impI)
    fix t assume h: "isDouble t \<and> ?t < t \<and> t \<le> ?x"
    then have "fl t = t" by (simp add: isDouble_def)
    then have "t \<le> fl ?x" using x0 h by (intro double_le_fl0) simp_all
    then show "fl ?x > ?t" using h by simp
  qed
  have n: "isDouble (fl 0.01 + 2 powi (- 59))" "fl 0.01 < fl 0.01 + 2 powi (- 59)"
    using next_double by simp_all
  have P: "?t = fl 0.01 \<and> fl 0.01 + 2 powi (- 59) \<le> ?x \<longrightarrow> fl ?x > ?t"
  proof
    assume h: "?t = fl 0.01 \<and> fl 0.01 + 2 powi (- 59) \<le> ?x"
    then have "isDouble (fl 0.01 + 2 powi (- 59)) \<and> ?t < fl 0.01 + 2 powi (- 59)
               \<and> fl 0.01 + 2 powi (- 59) \<le> ?x"
      using n by simp
    then show "fl ?x > ?t" using C by blast
  qed
  have D: "\<forall>res. executeSwap dr order q = Inr res \<longrightarrow>
               res_executedPrice res = ?E \<and> fl ?x \<le> ?t"
    by (auto simp add: executeSwap_def Let_def sub split: if_splits)
  have "\<bar>?E\<bar> < 2 ^ 1024" using E0 hi bp by simp
  then have G: "isDouble ?E" using fE by (simp add: isDouble_def)
  show ?thesis unfolding dv using A B C P D G hi dv by auto
qed

lemma sol_inputs:
  "isDouble (price solQuote)" "2 powi (- 1021) \<le> price solQuote"
  "isDouble (slippage onePercentOrder)" "slippage onePercentOrder = fl 0.01"
proof -
  have p: "price solQuote = 118" by (simp add: solQuote_def)
  have f: "fl 118 = 118" by code_simp
  show "isDouble (price solQuote)" unfolding p using f by (rule isDoubleI) simp
  show "2 powi (- 1021) \<le> price solQuote" unfolding p by (rule normal_from_one) simp
  show t: "slippage onePercentOrder = fl 0.01" by (simp add: onePercentOrder_def)
  have "isDouble (fl (1 / 100))" using fl_consts(2) by (rule isDoubleI) (simp add: fl_consts(1))
  then show "isDouble (slippage onePercentOrder)" unfolding t by simp
qed

lemma last_run:
  "isSlippageExceeded (executeSwap lastDraws onePercentOrder solQuote)"
  "swapExecutedPrice solQuote (swapSlippage lastDraws) = 2055119173708677 / 2 ^ 44"
  "0 \<le> swapSlippage lastDraws" "swapSlippage lastDraws < 1"
proof -
  note e = executeSwap_eval[OF last_roundings]
  have t: "slippage onePercentOrder = 5764607523034235 / 2 ^ 59"
    using sol_inputs(4) fl_consts(1) by simp
  show "isSlippageExceeded (executeSwap lastDraws onePercentOrder solQuote)"
    by (rule e(2)) (simp add: t)
  show "swapExecutedPrice solQuote (swapSlippage lastDraws) = 2055119173708677 / 2 ^ 44"
    by (rule e(1))
  show "0 \<le> swapSlippage lastDraws" "swapSlippage lastDraws < 1"
    by (simp_all add: lastDraws_def)
qed

lemma mid_run:
  "executeSwap midDraws onePercentOrder solQuote
     = Inr \<lparr>res_orderId = ''order-1'', res_txHash = generateMockTxHash (\<lambda>i. 0),
            res_executedPrice = 4130997126949765 / 2 ^ 45,
            res_amountOut = 8237208271137831 / 2 ^ 46, res_dex = RAYDIUM\<rparr>"
  "0 \<le> swapSlippage midDraws" "swapSlippage midDraws < 1"
proof -
  note e = executeSwap_eval[OF mid_roundings(1-5)]
  have t: "slippage onePercentOrder = 5764607523034235 / 2 ^ 59"
    using sol_inputs(4) fl_consts(1) by simp
  have "executeSwap midDraws onePercentOrder solQuote
          = Inr \<lparr>res_orderId = orderId onePercentOrder,
                 res_txHash = generateMockTxHash (hashDraws midDraws),
                 res_executedPrice = 4130997126949765 / 2 ^ 45,
                 res_amountOut = fl (4130997126949765 / 2 ^ 45 * fl (1 - fee solQuote)),
                 res_dex = dex solQuote\<rparr>"
    by (rule e(4)) (simp_all add: t fl_consts(5) midDraws_def)
  then show "executeSwap midDraws onePercentOrder solQuote
     = Inr \<lparr>res_orderId = ''order-1'', res_txHash = generateMockTxHash (\<lambda>i. 0),
            res_executedPrice = 4130997126949765 / 2 ^ 45,
            res_amountOut = 8237208271137831 / 2 ^ 46, res_dex = RAYDIUM\<rparr>"
    unfolding mid_roundings(6)
    by (simp add: onePercentOrder_def solOrder_def midDraws_def solQuote_def)
  show "0 \<le> swapSlippage midDraws" "swapSlippage midDraws < 1"
    by (simp_all add: midDraws_def)
qed

theorem executeSwap_slippage_witness:
  "isDouble (price solQuote) \<and> 2 powi (- 1021) \<le> price solQuote
   \<and> 0 \<le> swapSlippage lastDraws \<and> swapSlippage lastDraws < 1
   \<and> isDouble (slippage onePercentOrder) \<and> slippage onePercentOrder = fl 0.01
   \<and> isSlippageExceeded (executeSwap lastDraws onePercentOrder solQuote)
   \<and> swapExecutedPrice solQuote (swapSlippage lastDraws) = 2055119173708677 / 2 ^ 44
   \<and> slippage onePercentOrder < fl (deviation solQuote (2055119173708677 / 2 ^ 44))
   \<and> slippage onePercentOrder < deviation solQuote (2055119173708677 / 2 ^ 44)
   \<and> isDouble (fl 0.01 + 2 powi (- 59))
   \<and> slippage onePercentOrder < fl 0.01 + 2 powi (- 59)
   \<and> fl 0.01 + 2 powi (- 59) \<le> deviation solQuote (2055119173708677 / 2 ^ 44)
   \<and> isDouble (2055119173708677 / 2 ^ 44)
   \<and> 0 \<le> swapSlippage midDraws \<and> swapSlippage midDraws < 1
   \<and> executeSwap midDraws onePercentOrder solQuote
       = Inr \<lparr>res_orderId = ''order-1'', res_txHash = generateMockTxHash (\<lambda>i. 0),
              res_executedPrice = 4130997126949765 / 2 ^ 45,
              res_amountOut = 8237208271137831 / 2 ^ 46, res_dex = RAYDIUM\<rparr>
   \<and> swapExecutedPrice solQuote (swapSlippage midDraws) = 4130997126949765 / 2 ^ 45
   \<and> fl (deviation solQuote (4130997126949765 / 2 ^ 45)) \<le> slippage onePercentOrder"
proof -
  note T = executeSwap_slippage [OF sol_inputs(1,2) last_run(3,4) sol_inputs(3), unfolded last_run(2)]
  note U = executeSwap_slippage [OF sol_inputs(1,2) mid_run(2,3) sol_inputs(3)]
  have x: "isSlippageExceeded (executeSwap lastDraws onePercentOrder solQuote)"
    by (rule last_run(1))
  have a: "slippage onePercentOrder < fl (deviation solQuote (2055119173708677 / 2 ^ 44))"
    using x T by blast
  have b: "slippage onePercentOrder < deviation solQuote (2055119173708677 / 2 ^ 44)"
    using x T by blast
  have n1: "isDouble (fl 0.01 + 2 powi (- 59))"
    using next_double by simp
  have n2: "slippage onePercentOrder < fl 0.01 + 2 powi (- 59)"
    "fl 0.01 + 2 powi (- 59) \<le> deviation solQuote (2055119173708677 / 2 ^ 44)"
    unfolding sol_inputs(4) by (simp_all add: fl_consts(1) deviation_def solQuote_def)
  have g: "isDouble (2055119173708677 / 2 ^ 44)"
    using T by blast
  have e: "res_executedPrice \<lparr>res_orderId = ''order-1'', res_txHash = generateMockTxHash (\<lambda>i. 0),
              res_executedPrice = 4130997126949765 / 2 ^ 45,
              res_amountOut = 8237208271137831 / 2 ^ 46, res_dex = RAYDIUM\<rparr>
             = swapExecutedPrice solQuote (swapSlippage midDraws)
           \<and> fl (deviation solQuote (res_executedPrice
                \<lparr>res_orderId = ''order-1'', res_txHash = generateMockTxHash (\<lambda>i. 0),
                 res_executedPrice = 4130997126949765 / 2 ^ 45,
                 res_amountOut = 8237208271137831 / 2 ^ 46, res_dex = RAYDIUM\<rparr>))
               \<le> slippage onePercentOrder"
    using mid_run(1) U by blast
  have e1: "swapExecutedPrice solQuote (swapSlippage midDraws) = 4130997126949765 / 2 ^ 45"
    using e by simp
  have e2: "fl (deviation solQuote (4130997126949765 / 2 ^ 45)) \<le> slippage onePercentOrder"
    using e by simp
  show ?thesis
    by (intro conjI sol_inputs(1,2) last_run(3,4) sol_inputs(3,4) x last_run(2) a b n1 n2 g
        mid_run(2,3) mid_run(1) e1 e2)
qed

text \<open>
  The claim as stated (failure exactly when the deviation is above the tolerance) fails
  at the boundary: with tolerance 0.006, quoted price 75.2 and slippage draw 0.6 the
  executed price deviates from the quoted price by more than the tolerance, the rounded
  quotient equals the tolerance, and the swap settles.
\<close>

lemma boundary_inputs:
  "isDouble (price boundaryQuote)" "isDouble (slippage boundaryOrder)"
  "isDouble (swapSlippage boundaryDraws)"
  "price boundaryQuote = 5291729562160333 / 2 ^ 46"
  "slippage boundaryOrder = 3458764513820541 / 2 ^ 59"
  "swapSlippage boundaryDraws = 5404319552844595 / 2 ^ 53"
proof -
  have v: "fl 75.2 = 5291729562160333 / 2 ^ 46" "fl 0.006 = 3458764513820541 / 2 ^ 59"
    "fl 0.6 = 5404319552844595 / 2 ^ 53"
    by code_simp+
  have i: "fl (5291729562160333 / 2 ^ 46) = 5291729562160333 / 2 ^ 46"
    "fl (3458764513820541 / 2 ^ 59) = 3458764513820541 / 2 ^ 59"
    "fl (5404319552844595 / 2 ^ 53) = 5404319552844595 / 2 ^ 53"
    by code_simp+
  show p: "price boundaryQuote = 5291729562160333 / 2 ^ 46"
    "slippage boundaryOrder = 3458764513820541 / 2 ^ 59"
    "swapSlippage boundaryDraws = 5404319552844595 / 2 ^ 53"
    using v by (simp_all add: boundaryQuote_def boundaryOrder_def boundaryDraws_def)
  show "isDouble (price boundaryQuote)" unfolding p using i(1) by (rule isDoubleI) simp
  show "isDouble (slippage boundaryOrder)" unfolding p using i(2) by (rule isDoubleI) simp
  show "isDouble (swapSlippage boundaryDraws)" unfolding p using i(3) by (rule isDoubleI) simp
qed

lemma boundary_run:
  "0 \<le> swapSlippage boundaryDraws" "swapSlippage boundaryDraws < 1"
  "swapExecutedPrice boundaryQuote (swapSlippage boundaryDraws) = 5259979184787371 / 2 ^ 46"
  "slippage boundaryOrder < deviation boundaryQuote (5259979184787371 / 2 ^ 46)"
  "fl (deviation boundaryQuote (5259979184787371 / 2 ^ 46)) = slippage boundaryOrder"
  "\<not> isSlippageExceeded (executeSwap boundaryDraws boundaryOrder boundaryQuote)"
  "executeSwap boundaryDraws boundaryOrder boundaryQuote
       = Inr \<lparr>res_orderId = ''order-1'', res_txHash = generateMockTxHash (\<lambda>i. 0),
              res_executedPrice = 5259979184787371 / 2 ^ 46,
              res_amountOut = 5244199247233009 / 2 ^ 46, res_dex = RAYDIUM\<rparr>"
proof -
  note e = executeSwap_eval[OF boundary_roundings(1-5)]
  note p = boundary_inputs(4,5,6)
  have x: "\<not> 3458764513820541 / 2 ^ 59 > slippage boundaryOrder" unfolding p by simp
  show "0 \<le> swapSlippage boundaryDraws" "swapSlippage boundaryDraws < 1"
    unfolding p by simp_all
  show "swapExecutedPrice boundaryQuote (swapSlippage boundaryDraws) = 5259979184787371 / 2 ^ 46"
    by (rule e(1))
  show "slippage boundaryOrder < deviation boundaryQuote (5259979184787371 / 2 ^ 46)"
    unfolding deviation_def p by simp
  show "fl (deviation boundaryQuote (5259979184787371 / 2 ^ 46)) = slippage boundaryOrder"
    by code_simp
  show "\<not> isSlippageExceeded (executeSwap boundaryDraws boundaryOrder boundaryQuote)"
    using x by (rule e(3))
  have f: "\<not> swapFailure boundaryDraws < fl 0.05"
    by (simp add: fl_consts(5) boundaryDraws_def midDraws_def)
  have "executeSwap boundaryDraws boundaryOrder boundaryQuote
          = Inr \<lparr>res_orderId = orderId boundaryOrder,
                 res_txHash = generateMockTxHash (hashDraws boundaryDraws),
                 res_executedPrice = 5259979184787371 / 2 ^ 46,
                 res_amountOut = fl (5259979184787371 / 2 ^ 46 * fl (1 - fee boundaryQuote)),
                 res_dex = dex boundaryQuote\<rparr>"
    using x f by (rule e(4))
  then show "executeSwap boundaryDraws boundaryOrder boundaryQuote
       = Inr \<lparr>res_orderId = ''order-1'', res_txHash = generateMockTxHash (\<lambda>i. 0),
              res_executedPrice = 5259979184787371 / 2 ^ 46,
              res_amountOut = 5244199247233009 / 2 ^ 46, res_dex = RAYDIUM\<rparr>"
    unfolding boundary_roundings(6)
    by (simp add: boundaryOrder_def solOrder_def boundaryDraws_def midDraws_def boundaryQuote_def)
qed

theorem executeSwap_slippage_counterexample:
  "isDouble (price boundaryQuote) \<and> isDouble (slippage boundaryOrder)
   \<and> isDouble (swapSlippage boundaryDraws)
   \<and> 0 \<le> swapSlippage boundaryDraws \<and> swapSlippage boundaryDraws < 1
   \<and> swapExecutedPrice boundaryQuote (swapSlippage boundaryDraws) = 5259979184787371 / 2 ^ 46
   \<and> slippage boundaryOrder < deviation boundaryQuote (5259979184787371 / 2 ^ 46)
   \<and> fl (deviation boundaryQuote (5259979184787371 / 2 ^ 46)) = slippage boundaryOrder
   \<and> \<not> isSlippageExceeded (executeSwap boundaryDraws boundaryOrder boundaryQuote)
   \<and> executeSwap boundaryDraws boundaryOrder boundaryQuote
       = Inr \<lparr>res_orderId = ''order-1'', res_txHash = generateMockTxHash (\<lambda>i. 0),
              res_executedPrice = 5259979184787371 / 2 ^ 46,
              res_amountOut = 5244199247233009 / 2 ^ 46, res_dex = RAYDIUM\<rparr>"
  by (intro conjI boundary_inputs(1,2,3) boundary_run)


subsection \<open>Validation\<close>

text \<open>
  C10. validateOrder rejects every order whose tokenIn equals tokenOut and reports
  'tokenIn and tokenOut must be different'.
\<close>

theorem validateOrder_same_token:
  "p_tokenIn order = p_tokenOut order \<Longrightarrow>
     \<not> fst (validateOrder order) \<and>
     ''tokenIn and tokenOut must be different'' \<in> set (snd (validateOrder order))"
  by (simp add: validateOrder_def Let_def)

theorem validateOrder_same_token_witness:
  "p_tokenIn \<lparr>p_type = Some MARKET, p_tokenIn = Some ''SOL'', p_tokenOut = Some ''SOL'',
              p_amountIn = Some 100, p_slippage = None\<rparr>
     = p_tokenOut \<lparr>p_type = Some MARKET, p_tokenIn = Some ''SOL'', p_tokenOut = Some ''SOL'',
                   p_amountIn = Some 100, p_slippage = None\<rparr>
   \<and> validateOrder \<lparr>p_type = Some MARKET, p_tokenIn = Some ''SOL'', p_tokenOut = Some ''SOL'',
                     p_amountIn = Some 100, p_slippage = None\<rparr>
     = (False, [''tokenIn and tokenOut must be different''])"
  using validateOrder_same_token
    [of "\<lparr>p_type = Some MARKET, p_tokenIn = Some ''SOL'', p_tokenOut = Some ''SOL'',
          p_amountIn = Some 100, p_slippage = None\<rparr>"]
  by (simp add: validateOrder_def Let_def validateTokenAddress_def)

subsection \<open>Status bus\<close>

lemma ws_neq: "ws\<lparr>sentMessages := sentMessages ws @ [m]\<rparr> \<noteq> ws"
proof
  assume "ws\<lparr>sentMessages := sentMessages ws @ [m]\<rparr> = ws"
  then have "sentMessages (ws\<lparr>sentMessages := sentMessages ws @ [m]\<rparr>) = sentMessages ws" by simp
  then show False by simp
qed

text \<open>
  C7. sendUpdate hands the update to the socket registered for the order id exactly when
  one is registered and its readyState is OPEN (the socket's sent messages grow by that
  update); otherwise the connections are unchanged, the update is dropped with a warning
  in the log. sendUpdate has no throwing path: it returns the new state. Subscribers of
  other orders are untouched; register makes the socket the one registered for the id,
  and the close handler removes it.
\<close>

theorem sendUpdate_delivery:
  "(delivered w (sendUpdate update w) update \<longleftrightarrow> registeredOpen w (upd_orderId update))
   \<and> (\<not> registeredOpen w (upd_orderId update) \<longrightarrow>
        connections (sendUpdate update w) = connections w \<and>
        logs (sendUpdate update w) = logs w @ [(LogWarn, ''WebSocket not open, skipping update'')])
   \<and> (registeredOpen w (upd_orderId update) \<longrightarrow> logs (sendUpdate update w) = logs w)
   \<and> (\<forall>other. other \<noteq> upd_orderId update \<longrightarrow>
        connections (sendUpdate update w) other = connections w other)
   \<and> connections (register oid ws w) oid = Some ws
   \<and> registeredOpen (register oid ws w) oid = (readyState ws = 1)
   \<and> \<not> registeredOpen (onClose oid w) oid"
proof -
  have neq: "\<And>x m. x \<noteq> x\<lparr>sentMessages := sentMessages x @ [m]\<rparr>" using ws_neq by metis
  show ?thesis
    by (auto simp add: sendUpdate_def delivered_def registeredOpen_def logger_def ws_send_def
        register_def onClose_def neq split: option.splits)
qed

theorem sendUpdate_delivery_witness:
  "registeredOpen (register ''order-1'' openSocket emptyWorld) ''order-1''
   \<and> delivered (register ''order-1'' openSocket emptyWorld)
        (sendUpdate confirmedUpdate (register ''order-1'' openSocket emptyWorld)) confirmedUpdate
   \<and> connections (sendUpdate confirmedUpdate (register ''order-1'' openSocket emptyWorld)) ''order-1''
       = Some \<lparr>readyState = 1, sentMessages = [StatusMessage confirmedUpdate]\<rparr>
   \<and> ''order-2'' \<noteq> upd_orderId confirmedUpdate
   \<and> connections (sendUpdate confirmedUpdate (register ''order-1'' openSocket emptyWorld)) ''order-2''
       = connections (register ''order-1'' openSocket emptyWorld) ''order-2''
   \<and> \<not> registeredOpen (register ''order-1'' (ws_close openSocket) emptyWorld) ''order-1''
   \<and> \<not> delivered (register ''order-1'' (ws_close openSocket) emptyWorld)
        (sendUpdate confirmedUpdate (register ''order-1'' (ws_close openSocket) emptyWorld)) confirmedUpdate
   \<and> \<not> registeredOpen emptyWorld ''order-1''
   \<and> \<not> delivered emptyWorld (sendUpdate confirmedUpdate emptyWorld) confirmedUpdate
   \<and> logs (sendUpdate confirmedUpdate emptyWorld)
       = [(LogWarn, ''WebSocket not open, skipping update'')]"
proof -
  have id: "upd_orderId confirmedUpdate = ''order-1''"
    by code_simp
  have o: "registeredOpen (register ''order-1'' openSocket emptyWorld) (upd_orderId confirmedUpdate)"
    by code_simp
  have c: "\<not> registeredOpen (register ''order-1'' (ws_close openSocket) emptyWorld)
               (upd_orderId confirmedUpdate)"
    by code_simp
  have n: "\<not> registeredOpen emptyWorld (upd_orderId confirmedUpdate)"
    by code_simp
  have s: "connections (sendUpdate confirmedUpdate (register ''order-1'' openSocket emptyWorld)) ''order-1''
       = Some \<lparr>readyState = 1, sentMessages = [StatusMessage confirmedUpdate]\<rparr>"
    by code_simp
  have l: "logs emptyWorld = []"
    by code_simp
  have x: "''order-2'' \<noteq> upd_orderId confirmedUpdate"
    by code_simp
  have d1: "delivered (register ''order-1'' openSocket emptyWorld)
        (sendUpdate confirmedUpdate (register ''order-1'' openSocket emptyWorld)) confirmedUpdate"
    using o sendUpdate_delivery [of "register ''order-1'' openSocket emptyWorld" confirmedUpdate]
    by blast
  have d0: "connections (sendUpdate confirmedUpdate (register ''order-1'' openSocket emptyWorld)) ''order-2''
       = connections (register ''order-1'' openSocket emptyWorld) ''order-2''"
    using x sendUpdate_delivery [of "register ''order-1'' openSocket emptyWorld" confirmedUpdate]
    by blast
  have d2: "\<not> delivered (register ''order-1'' (ws_close openSocket) emptyWorld)
        (sendUpdate confirmedUpdate (register ''order-1'' (ws_close openSocket) emptyWorld)) confirmedUpdate"
    using c sendUpdate_delivery [of "register ''order-1'' (ws_close openSocket) emptyWorld" confirmedUpdate]
    by blast
  have d3: "\<not> delivered emptyWorld (sendUpdate confirmedUpdate emptyWorld) confirmedUpdate
            \<and> logs (sendUpdate confirmedUpdate emptyWorld)
                 = logs emptyWorld @ [(LogWarn, ''WebSocket not open, skipping update'')]"
    using n sendUpdate_delivery [of emptyWorld confirmedUpdate]
    by blast
  show ?thesis
    using o c n s x d0 d1 d2 d3 unfolding id l by simp
qed


subsection \<open>Validation at the boundary\<close>

text \<open>
  C8. validateOrder reports an order invalid, with the field's own error, when amountIn is
  absent or not above 0, when slippage is outside [0, 0.5], and when tokenIn or tokenOut
  is empty or longer than 44 characters. A request body with such a field is rejected by
  the route (the socket gets the error and is closed, the state is unchanged); the route
  admits an order only after the schema and validateOrder accept it, and a rejection
  leaves the queue and the published updates as they were.
\<close>

theorem validateOrder_rejects_malformed:
  "((case p_amountIn order of None \<Rightarrow> True | Some a \<Rightarrow> a \<le> 0) \<longrightarrow>
       \<not> fst (validateOrder order) \<and>
       ''amountIn must be greater than 0'' \<in> set (snd (validateOrder order)))
   \<and> ((case p_slippage order of None \<Rightarrow> False | Some s \<Rightarrow> s < 0 \<or> s > 0.5) \<longrightarrow>
       \<not> fst (validateOrder order) \<and>
       ''Slippage must be between 0 and 0.5 (0-50%)'' \<in> set (snd (validateOrder order)))
   \<and> ((case p_tokenIn order of None \<Rightarrow> False | Some t \<Rightarrow> t = [] \<or> length t > 44) \<longrightarrow>
       \<not> fst (validateOrder order) \<and>
       ''Invalid tokenIn address'' \<in> set (snd (validateOrder order)))
   \<and> ((case p_tokenOut order of None \<Rightarrow> False | Some t \<Rightarrow> t = [] \<or> length t > 44) \<longrightarrow>
       \<not> fst (validateOrder order) \<and>
       ''Invalid tokenOut address'' \<in> set (snd (validateOrder order)))
   \<and> (malformedBody body \<longrightarrow>
        executeRoute env uuid socket body w
          = (Rejected (ws_close (socketSend socket ValidationFailed)), w))
   \<and> (\<forall>oid w'. executeRoute env uuid socket body w = (Admitted oid, w') \<longrightarrow>
        (\<exists>d. createOrderSchema body = Some d \<and> fst (validateOrder (asPartial d))))
   \<and> (\<forall>s w'. executeRoute env uuid socket body w = (Rejected s, w') \<longrightarrow>
        jobs w' = jobs w \<and> waiting w' = waiting w \<and> published w' = published w)"
proof (intro conjI)
  show "malformedBody body \<longrightarrow>
        executeRoute env uuid socket body w
          = (Rejected (ws_close (socketSend socket ValidationFailed)), w)"
    by (auto simp add: malformedBody_def executeRoute_def createOrderSchema_def
        split: field.splits)
next
  show "\<forall>oid w'. executeRoute env uuid socket body w = (Admitted oid, w') \<longrightarrow>
        (\<exists>d. createOrderSchema body = Some d \<and> fst (validateOrder (asPartial d)))"
    by (auto simp add: executeRoute_def Let_def split: option.splits if_splits prod.splits sum.splits)
next
  show "\<forall>s w'. executeRoute env uuid socket body w = (Rejected s, w') \<longrightarrow>
        jobs w' = jobs w \<and> waiting w' = waiting w \<and> published w' = published w"
    by (auto simp add: executeRoute_def Let_def om_create_def db_query_def logger_def
        split: option.splits if_splits prod.splits sum.splits)
qed (auto simp add: validateOrder_def Let_def validateTokenAddress_def validateSlippage_def
      split: option.splits)

lemma badOrder_rejected:
  "validateOrder badOrder =
     (False, [''Invalid tokenIn address'', ''Invalid tokenOut address'',
              ''amountIn must be greater than 0'', ''Slippage must be between 0 and 0.5 (0-50%)''])"
  by code_simp

lemma solBody_admitted:
  "fst (executeRoute healthyEnv ''order-1'' openSocket solBody emptyWorld) = Admitted ''order-1''
   \<and> waiting (snd (executeRoute healthyEnv ''order-1'' openSocket solBody emptyWorld)) = [''order-1'']"
  by code_simp

theorem validateOrder_rejects_malformed_witness:
  "(case p_amountIn badOrder of None \<Rightarrow> True | Some a \<Rightarrow> a \<le> 0)
   \<and> (case p_slippage badOrder of None \<Rightarrow> False | Some s \<Rightarrow> s < 0 \<or> s > 0.5)
   \<and> (case p_tokenIn badOrder of None \<Rightarrow> False | Some t \<Rightarrow> t = [] \<or> length t > 44)
   \<and> (case p_tokenOut badOrder of None \<Rightarrow> False | Some t \<Rightarrow> t = [] \<or> length t > 44)
   \<and> \<not> fst (validateOrder badOrder)
   \<and> set (snd (validateOrder badOrder))
       = {''Invalid tokenIn address'', ''Invalid tokenOut address'',
          ''amountIn must be greater than 0'', ''Slippage must be between 0 and 0.5 (0-50%)''}
   \<and> malformedBody zeroAmountBody
   \<and> executeRoute healthyEnv ''order-1'' openSocket zeroAmountBody emptyWorld
       = (Rejected \<lparr>readyState = 3, sentMessages = [ValidationFailed]\<rparr>, emptyWorld)
   \<and> jobs emptyWorld ''order-1'' = None
   \<and> fst (executeRoute healthyEnv ''order-1'' openSocket solBody emptyWorld) = Admitted ''order-1''
   \<and> waiting (snd (executeRoute healthyEnv ''order-1'' openSocket solBody emptyWorld)) = [''order-1'']
   \<and> (\<exists>d. createOrderSchema solBody = Some d \<and> fst (validateOrder (asPartial d)))"
proof -
  note T = validateOrder_rejects_malformed
        [of badOrder zeroAmountBody healthyEnv "''order-1''" openSocket emptyWorld]
  have h1: "case p_amountIn badOrder of None \<Rightarrow> True | Some a \<Rightarrow> a \<le> 0"
    by (simp add: badOrder_def)
  have h2: "case p_slippage badOrder of None \<Rightarrow> False | Some s \<Rightarrow> s < 0 \<or> s > 0.5"
    by (simp add: badOrder_def)
  have h3: "case p_tokenIn badOrder of None \<Rightarrow> False | Some t \<Rightarrow> t = [] \<or> length t > 44"
    by (simp add: badOrder_def)
  have h4: "case p_tokenOut badOrder of None \<Rightarrow> False | Some t \<Rightarrow> t = [] \<or> length t > 44"
    by (simp add: badOrder_def)
  have v: "\<not> fst (validateOrder badOrder)"
    using h1 T by blast
  have e: "set (snd (validateOrder badOrder))
       = {''Invalid tokenIn address'', ''Invalid tokenOut address'',
          ''amountIn must be greater than 0'', ''Slippage must be between 0 and 0.5 (0-50%)''}"
    by (simp add: badOrder_rejected)
  have m: "malformedBody zeroAmountBody"
    by code_simp
  have r: "ws_close (socketSend openSocket ValidationFailed)
             = \<lparr>readyState = 3, sentMessages = [ValidationFailed]\<rparr>"
    by code_simp
  have j: "jobs emptyWorld ''order-1'' = None"
    by (simp add: emptyWorld_def)
  obtain w' where a: "executeRoute healthyEnv ''order-1'' openSocket solBody emptyWorld
                        = (Admitted ''order-1'', w')"
    using solBody_admitted by (metis prod.collapse)
  have rej: "executeRoute healthyEnv ''order-1'' openSocket zeroAmountBody emptyWorld
              = (Rejected (ws_close (socketSend openSocket ValidationFailed)), emptyWorld)"
    using m T by blast
  have adm: "\<exists>d. createOrderSchema solBody = Some d \<and> fst (validateOrder (asPartial d))"
    using a validateOrder_rejects_malformed
        [of badOrder solBody healthyEnv "''order-1''" openSocket emptyWorld]
    by blast
  show ?thesis
    using h1 h2 h3 h4 v e m j rej adm solBody_admitted unfolding r by blast
qed


subsection \<open>What the pipeline publishes\<close>

lemma published_logger [simp]: "published (logger lvl msg w) = published w"
  by (simp add: logger_def)

lemma published_applyQuery [simp]: "published (applyQuery q w) = published w"
  by (cases q) (auto split: option.splits)

lemma published_db_query [simp]: "published (snd (db_query env q w)) = published w"
  by (simp add: db_query_def Let_def split: option.splits)

lemma published_logEvent [simp]: "published (snd (logEvent env oid st d w)) = published w"
proof -
  obtain r w1 where q: "db_query env (InsertEvent oid st d) w = (r, w1)" by (cases "db_query env (InsertEvent oid st d) w")
  then have "published w1 = published w" using published_db_query[of env "InsertEvent oid st d" w] by simp
  then show ?thesis by (simp add: logEvent_def q split: sum.splits)
qed

lemma logEvent_ok [simp]: "fst (logEvent env oid st d w) = Inr ()"
  by (simp add: logEvent_def split: prod.splits sum.splits)

lemma published_incrementRetryCount [simp]:
  "published (snd (incrementRetryCount env oid w)) = published w"
proof -
  obtain r w1 where q: "db_query env (IncrementRetry oid) w = (r, w1)" by (cases "db_query env (IncrementRetry oid) w")
  then have "published w1 = published w" using published_db_query[of env "IncrementRetry oid" w] by simp
  then show ?thesis by (simp add: incrementRetryCount_def q split: sum.splits)
qed

lemma published_om_updateStatus [simp]:
  "published (snd (om_updateStatus env u w)) = published w"
proof -
  obtain r w1 where q: "db_query env (updateQuery u) w = (r, w1)" by (cases "db_query env (updateQuery u) w")
  then have p1: "published w1 = published w" using published_db_query[of env "updateQuery u" w] by simp
  obtain r2 w2 where l: "logEvent env (upd_orderId u) (upd_status u) (upd_data u) w1 = (r2, w2)"
    by (cases "logEvent env (upd_orderId u) (upd_status u) (upd_data u) w1")
  then have p2: "published w2 = published w1" using published_logEvent[of env "upd_orderId u" "upd_status u" "upd_data u" w1] by simp
  show ?thesis using p1 p2 by (cases r; cases r2) (simp_all add: om_updateStatus_def bindE_def q l)
qed

lemma published_saveQuotesLoop [simp]:
  "published (snd (saveQuotesLoop env oid qs w)) = published w"
proof (induction qs arbitrary: w)
  case Nil
  then show ?case by simp
next
  case (Cons q qs)
  obtain r w1 where d: "db_query env (InsertQuote oid q) w = (r, w1)" by (cases "db_query env (InsertQuote oid q) w")
  then have p1: "published w1 = published w" using published_db_query[of env "InsertQuote oid q" w] by simp
  show ?case using p1 Cons.IH[of w1] by (cases r) (simp_all add: bindE_def d)
qed

lemma published_saveQuotes [simp]: "published (snd (saveQuotes env oid qs w)) = published w"
proof -
  obtain r w1 where q: "saveQuotesLoop env oid qs w = (r, w1)" by (cases "saveQuotesLoop env oid qs w")
  then have "published w1 = published w" using published_saveQuotesLoop[of env oid qs w] by simp
  then show ?thesis by (cases r) (simp_all add: saveQuotes_def q)
qed

lemma saveQuotes_ok [simp]: "fst (saveQuotes env oid qs w) = Inr ()"
  by (simp add: saveQuotes_def split: prod.splits sum.splits)

lemma published_sendUpdate [simp]: "published (sendUpdate u w) = published w"
  by (simp add: sendUpdate_def ws_send_def split: option.splits)

lemma updateStatus_cases:
  "(fst (updateStatus env oid st d w) = Inr () \<and>
      published (snd (updateStatus env oid st d w))
        = published w @ [\<lparr>upd_orderId = oid, upd_status = st, upd_data = d\<rparr>])
   \<or> ((\<exists>e. fst (updateStatus env oid st d w) = Inl e) \<and>
      published (snd (updateStatus env oid st d w)) = published w)"
proof -
  let ?u = "\<lparr>upd_orderId = oid, upd_status = st, upd_data = d\<rparr>"
  obtain r w1 where q: "om_updateStatus env ?u w = (r, w1)" by (cases "om_updateStatus env ?u w")
  then have p1: "published w1 = published w" using published_om_updateStatus[of env ?u w] by simp
  show ?thesis using p1 by (cases r) (simp_all add: updateStatus_def bindE_def q Let_def)
qed

lemma emitsE_updateStatus: "emitsE (updateStatus env oid st d) oid [st] []"
  unfolding emitsE_def
proof
  fix w
  from updateStatus_cases[of env oid st d w]
  show "\<exists>us. published (snd (updateStatus env oid st d w)) = published w @ us \<and>
            (\<forall>u\<in>set us. upd_orderId u = oid) \<and>
            (case fst (updateStatus env oid st d w) of
               Inr x \<Rightarrow> map upd_status us = [st]
             | Inl e \<Rightarrow> (\<exists>rest. [] = map upd_status us @ rest))"
    by (elim disjE conjE exE) auto
qed

lemma emitsE_silent:
  "(\<And>w. published (snd (m w)) = published w) \<Longrightarrow> emitsE m oid [] []"
  unfolding emitsE_def by (auto split: sum.splits)

lemma emitsE_bind:
  assumes m: "emitsE m oid s1 []" and f: "\<And>x. emitsE (f x) oid s2 e2"
  shows "emitsE (\<lambda>w. bindE (m w) f) oid (s1 @ s2) (s1 @ e2)"
  unfolding emitsE_def
proof
  fix w
  obtain r w1 where mw: "m w = (r, w1)" by (cases "m w")
  from m[unfolded emitsE_def, rule_format, of w] mw
  obtain us where us: "published w1 = published w @ us" "\<forall>u\<in>set us. upd_orderId u = oid"
      "case r of Inr x \<Rightarrow> map upd_status us = s1 | Inl e \<Rightarrow> (\<exists>rest. [] = map upd_status us @ rest)"
    by auto
  show "\<exists>us. published (snd (bindE (m w) f)) = published w @ us \<and>
            (\<forall>u\<in>set us. upd_orderId u = oid) \<and>
            (case fst (bindE (m w) f) of
               Inr x \<Rightarrow> map upd_status us = s1 @ s2
             | Inl e \<Rightarrow> (\<exists>rest. s1 @ e2 = map upd_status us @ rest))"
  proof (cases r)
    case (Inl e)
    then show ?thesis using us by (auto simp add: bindE_def mw)
  next
    case (Inr x)
    from f[of x, unfolded emitsE_def, rule_format, of w1]
    obtain vs where vs: "published (snd (f x w1)) = published w1 @ vs" "\<forall>u\<in>set vs. upd_orderId u = oid"
      "case fst (f x w1) of Inr y \<Rightarrow> map upd_status vs = s2 | Inl e \<Rightarrow> (\<exists>rest. e2 = map upd_status vs @ rest)"
      by auto
    show ?thesis
      using us vs Inr
      by (intro exI[of _ "us @ vs"]) (auto simp add: bindE_def mw split: sum.splits)
  qed
qed

lemma emitsE_body:
  "emitsE (executeOrderBody env dr order) (orderId order)
     [PENDING, ROUTING, ROUTING, BUILDING, SUBMITTED, CONFIRMED]
     [PENDING, ROUTING, ROUTING, BUILDING, SUBMITTED]"
proof -
  have "emitsE (executeOrderBody env dr order) (orderId order)
     ([PENDING] @ [ROUTING] @ [] @ [] @ [ROUTING] @ [BUILDING] @ [SUBMITTED] @ [] @ [CONFIRMED])
     ([PENDING] @ [ROUTING] @ [] @ [] @ [ROUTING] @ [BUILDING] @ [SUBMITTED] @ [] @ [])"
    unfolding executeOrderBody_def Let_def
    by (intro emitsE_bind emitsE_updateStatus emitsE_silent) simp_all
  then show ?thesis by simp
qed


lemma terminals_append [simp]: "terminals (xs @ ys) = terminals xs + terminals ys"
  by (simp add: terminals_def)

lemma terminals_Nil [simp]: "terminals [] = 0"
  by (simp add: terminals_def)

lemma terminals_by_status:
  "terminals us = length (filter isTerminal (map upd_status us))"
  by (simp add: terminals_def filter_map comp_def)

lemma no_terminal_in_front:
  assumes "[PENDING, ROUTING, ROUTING, BUILDING, SUBMITTED] = map upd_status us @ rest"
  shows "terminals us = 0 \<and> CONFIRMED \<notin> set (map upd_status us)"
proof -
  have "set (map upd_status us) \<subseteq> set [PENDING, ROUTING, ROUTING, BUILDING, SUBMITTED]"
    using assms by (metis set_append sup_ge1)
  then have sub: "set (map upd_status us) \<subseteq> {PENDING, ROUTING, BUILDING, SUBMITTED}" by auto
  then have "\<forall>st\<in>set (map upd_status us). \<not> isTerminal st" by (auto simp add: isTerminal_def)
  then have "filter isTerminal (map upd_status us) = []" by (simp add: filter_empty_conv)
  then show ?thesis using sub by (auto simp add: terminals_by_status)
qed

lemma handleFailure_pub:
  "\<exists>us. published (snd (handleFailure env order err fin w)) = published w @ us \<and>
        (\<forall>u\<in>set us. upd_orderId u = orderId order) \<and>
        (us = [] \<or> (fst (handleFailure env order err fin w) = Inr () \<and> map upd_status us = [FAILED]))"
proof (cases "\<not> fin \<and> int (case retryCount order of None \<Rightarrow> 0 | Some n \<Rightarrow> n) < retryMaxAttempts env - 1")
  case True
  then have "handleFailure env order err fin w
      = incrementRetryCount env (orderId order) (logger LogError ''Order execution failed'' w)"
    by (simp add: handleFailure_def Let_def)
  then show ?thesis by simp
next
  case False
  let ?d = "Some (noData\<lparr>error := Some ((if message err = [] then ''Unknown error'' else message err) @
               '' (after '' @ showInt (retryMaxAttempts env) @ '' attempts)'')\<rparr>)"
  let ?w1 = "logger LogError ''Order execution failed'' w"
  from False have h: "handleFailure env order err fin w = updateStatus env (orderId order) FAILED ?d ?w1"
    by (auto simp add: handleFailure_def Let_def)
  from updateStatus_cases[of env "orderId order" FAILED ?d ?w1]
  show ?thesis unfolding h by (elim disjE conjE exE) auto
qed

lemma executeOrder_pub:
  "\<exists>us. published (snd (executeOrder env dr order w)) = published w @ us \<and>
        (\<forall>u\<in>set us. upd_orderId u = orderId order) \<and>
        terminals us \<le> 1 \<and>
        ((\<exists>e. fst (executeOrder env dr order w) = Inl e) \<longrightarrow> terminals us = 0) \<and>
        (CONFIRMED \<in> set (map upd_status us) \<longrightarrow>
           map upd_status us = [PENDING, ROUTING, ROUTING, BUILDING, SUBMITTED, CONFIRMED] \<and>
           fst (executeOrder env dr order w) = Inr ())"
proof -
  obtain r w1 where b: "executeOrderBody env dr order w = (r, w1)"
    by (cases "executeOrderBody env dr order w")
  from emitsE_body[of env dr order, unfolded emitsE_def, rule_format, of w] b
  obtain us where us: "published w1 = published w @ us" "\<forall>u\<in>set us. upd_orderId u = orderId order"
    "case r of Inr x \<Rightarrow> map upd_status us = [PENDING, ROUTING, ROUTING, BUILDING, SUBMITTED, CONFIRMED]
      | Inl e \<Rightarrow> (\<exists>rest. [PENDING, ROUTING, ROUTING, BUILDING, SUBMITTED] = map upd_status us @ rest)"
    by auto
  show ?thesis
  proof (cases r)
    case (Inr x)
    then have st: "map upd_status us = [PENDING, ROUTING, ROUTING, BUILDING, SUBMITTED, CONFIRMED]"
      using us by simp
    then have "terminals us = 1" by (simp add: terminals_by_status isTerminal_def)
    then show ?thesis using us st Inr
      by (intro exI[of _ us]) (simp add: executeOrder_def b)
  next
    case (Inl e)
    then obtain rest where "[PENDING, ROUTING, ROUTING, BUILDING, SUBMITTED] = map upd_status us @ rest"
      using us by auto
    then have nt: "terminals us = 0" "CONFIRMED \<notin> set (map upd_status us)"
      using no_terminal_in_front by auto
    have ex: "executeOrder env dr order w = handleFailure env order e False w1"
      by (simp add: executeOrder_def b Inl)
    from handleFailure_pub[of env order e False w1]
    obtain vs where vs: "published (snd (handleFailure env order e False w1)) = published w1 @ vs"
      "\<forall>u\<in>set vs. upd_orderId u = orderId order"
      "vs = [] \<or> (fst (handleFailure env order e False w1) = Inr () \<and> map upd_status vs = [FAILED])"
      by auto
    from vs(3) show ?thesis
    proof
      assume "vs = []"
      then show ?thesis using us vs nt unfolding ex by (intro exI[of _ us]) simp
    next
      assume f: "fst (handleFailure env order e False w1) = Inr () \<and> map upd_status vs = [FAILED]"
      then have "terminals vs = 1" by (simp add: terminals_by_status isTerminal_def)
      then show ?thesis using us vs nt f unfolding ex by (intro exI[of _ "us @ vs"]) auto
    qed
  qed
qed

lemma processOrder_pub:
  "\<exists>us. published (snd (processOrder env job w)) = published w @ us \<and>
        (\<forall>u\<in>set us. upd_orderId u = orderId (job_data job)) \<and>
        terminals us \<le> 1 \<and>
        ((\<exists>e. fst (processOrder env job w) = Inl e) \<and> int (attemptsMade job) < retryMaxAttempts env - 1
           \<longrightarrow> terminals us = 0)"
proof -
  let ?o = "job_data job"
  let ?dr = "draws env (orderId ?o) (attemptsMade job)"
  obtain r w1 where x: "executeOrder env ?dr ?o w = (r, w1)" by (cases "executeOrder env ?dr ?o w")
  from executeOrder_pub[of env ?dr ?o w] x
  obtain us where us: "published w1 = published w @ us" "\<forall>u\<in>set us. upd_orderId u = orderId ?o"
    "terminals us \<le> 1" "(\<exists>e. r = Inl e) \<longrightarrow> terminals us = 0"
    by auto
  show ?thesis
  proof (cases r)
    case (Inr u)
    then show ?thesis using us by (intro exI[of _ us]) (simp add: processOrder_def Let_def x)
  next
    case (Inl e)
    then have nt: "terminals us = 0" using us by simp
    let ?w2 = "logger LogError ''Order execution failed in queue'' w1"
    show ?thesis
    proof (cases "int (attemptsMade job) \<ge> retryMaxAttempts env - 1")
      case False
      then show ?thesis using us nt Inl
        by (intro exI[of _ us]) (simp add: processOrder_def Let_def x)
    next
      case True
      from handleFailure_pub[of env ?o e True ?w2]
      obtain vs where vs: "published (snd (handleFailure env ?o e True ?w2)) = published ?w2 @ vs"
        "\<forall>u\<in>set vs. upd_orderId u = orderId ?o"
        "vs = [] \<or> (fst (handleFailure env ?o e True ?w2) = Inr () \<and> map upd_status vs = [FAILED])"
        by auto
      have tv: "terminals vs \<le> 1" using vs(3) by (auto simp add: terminals_by_status isTerminal_def)
      obtain r3 w3 where hf: "handleFailure env ?o e True ?w2 = (r3, w3)"
        by (cases "handleFailure env ?o e True ?w2")
      have po: "snd (processOrder env job w) = w3"
        using True Inl by (cases r3) (simp_all add: processOrder_def Let_def x hf)
      show ?thesis using us vs nt tv True unfolding po
        by (intro exI[of _ "us @ vs"]) (auto simp add: hf)
    qed
  qed
qed

lemma runJob_pub:
  "\<exists>us. published (snd (runJob env job w)) = published w @ us \<and>
        (\<forall>u\<in>set us. upd_orderId u = orderId (job_data job)) \<and>
        terminals us \<le> 1"
proof (induction env job w rule: runJob.induct)
  case (1 env job w)
  let ?job1 = "job\<lparr>attemptsStarted := Suc (attemptsStarted job), job_state := Active\<rparr>"
  let ?r = "processOrder env ?job1 w"
  from processOrder_pub[of env ?job1 w]
  obtain us where us: "published (snd ?r) = published w @ us"
    "\<forall>u\<in>set us. upd_orderId u = orderId (job_data job)"
    "terminals us \<le> 1"
    "(\<exists>e. fst ?r = Inl e) \<and> int (attemptsMade job) < retryMaxAttempts env - 1 \<longrightarrow> terminals us = 0"
    by auto
  show ?case
  proof (cases "fst ?r")
    case (Inr u)
    then show ?thesis using us
      by (subst runJob.simps) (auto simp add: Let_def intro!: exI[of _ us])
  next
    case (Inl e)
    show ?thesis
    proof (cases "int (Suc (attemptsMade job)) < retryMaxAttempts env")
      case False
      then show ?thesis using us Inl
        by (subst runJob.simps) (auto simp add: Let_def intro!: exI[of _ us])
    next
      case True
      let ?job2 = "?job1\<lparr>attemptsMade := Suc (attemptsMade job), job_state := Delayed\<rparr>"
      from "1.IH"[OF refl refl Inl True]
      obtain vs where vs: "published (snd (runJob env ?job2 (snd ?r))) = published (snd ?r) @ vs"
        "\<forall>u\<in>set vs. upd_orderId u = orderId (job_data job)" "terminals vs \<le> 1"
        by auto
      have nt: "terminals us = 0" using us(4) Inl True by auto
      have rj: "runJob env job w = runJob env ?job2 (snd ?r)"
        using Inl True by (subst runJob.simps) (simp add: Let_def)
      show ?thesis unfolding rj using us vs nt
        by (intro exI[of _ "us @ vs"]) auto
    qed
  qed
qed

subsection \<open>Store faults on the audit inserts\<close>

lemma sameOutcome_refl [simp]: "sameOutcome w w"
  by (simp add: sameOutcome_def)

lemma sameOutcome_logger_left [simp]: "sameOutcome (logger lvl msg w) v = sameOutcome w v"
  by (simp add: sameOutcome_def logger_def)

lemma sameOutcome_logger_right [simp]: "sameOutcome w (logger lvl msg v) = sameOutcome w v"
  by (simp add: sameOutcome_def logger_def)

lemma sameOutcome_count_left [simp]: "sameOutcome (w\<lparr>queryCount := n\<rparr>) v = sameOutcome w v"
  by (simp add: sameOutcome_def)

lemma sameOutcome_count_right [simp]: "sameOutcome w (v\<lparr>queryCount := n\<rparr>) = sameOutcome w v"
  by (simp add: sameOutcome_def)

lemma sameOutcome_applyQuery:
  "sameOutcome w v \<Longrightarrow> sameOutcome (applyQuery q w) (applyQuery q v)"
  by (cases q) (auto simp add: sameOutcome_def split: option.splits)

lemma sameOutcome_insertEvent_left [simp]:
  "sameOutcome (snd (db_query env (InsertEvent oid st d) w)) v = sameOutcome w v"
  by (simp add: db_query_def Let_def sameOutcome_def logger_def split: option.splits)

lemma sameOutcome_insertQuote_left [simp]:
  "sameOutcome (snd (db_query env (InsertQuote oid q) w)) v = sameOutcome w v"
  by (simp add: db_query_def Let_def sameOutcome_def logger_def split: option.splits)

lemma sameOutcome_sym: "sameOutcome w v = sameOutcome v w"
  by (auto simp add: sameOutcome_def)

lemma sameOutcome_logEvent_left [simp]:
  "sameOutcome (snd (logEvent env oid st d w)) v = sameOutcome w v"
proof -
  obtain r w1 where q: "db_query env (InsertEvent oid st d) w = (r, w1)"
    by (cases "db_query env (InsertEvent oid st d) w")
  then have "sameOutcome w1 v = sameOutcome w v"
    using sameOutcome_insertEvent_left[of env oid st d w v] by simp
  then show ?thesis by (cases r) (simp_all add: logEvent_def q)
qed

lemma sameOutcome_saveQuotesLoop_left [simp]:
  "sameOutcome (snd (saveQuotesLoop env oid qs w)) v = sameOutcome w v"
proof (induction qs arbitrary: w)
  case Nil
  then show ?case by simp
next
  case (Cons q qs)
  obtain r w1 where d: "db_query env (InsertQuote oid q) w = (r, w1)"
    by (cases "db_query env (InsertQuote oid q) w")
  then have p1: "sameOutcome w1 v = sameOutcome w v"
    using sameOutcome_insertQuote_left[of env oid q w v] by simp
  show ?case using p1 Cons.IH[of w1] by (cases r) (simp_all add: bindE_def d)
qed

lemma sameOutcome_saveQuotes_left [simp]:
  "sameOutcome (snd (saveQuotes env oid qs w)) v = sameOutcome w v"
proof -
  obtain r w1 where q: "saveQuotesLoop env oid qs w = (r, w1)" by (cases "saveQuotesLoop env oid qs w")
  then have "sameOutcome w1 v = sameOutcome w v"
    using sameOutcome_saveQuotesLoop_left[of env oid qs w v] by simp
  then show ?thesis by (cases r) (simp_all add: saveQuotes_def q)
qed

lemma agree_silent:
  assumes "\<And>w. fst (m w) = Inr x" "\<And>w. fst (m' w) = Inr x"
    "\<And>w v. sameOutcome (snd (m w)) v = sameOutcome w v"
    "\<And>w v. sameOutcome (snd (m' w)) v = sameOutcome w v"
  shows "agree m m'"
  unfolding agree_def using assms by (metis sameOutcome_sym)

lemma agree_pure: "agree (\<lambda>w. (r, w)) (\<lambda>w. (r, w))"
  by (simp add: agree_def)

lemma agree_bind:
  assumes "agree m m'" and "\<And>x. agree (f x) (f' x)"
  shows "agree (\<lambda>w. bindE (m w) f) (\<lambda>w. bindE (m' w) f')"
  unfolding agree_def
proof (intro allI impI)
  fix w v
  assume s: "sameOutcome w v"
  obtain r w1 where mw: "m w = (r, w1)" by (cases "m w")
  obtain r' v1 where mv: "m' v = (r', v1)" by (cases "m' v")
  from assms(1)[unfolded agree_def, rule_format, OF s] mw mv
  have rr: "r' = r" and s1: "sameOutcome w1 v1" by auto
  show "fst (bindE (m w) f) = fst (bindE (m' v) f') \<and>
        sameOutcome (snd (bindE (m w) f)) (snd (bindE (m' v) f'))"
  proof (cases r)
    case (Inl e)
    then show ?thesis using rr s1 by (simp add: bindE_def mw mv)
  next
    case (Inr x)
    then show ?thesis using rr assms(2)[of x, unfolded agree_def, rule_format, OF s1]
      by (simp add: bindE_def mw mv)
  qed
qed

lemma faults_none:
  assumes "insertFaultsOnly env"
    and "\<not> (case q of InsertEvent oid st d \<Rightarrow> True | InsertQuote oid dq \<Rightarrow> True | _ \<Rightarrow> False)"
  shows "dbFails env n q = None"
  using assms unfolding insertFaultsOnly_def by blast

lemma updateQuery_not_insert:
  "insertFaultsOnly env \<Longrightarrow> dbFails env n (updateQuery u) = None"
  by (cases "upd_data u") (simp_all add: updateQuery_def faults_none)

lemma increment_not_insert:
  "insertFaultsOnly env \<Longrightarrow> dbFails env n (IncrementRetry oid) = None"
  by (simp add: faults_none)

lemma db_query_ok:
  "dbFails env (queryCount w) q = None \<Longrightarrow>
     db_query env q w = (Inr (), applyQuery q (w\<lparr>queryCount := Suc (queryCount w)\<rparr>))"
  by (simp add: db_query_def Let_def)

lemma agree_db_update:
  assumes "insertFaultsOnly env" "insertFaultsOnly env'"
  shows "agree (db_query env (updateQuery u)) (db_query env' (updateQuery u))"
  unfolding agree_def
proof (intro allI impI)
  fix w v assume s: "sameOutcome w v"
  have "sameOutcome (applyQuery (updateQuery u) (w\<lparr>queryCount := Suc (queryCount w)\<rparr>))
          (applyQuery (updateQuery u) (v\<lparr>queryCount := Suc (queryCount v)\<rparr>))"
    using s by (intro sameOutcome_applyQuery) simp
  then show "fst (db_query env (updateQuery u) w) = fst (db_query env' (updateQuery u) v) \<and>
        sameOutcome (snd (db_query env (updateQuery u) w)) (snd (db_query env' (updateQuery u) v))"
    using assms by (simp only: db_query_ok updateQuery_not_insert fst_conv snd_conv simp_thms)
qed

lemma agree_incrementRetryCount:
  assumes "insertFaultsOnly env" "insertFaultsOnly env'"
  shows "agree (incrementRetryCount env oid) (incrementRetryCount env' oid)"
  unfolding agree_def
proof (intro allI impI)
  fix w v assume s: "sameOutcome w v"
  have "sameOutcome (applyQuery (IncrementRetry oid) (w\<lparr>queryCount := Suc (queryCount w)\<rparr>))
          (applyQuery (IncrementRetry oid) (v\<lparr>queryCount := Suc (queryCount v)\<rparr>))"
    using s by (intro sameOutcome_applyQuery) simp
  then show "fst (incrementRetryCount env oid w) = fst (incrementRetryCount env' oid v) \<and>
        sameOutcome (snd (incrementRetryCount env oid w)) (snd (incrementRetryCount env' oid v))"
    using assms
    by (simp only: incrementRetryCount_def db_query_ok increment_not_insert fst_conv snd_conv
        simp_thms prod.case sum.case)
qed

lemma agree_om_updateStatus:
  assumes "insertFaultsOnly env" "insertFaultsOnly env'"
  shows "agree (om_updateStatus env u) (om_updateStatus env' u)"
proof -
  have b: "agree (\<lambda>w. bindE (db_query env (updateQuery u) w)
                    (\<lambda>_. logEvent env (upd_orderId u) (upd_status u) (upd_data u)))
                 (\<lambda>w. bindE (db_query env' (updateQuery u) w)
                    (\<lambda>_. logEvent env' (upd_orderId u) (upd_status u) (upd_data u)))"
    by (intro agree_bind agree_db_update assms agree_silent) simp_all
  show ?thesis
    unfolding agree_def
  proof (intro allI impI)
    fix w v assume s: "sameOutcome w v"
    from b[unfolded agree_def, rule_format, OF s]
    show "fst (om_updateStatus env u w) = fst (om_updateStatus env' u v) \<and>
          sameOutcome (snd (om_updateStatus env u w)) (snd (om_updateStatus env' u v))"
      by (auto simp add: om_updateStatus_def split: prod.splits sum.splits)
  qed
qed

lemma sameOutcome_sendUpdate:
  "sameOutcome w v \<Longrightarrow> sameOutcome (sendUpdate u w) (sendUpdate u v)"
  by (auto simp add: sendUpdate_def sameOutcome_def logger_def ws_send_def split: option.splits)

lemma agree_updateStatus:
  assumes "insertFaultsOnly env" "insertFaultsOnly env'"
  shows "agree (updateStatus env oid st d) (updateStatus env' oid st d)"
proof -
  have "agree (\<lambda>w. bindE (om_updateStatus env \<lparr>upd_orderId = oid, upd_status = st, upd_data = d\<rparr> w)
           (\<lambda>_ w1. (Inr (), sendUpdate \<lparr>upd_orderId = oid, upd_status = st, upd_data = d\<rparr>
               (w1\<lparr>published := published w1 @ [\<lparr>upd_orderId = oid, upd_status = st, upd_data = d\<rparr>]\<rparr>))))
         (\<lambda>w. bindE (om_updateStatus env' \<lparr>upd_orderId = oid, upd_status = st, upd_data = d\<rparr> w)
           (\<lambda>_ w1. (Inr (), sendUpdate \<lparr>upd_orderId = oid, upd_status = st, upd_data = d\<rparr>
               (w1\<lparr>published := published w1 @ [\<lparr>upd_orderId = oid, upd_status = st, upd_data = d\<rparr>]\<rparr>))))"
  proof (intro agree_bind agree_om_updateStatus assms)
    fix x :: unit
    show "agree (\<lambda>w1. (Inr (), sendUpdate \<lparr>upd_orderId = oid, upd_status = st, upd_data = d\<rparr>
               (w1\<lparr>published := published w1 @ [\<lparr>upd_orderId = oid, upd_status = st, upd_data = d\<rparr>]\<rparr>)))
              (\<lambda>w1. (Inr (), sendUpdate \<lparr>upd_orderId = oid, upd_status = st, upd_data = d\<rparr>
               (w1\<lparr>published := published w1 @ [\<lparr>upd_orderId = oid, upd_status = st, upd_data = d\<rparr>]\<rparr>)))"
      unfolding agree_def
    proof (intro allI impI)
      fix w v assume s: "sameOutcome w v"
      then have "sameOutcome (w\<lparr>published := published w @ [\<lparr>upd_orderId = oid, upd_status = st, upd_data = d\<rparr>]\<rparr>)
                   (v\<lparr>published := published v @ [\<lparr>upd_orderId = oid, upd_status = st, upd_data = d\<rparr>]\<rparr>)"
        by (simp add: sameOutcome_def)
      then show "fst (Inr (), sendUpdate \<lparr>upd_orderId = oid, upd_status = st, upd_data = d\<rparr>
               (w\<lparr>published := published w @ [\<lparr>upd_orderId = oid, upd_status = st, upd_data = d\<rparr>]\<rparr>))
            = fst (Inr (), sendUpdate \<lparr>upd_orderId = oid, upd_status = st, upd_data = d\<rparr>
               (v\<lparr>published := published v @ [\<lparr>upd_orderId = oid, upd_status = st, upd_data = d\<rparr>]\<rparr>))
          \<and> sameOutcome (snd (Inr (), sendUpdate \<lparr>upd_orderId = oid, upd_status = st, upd_data = d\<rparr>
               (w\<lparr>published := published w @ [\<lparr>upd_orderId = oid, upd_status = st, upd_data = d\<rparr>]\<rparr>)))
              (snd (Inr (), sendUpdate \<lparr>upd_orderId = oid, upd_status = st, upd_data = d\<rparr>
               (v\<lparr>published := published v @ [\<lparr>upd_orderId = oid, upd_status = st, upd_data = d\<rparr>]\<rparr>)))"
        using sameOutcome_sendUpdate by simp
    qed
  qed
  then show ?thesis unfolding updateStatus_def Let_def .
qed

lemma agree_body:
  assumes "insertFaultsOnly env" "insertFaultsOnly env'"
  shows "agree (executeOrderBody env dr order) (executeOrderBody env' dr order)"
  unfolding executeOrderBody_def Let_def
  by (intro agree_bind agree_updateStatus assms agree_pure agree_silent) simp_all


lemma agree_after_logger:
  assumes "agree m m'"
  shows "agree (\<lambda>w. m (logger lvl msg w)) (\<lambda>w. m' (logger lvl msg w))"
  unfolding agree_def
proof (intro allI impI)
  fix w v assume "sameOutcome w v"
  then have "sameOutcome (logger lvl msg w) (logger lvl msg v)" by simp
  then show "fst (m (logger lvl msg w)) = fst (m' (logger lvl msg v)) \<and>
        sameOutcome (snd (m (logger lvl msg w))) (snd (m' (logger lvl msg v)))"
    using assms unfolding agree_def by blast
qed

lemma agree_handleFailure:
  assumes "insertFaultsOnly env" "insertFaultsOnly env'"
    and "retryMaxAttempts env' = retryMaxAttempts env"
  shows "agree (handleFailure env order err fin) (handleFailure env' order err fin)"
proof (cases "\<not> fin \<and> int (case retryCount order of None \<Rightarrow> 0 | Some n \<Rightarrow> n) < retryMaxAttempts env - 1")
  case True
  have "agree (\<lambda>w. incrementRetryCount env (orderId order) (logger LogError ''Order execution failed'' w))
              (\<lambda>w. incrementRetryCount env' (orderId order) (logger LogError ''Order execution failed'' w))"
    by (intro agree_after_logger agree_incrementRetryCount assms)
  then show ?thesis using True assms(3) unfolding handleFailure_def Let_def by simp
next
  case False
  have "\<And>d. agree (\<lambda>w. updateStatus env (orderId order) FAILED d (logger LogError ''Order execution failed'' w))
              (\<lambda>w. updateStatus env' (orderId order) FAILED d (logger LogError ''Order execution failed'' w))"
    by (intro agree_after_logger agree_updateStatus assms)
  then show ?thesis using False assms(3) unfolding handleFailure_def Let_def by auto
qed

lemma agree_executeOrder:
  assumes "insertFaultsOnly env" "insertFaultsOnly env'"
    and "retryMaxAttempts env' = retryMaxAttempts env"
  shows "agree (executeOrder env dr order) (executeOrder env' dr order)"
  unfolding agree_def
proof (intro allI impI)
  fix w v assume s: "sameOutcome w v"
  obtain r w1 where b: "executeOrderBody env dr order w = (r, w1)"
    by (cases "executeOrderBody env dr order w")
  obtain r' v1 where b': "executeOrderBody env' dr order v = (r', v1)"
    by (cases "executeOrderBody env' dr order v")
  from agree_body[OF assms(1,2), of dr order, unfolded agree_def, rule_format, OF s] b b'
  have rr: "r' = r" and s1: "sameOutcome w1 v1" by auto
  show "fst (executeOrder env dr order w) = fst (executeOrder env' dr order v) \<and>
        sameOutcome (snd (executeOrder env dr order w)) (snd (executeOrder env' dr order v))"
  proof (cases r)
    case (Inr u)
    then show ?thesis using rr s1 by (simp add: executeOrder_def b b')
  next
    case (Inl e)
    then show ?thesis
      using rr agree_handleFailure[OF assms, of order e False, unfolded agree_def, rule_format, OF s1]
      by (simp add: executeOrder_def b b')
  qed
qed

lemma agree_processOrder:
  assumes "insertFaultsOnly env" "insertFaultsOnly env'"
    and "retryMaxAttempts env' = retryMaxAttempts env" and "draws env' = draws env"
  shows "agree (processOrder env job) (processOrder env' job)"
  unfolding agree_def
proof (intro allI impI)
  fix w v assume s: "sameOutcome w v"
  let ?o = "job_data job"
  let ?dr = "draws env (orderId ?o) (attemptsMade job)"
  obtain r w1 where x: "executeOrder env ?dr ?o w = (r, w1)" by (cases "executeOrder env ?dr ?o w")
  obtain r' v1 where x': "executeOrder env' ?dr ?o v = (r', v1)" by (cases "executeOrder env' ?dr ?o v")
  from agree_executeOrder[OF assms(1,2,3), of ?dr ?o, unfolded agree_def, rule_format, OF s] x x'
  have rr: "r' = r" and s1: "sameOutcome w1 v1" by auto
  show "fst (processOrder env job w) = fst (processOrder env' job v) \<and>
        sameOutcome (snd (processOrder env job w)) (snd (processOrder env' job v))"
  proof (cases r)
    case (Inr u)
    then show ?thesis using rr s1 by (simp add: processOrder_def Let_def x x' assms(4))
  next
    case (Inl e)
    let ?w2 = "logger LogError ''Order execution failed in queue'' w1"
    let ?v2 = "logger LogError ''Order execution failed in queue'' v1"
    have s2: "sameOutcome ?w2 ?v2" using s1 by simp
    from agree_handleFailure[OF assms(1,2,3), of ?o e True, unfolded agree_def, rule_format, OF s2]
    have h: "fst (handleFailure env ?o e True ?w2) = fst (handleFailure env' ?o e True ?v2)"
      "sameOutcome (snd (handleFailure env ?o e True ?w2)) (snd (handleFailure env' ?o e True ?v2))"
      by auto
    show ?thesis using rr s1 Inl h
      by (auto simp add: processOrder_def Let_def x x' assms(3,4) split: prod.splits sum.splits)
  qed
qed

lemma runJob_agree:
  assumes "insertFaultsOnly env" "insertFaultsOnly env'"
    and "retryMaxAttempts env' = retryMaxAttempts env" and "draws env' = draws env"
    and "sameOutcome w v"
  shows "fst (runJob env job w) = fst (runJob env' job v) \<and>
         sameOutcome (snd (runJob env job w)) (snd (runJob env' job v))"
  using assms
proof (induction env job w arbitrary: v rule: runJob.induct)
  case (1 env job w)
  let ?job1 = "job\<lparr>attemptsStarted := Suc (attemptsStarted job), job_state := Active\<rparr>"
  let ?r = "processOrder env ?job1 w"
  let ?r' = "processOrder env' ?job1 v"
  from agree_processOrder[OF "1.prems"(1,2,3,4), of ?job1, unfolded agree_def, rule_format, OF "1.prems"(5)]
  have rr: "fst ?r' = fst ?r" and s1: "sameOutcome (snd ?r) (snd ?r')" by auto
  show ?case
  proof (cases "fst ?r")
    case (Inr u)
    have a: "runJob env job w = (?job1\<lparr>job_state := Completed\<rparr>, snd ?r)"
      using Inr by (subst runJob.simps) (simp add: Let_def)
    have b: "runJob env' job v = (?job1\<lparr>job_state := Completed\<rparr>, snd ?r')"
      using Inr rr by (subst runJob.simps) (simp add: Let_def)
    show ?thesis unfolding a b using s1 by simp
  next
    case (Inl e)
    show ?thesis
    proof (cases "int (Suc (attemptsMade job)) < retryMaxAttempts env")
      case False
      let ?job3 = "?job1\<lparr>attemptsMade := Suc (attemptsMade job), job_state := JobFailed (message e)\<rparr>"
      have a: "runJob env job w = (?job3, snd ?r)"
        using Inl False by (subst runJob.simps) (simp add: Let_def)
      have b: "runJob env' job v = (?job3, snd ?r')"
        using Inl False rr "1.prems"(3) by (subst runJob.simps) (simp add: Let_def)
      show ?thesis unfolding a b using s1 by simp
    next
      case True
      let ?job2 = "?job1\<lparr>attemptsMade := Suc (attemptsMade job), job_state := Delayed\<rparr>"
      have a: "runJob env job w = runJob env ?job2 (snd ?r)"
        using Inl True by (subst runJob.simps) (simp add: Let_def)
      have b: "runJob env' job v = runJob env' ?job2 (snd ?r')"
        using Inl True rr "1.prems"(3) by (subst runJob.simps) (simp add: Let_def)
      show ?thesis unfolding a b
        by (rule "1.IH"[OF refl refl Inl True "1.prems"(1,2,3,4) s1])
    qed
  qed
qed

lemma insertFaultsOnly_healthy [simp]: "insertFaultsOnly (env\<lparr>dbFails := (\<lambda>n q. None)\<rparr>)"
  by (simp add: insertFaultsOnly_def)

subsection \<open>Step lemmas: what each call returns and publishes\<close>

lemma bindE_Inl: "bindE (Inl e, w) f = (Inl e, w)"
  by (simp add: bindE_def)

lemma bindE_Inr: "bindE (Inr x, w) f = f x w"
  by (simp add: bindE_def)

lemma bindE_ok: "fst m = Inr () \<Longrightarrow> bindE m f = f () (snd m)"
  by (cases m) (simp add: bindE_def)

lemma bindE_err: "fst m = Inl e \<Longrightarrow> bindE m f = (Inl e, snd m)"
  by (cases m) (simp add: bindE_def)

lemma db_query_fail:
  "dbFails env (queryCount w) q = Some m \<Longrightarrow>
     db_query env q w
       = (Inl (Error m), logger LogError ''Database query error'' (w\<lparr>queryCount := Suc (queryCount w)\<rparr>))"
  by (simp add: db_query_def Let_def)

lemma om_updateStatus_ok:
  assumes "dbFails env (queryCount w) (updateQuery u) = None"
  shows "fst (om_updateStatus env u w) = Inr ()"
proof -
  have "fst (bindE (db_query env (updateQuery u) w)
               (\<lambda>_. logEvent env (upd_orderId u) (upd_status u) (upd_data u))) = Inr ()"
    using assms by (simp add: db_query_ok bindE_Inr)
  then show ?thesis by (auto simp add: om_updateStatus_def split: prod.splits sum.splits)
qed

lemma om_updateStatus_fail:
  assumes "dbFails env (queryCount w) (updateQuery u) = Some m"
  shows "om_updateStatus env u w
           = (Inl (Error m), logger LogError ''Failed to update order status''
                (logger LogError ''Database query error'' (w\<lparr>queryCount := Suc (queryCount w)\<rparr>)))"
  using assms by (simp add: om_updateStatus_def db_query_fail bindE_Inl)

lemma updateStatus_ok:
  assumes "dbFails env (queryCount w) (updateQuery \<lparr>upd_orderId = oid, upd_status = st, upd_data = d\<rparr>) = None"
  shows "fst (updateStatus env oid st d w) = Inr ()"
    and "published (snd (updateStatus env oid st d w))
           = published w @ [\<lparr>upd_orderId = oid, upd_status = st, upd_data = d\<rparr>]"
proof -
  let ?u = "\<lparr>upd_orderId = oid, upd_status = st, upd_data = d\<rparr>"
  have ok: "fst (om_updateStatus env ?u w) = Inr ()" using assms by (rule om_updateStatus_ok)
  then show "fst (updateStatus env oid st d w) = Inr ()"
    by (simp add: updateStatus_def Let_def bindE_ok)
  show "published (snd (updateStatus env oid st d w)) = published w @ [?u]"
    using ok by (simp add: updateStatus_def Let_def bindE_ok)
qed

lemma updateStatus_fail:
  assumes "dbFails env (queryCount w) (updateQuery \<lparr>upd_orderId = oid, upd_status = st, upd_data = d\<rparr>) = Some m"
  shows "fst (updateStatus env oid st d w) = Inl (Error m)"
    and "published (snd (updateStatus env oid st d w)) = published w"
  using assms by (simp_all add: updateStatus_def Let_def om_updateStatus_fail bindE_Inl)

lemma selectBestDex_getAllQuotes:
  "\<exists>b. selectBestDex (getAllQuotes dr tIn tOut amt) = Inr b"
  by (simp add: selectBestDex_def getAllQuotes_def)

lemma healthy_body_ok:
  assumes h: "storeHealthy env"
    and s: "selectBestDex (getAllQuotes dr (tokenIn order) (tokenOut order) (amountIn order)) = Inr b"
    and x: "executeSwap dr order b = Inr res"
  shows "fst (executeOrderBody env dr order w) = Inr ()"
    and "map upd_status (published (snd (executeOrderBody env dr order w)))
           = map upd_status (published w) @ [PENDING, ROUTING, ROUTING, BUILDING, SUBMITTED, CONFIRMED]"
proof -
  have n: "\<And>n q. dbFails env n q = None" using h by (simp add: storeHealthy_def)
  show "fst (executeOrderBody env dr order w) = Inr ()"
    by (simp add: executeOrderBody_def Let_def bindE_ok bindE_Inr updateStatus_ok n s x)
  show "map upd_status (published (snd (executeOrderBody env dr order w)))
           = map upd_status (published w) @ [PENDING, ROUTING, ROUTING, BUILDING, SUBMITTED, CONFIRMED]"
    by (simp add: executeOrderBody_def Let_def bindE_ok bindE_Inr updateStatus_ok n s x)
qed

lemma healthy_body_swap_fails:
  assumes h: "storeHealthy env"
    and s: "selectBestDex (getAllQuotes dr (tokenIn order) (tokenOut order) (amountIn order)) = Inr b"
    and x: "executeSwap dr order b = Inl e"
  shows "fst (executeOrderBody env dr order w) = Inl e"
    and "map upd_status (published (snd (executeOrderBody env dr order w)))
           = map upd_status (published w) @ [PENDING, ROUTING, ROUTING, BUILDING, SUBMITTED]"
proof -
  have n: "\<And>n q. dbFails env n q = None" using h by (simp add: storeHealthy_def)
  show "fst (executeOrderBody env dr order w) = Inl e"
    by (simp add: executeOrderBody_def Let_def bindE_ok bindE_Inr bindE_Inl updateStatus_ok n s x)
  show "map upd_status (published (snd (executeOrderBody env dr order w)))
           = map upd_status (published w) @ [PENDING, ROUTING, ROUTING, BUILDING, SUBMITTED]"
    by (simp add: executeOrderBody_def Let_def bindE_ok bindE_Inr bindE_Inl updateStatus_ok n s x)
qed

lemma incrementRetryCount_ok:
  "dbFails env (queryCount w) (IncrementRetry oid) = None \<Longrightarrow>
     fst (incrementRetryCount env oid w) = Inr ()"
  by (simp add: incrementRetryCount_def db_query_ok)

lemma incrementRetryCount_fail:
  "dbFails env (queryCount w) (IncrementRetry oid) = Some m \<Longrightarrow>
     fst (incrementRetryCount env oid w) = Inl (Error m)"
  by (simp add: incrementRetryCount_def db_query_fail)

lemma queryCount_logger [simp]: "queryCount (logger lvl msg w) = queryCount w"
  by (simp add: logger_def)

lemma healthy_handleFailure:
  assumes h: "storeHealthy env"
  shows "fst (handleFailure env order err fin w) = Inr ()"
proof -
  have n: "\<And>n q. dbFails env n q = None" using h by (simp add: storeHealthy_def)
  show ?thesis
    by (simp add: handleFailure_def Let_def incrementRetryCount_ok updateStatus_ok n)
qed

lemma healthy_executeOrder:
  assumes h: "storeHealthy env"
  shows "fst (executeOrder env dr order w) = Inr ()"
proof -
  obtain r w1 where b: "executeOrderBody env dr order w = (r, w1)"
    by (cases "executeOrderBody env dr order w")
  show ?thesis
    using healthy_handleFailure[OF h] by (cases r) (simp_all add: executeOrder_def b)
qed

lemma healthy_processOrder:
  assumes h: "storeHealthy env"
  shows "fst (processOrder env job w) = Inr ()"
proof -
  let ?x = "executeOrder env (draws env (orderId (job_data job)) (attemptsMade job)) (job_data job) w"
  obtain r w1 where b: "?x = (r, w1)" by (cases ?x)
  have "r = Inr ()" using healthy_executeOrder[OF h, of "draws env (orderId (job_data job)) (attemptsMade job)" "job_data job" w] b
    by simp
  then show ?thesis by (simp add: processOrder_def Let_def b)
qed

lemma healthy_processOrder_world:
  assumes h: "storeHealthy env"
  shows "snd (processOrder env job w)
           = snd (executeOrder env (draws env (orderId (job_data job)) (attemptsMade job)) (job_data job) w)"
proof -
  let ?x = "executeOrder env (draws env (orderId (job_data job)) (attemptsMade job)) (job_data job) w"
  obtain r w1 where b: "?x = (r, w1)" by (cases ?x)
  have "r = Inr ()" using healthy_executeOrder[OF h, of "draws env (orderId (job_data job)) (attemptsMade job)" "job_data job" w] b
    by simp
  then show ?thesis by (simp add: processOrder_def Let_def b)
qed

lemma healthy_runJob:
  assumes h: "storeHealthy env"
  shows "runJob env job w
           = (job\<lparr>attemptsStarted := Suc (attemptsStarted job), job_state := Completed\<rparr>,
              snd (executeOrder env (draws env (orderId (job_data job)) (attemptsMade job))
                     (job_data job) w))"
  using healthy_processOrder[OF h, of "job\<lparr>attemptsStarted := Suc (attemptsStarted job), job_state := Active\<rparr>" w]
    healthy_processOrder_world[OF h, of "job\<lparr>attemptsStarted := Suc (attemptsStarted job), job_state := Active\<rparr>" w]
  by (subst runJob.simps) (simp add: Let_def)

lemma executeOrder_swallows:
  assumes b: "fst (executeOrderBody env dr order w) = Inl e"
    and r: "int (case retryCount order of None \<Rightarrow> 0 | Some n \<Rightarrow> n) < retryMaxAttempts env - 1"
  shows "published (snd (executeOrder env dr order w))
           = published (snd (executeOrderBody env dr order w))"
proof -
  obtain x w1 where p: "executeOrderBody env dr order w = (x, w1)"
    by (cases "executeOrderBody env dr order w")
  then have x: "x = Inl e" using b by simp
  show ?thesis using r by (simp add: executeOrder_def p x handleFailure_def Let_def)
qed

subsection \<open>A store that rejects the BUILDING update and the retry increment\<close>

lemma bindE_eval:
  "bindE m f = (case fst m of Inl e \<Rightarrow> (Inl e, snd m) | Inr x \<Rightarrow> f x (snd m))"
  by (cases m) (simp add: bindE_def split: sum.splits)

lemma showInt_three: "showInt 3 = ''3''"
  by code_simp

lemma broken_update:
  "dbFails brokenStoreEnv n (updateQuery \<lparr>upd_orderId = oid, upd_status = st, upd_data = d\<rparr>)
     = (if st = BUILDING then Some ''db down'' else None)"
  by (cases d) (simp_all add: brokenStoreEnv_def updateQuery_def)

lemma broken_increment: "dbFails brokenStoreEnv n (IncrementRetry oid) = Some ''db down''"
  by (simp add: brokenStoreEnv_def)

lemma broken_max: "retryMaxAttempts brokenStoreEnv = 3"
  by (simp add: brokenStoreEnv_def)

lemma broken_body:
  "fst (executeOrderBody brokenStoreEnv dr order w) = Inl (Error ''db down'')"
  "map upd_status (published (snd (executeOrderBody brokenStoreEnv dr order w)))
     = map upd_status (published w) @ [PENDING, ROUTING, ROUTING]"
proof -
  obtain b where s: "selectBestDex (getAllQuotes dr (tokenIn order) (tokenOut order) (amountIn order)) = Inr b"
    using selectBestDex_getAllQuotes by blast
  show "fst (executeOrderBody brokenStoreEnv dr order w) = Inl (Error ''db down'')"
    by (simp add: executeOrderBody_def Let_def bindE_eval updateStatus_ok updateStatus_fail
        broken_update s)
  show "map upd_status (published (snd (executeOrderBody brokenStoreEnv dr order w)))
     = map upd_status (published w) @ [PENDING, ROUTING, ROUTING]"
    by (simp add: executeOrderBody_def Let_def bindE_eval updateStatus_ok updateStatus_fail
        broken_update s)
qed

lemma broken_handleFailure_retry:
  assumes "retryCount order = Some 0"
  shows "fst (handleFailure brokenStoreEnv order err False w) = Inl (Error ''db down'')"
    and "published (snd (handleFailure brokenStoreEnv order err False w)) = published w"
  using assms
  by (simp_all add: handleFailure_def Let_def broken_max incrementRetryCount_fail broken_increment)

lemma broken_handleFailure_final:
  "fst (handleFailure brokenStoreEnv order (Error ''db down'') True w) = Inr ()"
  "published (snd (handleFailure brokenStoreEnv order (Error ''db down'') True w))
     = published w @ [\<lparr>upd_orderId = orderId order, upd_status = FAILED,
          upd_data = Some (noData\<lparr>error := Some ''db down (after 3 attempts)''\<rparr>)\<rparr>]"
  by (simp_all add: handleFailure_def Let_def broken_max updateStatus_ok broken_update showInt_three)

lemma broken_executeOrder:
  assumes "retryCount order = Some 0"
  shows "fst (executeOrder brokenStoreEnv dr order w) = Inl (Error ''db down'')"
    and "map upd_status (published (snd (executeOrder brokenStoreEnv dr order w)))
           = map upd_status (published w) @ [PENDING, ROUTING, ROUTING]"
proof -
  obtain x w1 where p: "executeOrderBody brokenStoreEnv dr order w = (x, w1)"
    by (cases "executeOrderBody brokenStoreEnv dr order w")
  have x: "x = Inl (Error ''db down'')" and w1: "map upd_status (published w1) = map upd_status (published w) @ [PENDING, ROUTING, ROUTING]"
    using broken_body[of dr order w] p by simp_all
  show "fst (executeOrder brokenStoreEnv dr order w) = Inl (Error ''db down'')"
    by (simp add: executeOrder_def p x broken_handleFailure_retry[OF assms])
  show "map upd_status (published (snd (executeOrder brokenStoreEnv dr order w)))
           = map upd_status (published w) @ [PENDING, ROUTING, ROUTING]"
    by (simp add: executeOrder_def p x broken_handleFailure_retry[OF assms] w1)
qed

lemma broken_processOrder:
  assumes "retryCount (job_data job) = Some 0"
  shows "fst (processOrder brokenStoreEnv job w) = Inl (Error ''db down'')"
    and "attemptsMade job < 2 \<Longrightarrow>
           map upd_status (published (snd (processOrder brokenStoreEnv job w)))
             = map upd_status (published w) @ [PENDING, ROUTING, ROUTING]"
    and "attemptsMade job \<ge> 2 \<Longrightarrow>
           published (snd (processOrder brokenStoreEnv job w))
             = published (snd (executeOrder brokenStoreEnv
                   (draws brokenStoreEnv (orderId (job_data job)) (attemptsMade job)) (job_data job) w))
               @ [\<lparr>upd_orderId = orderId (job_data job), upd_status = FAILED,
                    upd_data = Some (noData\<lparr>error := Some ''db down (after 3 attempts)''\<rparr>)\<rparr>]"
proof -
  let ?dr = "draws brokenStoreEnv (orderId (job_data job)) (attemptsMade job)"
  obtain x w1 where p: "executeOrder brokenStoreEnv ?dr (job_data job) w = (x, w1)"
    by (cases "executeOrder brokenStoreEnv ?dr (job_data job) w")
  have x: "x = Inl (Error ''db down'')"
    and w1: "map upd_status (published w1) = map upd_status (published w) @ [PENDING, ROUTING, ROUTING]"
    using broken_executeOrder[OF assms, of ?dr w] p by simp_all
  let ?w2 = "logger LogError ''Order execution failed in queue'' w1"
  obtain y w3 where h: "handleFailure brokenStoreEnv (job_data job) (Error ''db down'') True ?w2 = (y, w3)"
    by (cases "handleFailure brokenStoreEnv (job_data job) (Error ''db down'') True ?w2")
  have y: "y = Inr ()"
    and w3: "published w3 = published w1 @ [\<lparr>upd_orderId = orderId (job_data job), upd_status = FAILED,
                    upd_data = Some (noData\<lparr>error := Some ''db down (after 3 attempts)''\<rparr>)\<rparr>]"
    using broken_handleFailure_final[of "job_data job" ?w2] h by simp_all
  show "fst (processOrder brokenStoreEnv job w) = Inl (Error ''db down'')"
    by (simp add: processOrder_def Let_def p x broken_max h y)
  show "attemptsMade job < 2 \<Longrightarrow>
           map upd_status (published (snd (processOrder brokenStoreEnv job w)))
             = map upd_status (published w) @ [PENDING, ROUTING, ROUTING]"
    by (simp add: processOrder_def Let_def p x broken_max w1)
  show "attemptsMade job \<ge> 2 \<Longrightarrow>
           published (snd (processOrder brokenStoreEnv job w))
             = published (snd (executeOrder brokenStoreEnv ?dr (job_data job) w))
               @ [\<lparr>upd_orderId = orderId (job_data job), upd_status = FAILED,
                    upd_data = Some (noData\<lparr>error := Some ''db down (after 3 attempts)''\<rparr>)\<rparr>]"
    by (simp add: processOrder_def Let_def p x broken_max h y w3)
qed

subsection \<open>Worked runs of the example order\<close>


lemma sol_select:
  "selectBestDex (getAllQuotes midDraws (tokenIn solOrder) (tokenOut solOrder) (amountIn solOrder))
     = Inr solQuote"
  by (simp add: selectBestDex_def getAllQuotes_def getRaydiumQuote_def getMeteorQuote_def
      getBasePrice_def charCodeAt0_def midDraws_def solOrder_def solQuote_def Let_def)

lemma sol_select_failing:
  "selectBestDex (getAllQuotes (midDraws\<lparr>swapFailure := 0\<rparr>) (tokenIn solOrder) (tokenOut solOrder)
      (amountIn solOrder)) = Inr solQuote"
  using sol_select by (simp add: getAllQuotes_def)

lemma sol_swap_ok:
  "executeSwap midDraws solOrder solQuote
     = Inr \<lparr>res_orderId = ''order-1'', res_txHash = generateMockTxHash (\<lambda>i. 0),
            res_executedPrice = 4130997126949765 / 2 ^ 45,
            res_amountOut = 8237208271137831 / 2 ^ 46, res_dex = RAYDIUM\<rparr>"
proof -
  note e = executeSwap_eval[OF mid_roundings(1-5)]
  have "executeSwap midDraws solOrder solQuote
          = Inr \<lparr>res_orderId = orderId solOrder,
                 res_txHash = generateMockTxHash (hashDraws midDraws),
                 res_executedPrice = 4130997126949765 / 2 ^ 45,
                 res_amountOut = fl (4130997126949765 / 2 ^ 45 * fl (1 - fee solQuote)),
                 res_dex = dex solQuote\<rparr>"
    by (rule e(4)) (simp_all add: solOrder_def fl_consts(5) midDraws_def)
  then show ?thesis
    unfolding mid_roundings(6) by (simp add: solOrder_def midDraws_def solQuote_def)
qed

lemma sol_swap_fails:
  "executeSwap (midDraws\<lparr>swapFailure := 0\<rparr>) solOrder solQuote
     = Inl (Error ''Transaction simulation failed: Network congestion'')"
proof -
  have r: "fl (swapSlippage (midDraws\<lparr>swapFailure := 0\<rparr>) * fl 0.01) = 5764607523034235 / 2 ^ 60"
    using mid_roundings(1) by simp
  note e = executeSwap_eval[OF r mid_roundings(2-5)]
  show ?thesis
    by (rule e(5)) (simp_all add: solOrder_def fl_consts(5))
qed


lemma healthyEnv_healthy: "storeHealthy healthyEnv"
  by (simp add: storeHealthy_def healthyEnv_def)

lemma failingVenueEnv_healthy: "storeHealthy failingVenueEnv"
  by (simp add: storeHealthy_def failingVenueEnv_def)

lemma executeOrder_of_body_ok:
  "fst (executeOrderBody env dr order w) = Inr () \<Longrightarrow>
     executeOrder env dr order w = executeOrderBody env dr order w"
  by (cases "executeOrderBody env dr order w") (simp add: executeOrder_def)

lemma published_emptyWorld: "published emptyWorld = []"
  by (simp add: emptyWorld_def)

lemma healthy_sol_run:
  "fst (executeOrderBody healthyEnv midDraws solOrder emptyWorld) = Inr ()"
  "map upd_status (published (snd (executeOrder healthyEnv midDraws solOrder emptyWorld)))
     = [PENDING, ROUTING, ROUTING, BUILDING, SUBMITTED, CONFIRMED]"
proof -
  show b: "fst (executeOrderBody healthyEnv midDraws solOrder emptyWorld) = Inr ()"
    using healthy_body_ok(1)[OF healthyEnv_healthy sol_select sol_swap_ok] .
  show "map upd_status (published (snd (executeOrder healthyEnv midDraws solOrder emptyWorld)))
     = [PENDING, ROUTING, ROUTING, BUILDING, SUBMITTED, CONFIRMED]"
    using healthy_body_ok(2)[OF healthyEnv_healthy sol_select sol_swap_ok, of emptyWorld]
    by (simp add: executeOrder_of_body_ok[OF b] published_emptyWorld)
qed

lemma healthy_sol_job:
  "fst (runJob healthyEnv solJob emptyWorld)
     = solJob\<lparr>attemptsStarted := 1, job_state := Completed\<rparr>"
  "map upd_status (published (snd (runJob healthyEnv solJob emptyWorld)))
     = [PENDING, ROUTING, ROUTING, BUILDING, SUBMITTED, CONFIRMED]"
proof -
  have j: "job_data solJob = solOrder" "attemptsStarted solJob = 0" "attemptsMade solJob = 0"
    by (simp_all add: solJob_def)
  have dr: "draws healthyEnv (orderId solOrder) 0 = midDraws" by (simp add: healthyEnv_def)
  show "fst (runJob healthyEnv solJob emptyWorld)
     = solJob\<lparr>attemptsStarted := 1, job_state := Completed\<rparr>"
    by (simp add: healthy_runJob[OF healthyEnv_healthy] j)
  show "map upd_status (published (snd (runJob healthyEnv solJob emptyWorld)))
     = [PENDING, ROUTING, ROUTING, BUILDING, SUBMITTED, CONFIRMED]"
    using healthy_sol_run(2) by (simp add: healthy_runJob[OF healthyEnv_healthy] j dr)
qed

lemma failing_body:
  "fst (executeOrderBody failingVenueEnv (midDraws\<lparr>swapFailure := 0\<rparr>) solOrder w)
     = Inl (Error ''Transaction simulation failed: Network congestion'')"
  "map upd_status (published (snd (executeOrderBody failingVenueEnv (midDraws\<lparr>swapFailure := 0\<rparr>) solOrder w)))
     = map upd_status (published w) @ [PENDING, ROUTING, ROUTING, BUILDING, SUBMITTED]"
  using healthy_body_swap_fails[OF failingVenueEnv_healthy sol_select_failing sol_swap_fails]
  by simp_all

lemma failing_draws: "draws failingVenueEnv oid k = midDraws\<lparr>swapFailure := 0\<rparr>"
  by (simp add: failingVenueEnv_def)

lemma failing_executeOrder:
  "map upd_status (published (snd (executeOrder failingVenueEnv (midDraws\<lparr>swapFailure := 0\<rparr>) solOrder w)))
     = map upd_status (published w) @ [PENDING, ROUTING, ROUTING, BUILDING, SUBMITTED]"
proof -
  have r: "int (case retryCount solOrder of None \<Rightarrow> 0 | Some n \<Rightarrow> n) < retryMaxAttempts failingVenueEnv - 1"
    by (simp add: solOrder_def failingVenueEnv_def)
  show ?thesis
    using executeOrder_swallows[OF failing_body(1) r, of w] failing_body(2)[of w] by simp
qed

lemma broken_runJob_retry:
  assumes "retryCount (job_data job) = Some 0" and "attemptsMade job < 2"
  shows "runJob brokenStoreEnv job w
           = runJob brokenStoreEnv
               (job\<lparr>attemptsStarted := Suc (attemptsStarted job), job_state := Active,
                     attemptsMade := Suc (attemptsMade job), job_state := Delayed\<rparr>)
               (snd (processOrder brokenStoreEnv
                  (job\<lparr>attemptsStarted := Suc (attemptsStarted job), job_state := Active\<rparr>) w))"
  using assms
    broken_processOrder(1)[of "job\<lparr>attemptsStarted := Suc (attemptsStarted job), job_state := Active\<rparr>" w]
  by (subst runJob.simps) (simp add: Let_def broken_max)

lemma broken_runJob_final:
  assumes "retryCount (job_data job) = Some 0" and "attemptsMade job = 2"
  shows "runJob brokenStoreEnv job w
           = (job\<lparr>attemptsStarted := Suc (attemptsStarted job), job_state := Active,
                   attemptsMade := 3, job_state := JobFailed ''db down''\<rparr>,
              snd (processOrder brokenStoreEnv
                  (job\<lparr>attemptsStarted := Suc (attemptsStarted job), job_state := Active\<rparr>) w))"
  using assms
    broken_processOrder(1)[of "job\<lparr>attemptsStarted := Suc (attemptsStarted job), job_state := Active\<rparr>" w]
  by (subst runJob.simps) (simp add: Let_def broken_max)

lemma broken_sol_run:
  "attemptsStarted (fst (runJob brokenStoreEnv solJob emptyWorld)) = 3"
  "job_state (fst (runJob brokenStoreEnv solJob emptyWorld)) = JobFailed ''db down''"
  "map upd_status (published (snd (runJob brokenStoreEnv solJob emptyWorld)))
     = [PENDING, ROUTING, ROUTING, PENDING, ROUTING, ROUTING, PENDING, ROUTING, ROUTING, FAILED]"
  "last (published (snd (runJob brokenStoreEnv solJob emptyWorld)))
     = \<lparr>upd_orderId = ''order-1'', upd_status = FAILED,
        upd_data = Some (noData\<lparr>error := Some ''db down (after 3 attempts)''\<rparr>)\<rparr>"
proof -
  let ?a1 = "solJob\<lparr>attemptsStarted := Suc (attemptsStarted solJob), job_state := Active\<rparr>"
  let ?w1 = "snd (processOrder brokenStoreEnv ?a1 emptyWorld)"
  let ?j1 = "solJob\<lparr>attemptsStarted := Suc (attemptsStarted solJob), job_state := Active,
                     attemptsMade := Suc (attemptsMade solJob), job_state := Delayed\<rparr>"
  let ?a2 = "?j1\<lparr>attemptsStarted := Suc (attemptsStarted ?j1), job_state := Active\<rparr>"
  let ?w2 = "snd (processOrder brokenStoreEnv ?a2 ?w1)"
  let ?j2 = "?j1\<lparr>attemptsStarted := Suc (attemptsStarted ?j1), job_state := Active,
                     attemptsMade := Suc (attemptsMade ?j1), job_state := Delayed\<rparr>"
  let ?a3 = "?j2\<lparr>attemptsStarted := Suc (attemptsStarted ?j2), job_state := Active\<rparr>"
  let ?w3 = "snd (processOrder brokenStoreEnv ?a3 ?w2)"
  have d: "job_data solJob = solOrder" "retryCount solOrder = Some 0" "attemptsMade solJob = 0"
    "attemptsStarted solJob = 0" "orderId solOrder = ''order-1''"
    by (simp_all add: solJob_def solOrder_def)
  have s1: "runJob brokenStoreEnv solJob emptyWorld = runJob brokenStoreEnv ?j1 ?w1"
    by (rule broken_runJob_retry) (simp_all add: d)
  have s2: "runJob brokenStoreEnv ?j1 ?w1 = runJob brokenStoreEnv ?j2 ?w2"
    by (rule broken_runJob_retry) (simp_all add: d)
  have s3: "runJob brokenStoreEnv ?j2 ?w2
              = (?j2\<lparr>attemptsStarted := Suc (attemptsStarted ?j2), job_state := Active,
                      attemptsMade := 3, job_state := JobFailed ''db down''\<rparr>, ?w3)"
    by (rule broken_runJob_final) (simp_all add: d)
  have p1: "map upd_status (published ?w1) = [PENDING, ROUTING, ROUTING]"
    using broken_processOrder(2)[of ?a1 emptyWorld] by (simp add: d published_emptyWorld)
  have p2: "map upd_status (published ?w2) = [PENDING, ROUTING, ROUTING, PENDING, ROUTING, ROUTING]"
    using broken_processOrder(2)[of ?a2 ?w1] p1 by (simp add: d)
  let ?x3 = "snd (executeOrder brokenStoreEnv (draws brokenStoreEnv (orderId (job_data ?a3)) (attemptsMade ?a3))
                    (job_data ?a3) ?w2)"
  have p3: "published ?w3 = published ?x3
              @ [\<lparr>upd_orderId = ''order-1'', upd_status = FAILED,
                   upd_data = Some (noData\<lparr>error := Some ''db down (after 3 attempts)''\<rparr>)\<rparr>]"
    using broken_processOrder(3)[of ?a3 ?w2] by (simp add: d)
  have x3: "map upd_status (published ?x3)
              = [PENDING, ROUTING, ROUTING, PENDING, ROUTING, ROUTING, PENDING, ROUTING, ROUTING]"
    using broken_executeOrder(2)[of "job_data ?a3" "draws brokenStoreEnv (orderId (job_data ?a3)) (attemptsMade ?a3)" ?w2] p2
    by (simp add: d)
  show "attemptsStarted (fst (runJob brokenStoreEnv solJob emptyWorld)) = 3"
    unfolding s1 s2 s3 by (simp add: d)
  show "job_state (fst (runJob brokenStoreEnv solJob emptyWorld)) = JobFailed ''db down''"
    unfolding s1 s2 s3 by simp
  show "map upd_status (published (snd (runJob brokenStoreEnv solJob emptyWorld)))
     = [PENDING, ROUTING, ROUTING, PENDING, ROUTING, ROUTING, PENDING, ROUTING, ROUTING, FAILED]"
    unfolding s1 s2 s3 using p3 x3 by simp
  show "last (published (snd (runJob brokenStoreEnv solJob emptyWorld)))
     = \<lparr>upd_orderId = ''order-1'', upd_status = FAILED,
        upd_data = Some (noData\<lparr>error := Some ''db down (after 3 attempts)''\<rparr>)\<rparr>"
    unfolding s1 s2 s3 using p3 by simp
qed


subsection \<open>A retried job that succeeds\<close>

lemma updates_ok_body_ok:
  assumes n: "\<And>n u. dbFails env n (updateQuery u) = None"
    and s: "selectBestDex (getAllQuotes dr (tokenIn order) (tokenOut order) (amountIn order)) = Inr b"
    and x: "executeSwap dr order b = Inr res"
  shows "fst (executeOrderBody env dr order w) = Inr ()"
    and "map upd_status (published (snd (executeOrderBody env dr order w)))
           = map upd_status (published w) @ [PENDING, ROUTING, ROUTING, BUILDING, SUBMITTED, CONFIRMED]"
  by (simp_all add: executeOrderBody_def Let_def bindE_ok bindE_Inr updateStatus_ok n s x)

lemma updates_ok_body_swap_fails:
  assumes n: "\<And>n u. dbFails env n (updateQuery u) = None"
    and s: "selectBestDex (getAllQuotes dr (tokenIn order) (tokenOut order) (amountIn order)) = Inr b"
    and x: "executeSwap dr order b = Inl e"
  shows "fst (executeOrderBody env dr order w) = Inl e"
    and "map upd_status (published (snd (executeOrderBody env dr order w)))
           = map upd_status (published w) @ [PENDING, ROUTING, ROUTING, BUILDING, SUBMITTED]"
  by (simp_all add: executeOrderBody_def Let_def bindE_ok bindE_Inr bindE_Inl updateStatus_ok n s x)

lemma flaky_update: "dbFails flakyEnv n (updateQuery u) = None"
  by (simp add: flakyEnv_def updateQuery_def split: option.splits)

lemma flaky_increment: "dbFails flakyEnv n (IncrementRetry oid) = Some ''db down''"
  by (simp add: flakyEnv_def)

lemma flaky_first_attempt:
  "fst (executeOrder flakyEnv (midDraws\<lparr>swapFailure := 0\<rparr>) solOrder w) = Inl (Error ''db down'')"
  "map upd_status (published (snd (executeOrder flakyEnv (midDraws\<lparr>swapFailure := 0\<rparr>) solOrder w)))
     = map upd_status (published w) @ [PENDING, ROUTING, ROUTING, BUILDING, SUBMITTED]"
proof -
  let ?dr = "midDraws\<lparr>swapFailure := 0\<rparr>"
  obtain x w1 where p: "executeOrderBody flakyEnv ?dr solOrder w = (x, w1)"
    by (cases "executeOrderBody flakyEnv ?dr solOrder w")
  have x: "x = Inl (Error ''Transaction simulation failed: Network congestion'')"
    and w1: "map upd_status (published w1)
               = map upd_status (published w) @ [PENDING, ROUTING, ROUTING, BUILDING, SUBMITTED]"
    using updates_ok_body_swap_fails[OF flaky_update sol_select_failing sol_swap_fails, of w] p
    by simp_all
  have r: "retryCount solOrder = Some 0" "retryMaxAttempts flakyEnv = 3"
    by (simp_all add: solOrder_def flakyEnv_def)
  have h: "fst (handleFailure flakyEnv solOrder e False v) = Inl (Error ''db down'')"
    "published (snd (handleFailure flakyEnv solOrder e False v)) = published v" for e v
    by (simp_all add: handleFailure_def Let_def r incrementRetryCount_fail flaky_increment)
  show "fst (executeOrder flakyEnv ?dr solOrder w) = Inl (Error ''db down'')"
    by (simp add: executeOrder_def p x h)
  show "map upd_status (published (snd (executeOrder flakyEnv ?dr solOrder w)))
     = map upd_status (published w) @ [PENDING, ROUTING, ROUTING, BUILDING, SUBMITTED]"
    by (simp add: executeOrder_def p x h w1)
qed

lemma flaky_second_attempt:
  "fst (executeOrder flakyEnv midDraws solOrder w) = Inr ()"
  "map upd_status (published (snd (executeOrder flakyEnv midDraws solOrder w)))
     = map upd_status (published w) @ [PENDING, ROUTING, ROUTING, BUILDING, SUBMITTED, CONFIRMED]"
proof -
  have b: "fst (executeOrderBody flakyEnv midDraws solOrder w) = Inr ()"
    using updates_ok_body_ok(1)[OF flaky_update sol_select sol_swap_ok] .
  show "fst (executeOrder flakyEnv midDraws solOrder w) = Inr ()"
    using b by (simp add: executeOrder_of_body_ok[OF b])
  show "map upd_status (published (snd (executeOrder flakyEnv midDraws solOrder w)))
     = map upd_status (published w) @ [PENDING, ROUTING, ROUTING, BUILDING, SUBMITTED, CONFIRMED]"
    using updates_ok_body_ok(2)[OF flaky_update sol_select sol_swap_ok, of w]
    by (simp add: executeOrder_of_body_ok[OF b])
qed

lemma flaky_processOrder_first:
  assumes "job_data job = solOrder" and "attemptsMade job = 0"
  shows "fst (processOrder flakyEnv job w) = Inl (Error ''db down'')"
    and "map upd_status (published (snd (processOrder flakyEnv job w)))
           = map upd_status (published w) @ [PENDING, ROUTING, ROUTING, BUILDING, SUBMITTED]"
proof -
  have d: "retryMaxAttempts flakyEnv = 3" "draws flakyEnv oid 0 = midDraws\<lparr>swapFailure := 0\<rparr>" for oid
    by (simp_all add: flakyEnv_def)
  obtain x1 v1 where e1: "executeOrder flakyEnv (midDraws\<lparr>swapFailure := 0\<rparr>) solOrder w = (x1, v1)"
    by (cases "executeOrder flakyEnv (midDraws\<lparr>swapFailure := 0\<rparr>) solOrder w")
  have x1: "x1 = Inl (Error ''db down'')"
    and v1: "map upd_status (published v1)
               = map upd_status (published w) @ [PENDING, ROUTING, ROUTING, BUILDING, SUBMITTED]"
    using flaky_first_attempt[of w] e1 by simp_all
  show "fst (processOrder flakyEnv job w) = Inl (Error ''db down'')"
    by (simp add: processOrder_def Let_def assms d e1 x1)
  show "map upd_status (published (snd (processOrder flakyEnv job w)))
           = map upd_status (published w) @ [PENDING, ROUTING, ROUTING, BUILDING, SUBMITTED]"
    by (simp add: processOrder_def Let_def assms d e1 x1 v1)
qed

lemma flaky_processOrder_second:
  assumes "job_data job = solOrder" and "attemptsMade job = Suc 0"
  shows "fst (processOrder flakyEnv job w) = Inr ()"
    and "map upd_status (published (snd (processOrder flakyEnv job w)))
           = map upd_status (published w)
               @ [PENDING, ROUTING, ROUTING, BUILDING, SUBMITTED, CONFIRMED]"
proof -
  have d: "draws flakyEnv oid (Suc 0) = midDraws" for oid
    by (simp add: flakyEnv_def)
  obtain x2 v2 where e2: "executeOrder flakyEnv midDraws solOrder w = (x2, v2)"
    by (cases "executeOrder flakyEnv midDraws solOrder w")
  have x2: "x2 = Inr ()"
    and v2: "map upd_status (published v2)
               = map upd_status (published w)
                   @ [PENDING, ROUTING, ROUTING, BUILDING, SUBMITTED, CONFIRMED]"
    using flaky_second_attempt[of w] e2 by simp_all
  show "fst (processOrder flakyEnv job w) = Inr ()"
    by (simp add: processOrder_def Let_def assms d e2 x2)
  show "map upd_status (published (snd (processOrder flakyEnv job w)))
           = map upd_status (published w)
               @ [PENDING, ROUTING, ROUTING, BUILDING, SUBMITTED, CONFIRMED]"
    by (simp add: processOrder_def Let_def assms d e2 x2 v2)
qed

lemma flaky_sol_run:
  "fst (runJob flakyEnv solJob emptyWorld)
     = solJob\<lparr>attemptsStarted := 2, attemptsMade := 1, job_state := Completed\<rparr>"
  "map upd_status (published (snd (runJob flakyEnv solJob emptyWorld)))
     = [PENDING, ROUTING, ROUTING, BUILDING, SUBMITTED,
        PENDING, ROUTING, ROUTING, BUILDING, SUBMITTED, CONFIRMED]"
proof -
  let ?a1 = "solJob\<lparr>attemptsStarted := Suc (attemptsStarted solJob), job_state := Active\<rparr>"
  let ?w1 = "snd (processOrder flakyEnv ?a1 emptyWorld)"
  let ?j1 = "?a1\<lparr>attemptsMade := Suc (attemptsMade solJob), job_state := Delayed\<rparr>"
  let ?a2 = "?j1\<lparr>attemptsStarted := Suc (attemptsStarted ?j1), job_state := Active\<rparr>"
  let ?w2 = "snd (processOrder flakyEnv ?a2 ?w1)"
  have d: "job_data solJob = solOrder" "attemptsMade solJob = 0" "attemptsStarted solJob = 0"
    "retryMaxAttempts flakyEnv = 3"
    by (simp_all add: solJob_def flakyEnv_def)
  have p1: "fst (processOrder flakyEnv ?a1 emptyWorld) = Inl (Error ''db down'')"
    by (rule flaky_processOrder_first) (simp_all add: d)
  have q1: "map upd_status (published ?w1) = [PENDING, ROUTING, ROUTING, BUILDING, SUBMITTED]"
    using flaky_processOrder_first(2)[of ?a1 emptyWorld] by (simp add: d published_emptyWorld)
  have p2: "fst (processOrder flakyEnv ?a2 ?w1) = Inr ()"
    by (rule flaky_processOrder_second) (simp_all add: d)
  have q2: "map upd_status (published ?w2)
               = [PENDING, ROUTING, ROUTING, BUILDING, SUBMITTED,
                  PENDING, ROUTING, ROUTING, BUILDING, SUBMITTED, CONFIRMED]"
    using flaky_processOrder_second(2)[of ?a2 ?w1] q1 by (simp add: d)
  have s1: "runJob flakyEnv solJob emptyWorld = runJob flakyEnv ?j1 ?w1"
    using p1 by (subst runJob.simps) (simp add: Let_def d)
  have s2: "runJob flakyEnv ?j1 ?w1 = (?a2\<lparr>job_state := Completed\<rparr>, ?w2)"
    using p2 by (subst runJob.simps) (simp add: Let_def)
  show "fst (runJob flakyEnv solJob emptyWorld)
     = solJob\<lparr>attemptsStarted := 2, attemptsMade := 1, job_state := Completed\<rparr>"
    unfolding s1 s2 by (simp add: d)
  show "map upd_status (published (snd (runJob flakyEnv solJob emptyWorld)))
     = [PENDING, ROUTING, ROUTING, BUILDING, SUBMITTED,
        PENDING, ROUTING, ROUTING, BUILDING, SUBMITTED, CONFIRMED]"
    unfolding s1 s2 using q2 by simp
qed


subsection \<open>Status sequence and terminal events\<close>

lemma emitted_append: "published w' = published w @ us \<Longrightarrow> emitted w w' = us"
  by (simp add: emitted_def)

lemma body_ok_statuses:
  assumes "fst (executeOrderBody env dr order w) = Inr ()"
  shows "map upd_status (emitted w (snd (executeOrder env dr order w)))
           = [PENDING, ROUTING, ROUTING, BUILDING, SUBMITTED, CONFIRMED]"
proof -
  obtain r w1 where b: "executeOrderBody env dr order w = (r, w1)"
    by (cases "executeOrderBody env dr order w")
  then have r: "r = Inr ()" using assms by simp
  from emitsE_body[of env dr order, unfolded emitsE_def, rule_format, of w] b r
  obtain us where us: "published w1 = published w @ us"
    "map upd_status us = [PENDING, ROUTING, ROUTING, BUILDING, SUBMITTED, CONFIRMED]"
    by auto
  have "executeOrder env dr order w = (Inr (), w1)" by (simp add: executeOrder_def b r)
  then show ?thesis using us by (simp add: emitted_append)
qed


lemma emitsOk_updateStatus:
  "emitsOk (updateStatus env oid st d) [\<lparr>upd_orderId = oid, upd_status = st, upd_data = d\<rparr>]"
  unfolding emitsOk_def
proof
  fix w
  from updateStatus_cases[of env oid st d w]
  show "case fst (updateStatus env oid st d w) of
          Inr x \<Rightarrow> published (snd (updateStatus env oid st d w))
                    = published w @ [\<lparr>upd_orderId = oid, upd_status = st, upd_data = d\<rparr>]
        | Inl e \<Rightarrow> True"
    by (elim disjE conjE exE) (auto split: sum.splits)
qed

lemma emitsOk_silent:
  "(\<And>w. published (snd (m w)) = published w) \<Longrightarrow> emitsOk m []"
  unfolding emitsOk_def by (auto split: sum.splits)

lemma emitsOk_bind:
  assumes m: "emitsOk m us" and f: "\<And>x. emitsOk (f x) vs"
  shows "emitsOk (\<lambda>w. bindE (m w) f) (us @ vs)"
  unfolding emitsOk_def
proof
  fix w
  obtain r w1 where mw: "m w = (r, w1)" by (cases "m w")
  show "case fst (bindE (m w) f) of
          Inr x \<Rightarrow> published (snd (bindE (m w) f)) = published w @ us @ vs
        | Inl e \<Rightarrow> True"
  proof (cases r)
    case (Inl e)
    then show ?thesis by (simp add: bindE_def mw)
  next
    case (Inr x)
    have p1: "published w1 = published w @ us"
      using m[unfolded emitsOk_def, rule_format, of w] mw Inr by simp
    show ?thesis
      using f[of x, unfolded emitsOk_def, rule_format, of w1] p1 Inr
      by (simp add: bindE_def mw split: sum.splits)
  qed
qed

lemma emitsOk_body:
  assumes s: "selectBestDex (getAllQuotes dr (tokenIn order) (tokenOut order) (amountIn order)) = Inr b"
    and x: "executeSwap dr order b = Inr res"
  shows "emitsOk (executeOrderBody env dr order)
           (successUpdates order (getAllQuotes dr (tokenIn order) (tokenOut order) (amountIn order)) b res)"
proof -
  let ?qs = "getAllQuotes dr (tokenIn order) (tokenOut order) (amountIn order)"
  have e: "executeOrderBody env dr order = (\<lambda>w0.
     bindE (updateStatus env (orderId order) PENDING None w0) (\<lambda>_ w1.
     bindE (updateStatus env (orderId order) ROUTING None w1) (\<lambda>_ w2.
     bindE (saveQuotes env (orderId order) ?qs w2) (\<lambda>_ w4.
     bindE (updateStatus env (orderId order) ROUTING
              (Some (noData\<lparr>selectedDex := Some (dex b), quotes := Some ?qs\<rparr>)) w4) (\<lambda>_ w5.
     bindE (updateStatus env (orderId order) BUILDING
              (Some (noData\<lparr>selectedDex := Some (dex b)\<rparr>)) w5) (\<lambda>_ w6.
     bindE (updateStatus env (orderId order) SUBMITTED
              (Some (noData\<lparr>selectedDex := Some (dex b)\<rparr>)) w6) (\<lambda>_ w8.
     updateStatus env (orderId order) CONFIRMED
       (Some (noData\<lparr>selectedDex := Some (dex b), txHash := Some (res_txHash res),
                     executedPrice := Some (res_executedPrice res)\<rparr>)) w8)))))))"
    by (rule ext) (simp add: executeOrderBody_def Let_def s x bindE_Inr)
  have "emitsOk (executeOrderBody env dr order)
     ([\<lparr>upd_orderId = orderId order, upd_status = PENDING, upd_data = None\<rparr>] @
      [\<lparr>upd_orderId = orderId order, upd_status = ROUTING, upd_data = None\<rparr>] @ [] @
      [\<lparr>upd_orderId = orderId order, upd_status = ROUTING,
        upd_data = Some (noData\<lparr>selectedDex := Some (dex b), quotes := Some ?qs\<rparr>)\<rparr>] @
      [\<lparr>upd_orderId = orderId order, upd_status = BUILDING,
        upd_data = Some (noData\<lparr>selectedDex := Some (dex b)\<rparr>)\<rparr>] @
      [\<lparr>upd_orderId = orderId order, upd_status = SUBMITTED,
        upd_data = Some (noData\<lparr>selectedDex := Some (dex b)\<rparr>)\<rparr>] @
      [\<lparr>upd_orderId = orderId order, upd_status = CONFIRMED,
        upd_data = Some (noData\<lparr>selectedDex := Some (dex b), txHash := Some (res_txHash res),
                      executedPrice := Some (res_executedPrice res)\<rparr>)\<rparr>])"
    unfolding e
    by (intro emitsOk_bind emitsOk_updateStatus emitsOk_silent) simp_all
  then show ?thesis by (simp add: successUpdates_def)
qed

lemma body_ok_swap_ok:
  assumes ok: "fst (executeOrderBody env dr order w) = Inr ()"
    and s: "selectBestDex (getAllQuotes dr (tokenIn order) (tokenOut order) (amountIn order)) = Inr b"
  shows "\<exists>res. executeSwap dr order b = Inr res"
proof (cases "executeSwap dr order b")
  case (Inr res)
  then show ?thesis by blast
next
  case (Inl e)
  have "\<exists>e'. fst (executeOrderBody env dr order w) = Inl e'"
    by (simp add: executeOrderBody_def Let_def bindE_eval s Inl split: sum.splits)
  then show ?thesis using ok by simp
qed

lemma body_ok_updates:
  assumes ok: "fst (executeOrderBody env dr order w) = Inr ()"
  shows "\<exists>b res. selectBestDex (getAllQuotes dr (tokenIn order) (tokenOut order) (amountIn order)) = Inr b
           \<and> executeSwap dr order b = Inr res
           \<and> emitted w (snd (executeOrder env dr order w))
               = successUpdates order
                   (getAllQuotes dr (tokenIn order) (tokenOut order) (amountIn order)) b res"
proof -
  obtain b where s: "selectBestDex (getAllQuotes dr (tokenIn order) (tokenOut order) (amountIn order)) = Inr b"
    using selectBestDex_getAllQuotes by blast
  obtain res where x: "executeSwap dr order b = Inr res"
    using body_ok_swap_ok[OF ok s] by blast
  have "published (snd (executeOrderBody env dr order w))
          = published w @ successUpdates order
              (getAllQuotes dr (tokenIn order) (tokenOut order) (amountIn order)) b res"
    using emitsOk_body[OF s x, of env, unfolded emitsOk_def, rule_format, of w] ok by simp
  then have "emitted w (snd (executeOrder env dr order w))
               = successUpdates order
                   (getAllQuotes dr (tokenIn order) (tokenOut order) (amountIn order)) b res"
    by (simp add: executeOrder_of_body_ok[OF ok] emitted_append)
  then show ?thesis using s x by blast
qed


text \<open>
  C2 (as amended). An attempt whose try block completes publishes exactly six updates for
  the order, PENDING, ROUTING, ROUTING, BUILDING, SUBMITTED, CONFIRMED: ROUTING is
  published twice, first without data on entering the stage and again with the quote set
  and the selected venue; CONFIRMED carries the transaction hash and the executed price.
  CONFIRMED is published by no other attempt. Over all attempts of a job, every update
  published is for the job's order id and at most one of them is terminal (CONFIRMED or
  FAILED).
\<close>

theorem published_sequence:
  "published (snd (executeOrder env dr order w))
      = published w @ emitted w (snd (executeOrder env dr order w))
   \<and> (fst (executeOrderBody env dr order w) = Inr () \<longrightarrow>
        (\<exists>b res. selectBestDex (getAllQuotes dr (tokenIn order) (tokenOut order) (amountIn order)) = Inr b
           \<and> executeSwap dr order b = Inr res
           \<and> emitted w (snd (executeOrder env dr order w))
               = successUpdates order
                   (getAllQuotes dr (tokenIn order) (tokenOut order) (amountIn order)) b res) \<and>
        map upd_status (emitted w (snd (executeOrder env dr order w)))
          = [PENDING, ROUTING, ROUTING, BUILDING, SUBMITTED, CONFIRMED])
   \<and> (CONFIRMED \<in> set (map upd_status (emitted w (snd (executeOrder env dr order w)))) \<longrightarrow>
        map upd_status (emitted w (snd (executeOrder env dr order w)))
          = [PENDING, ROUTING, ROUTING, BUILDING, SUBMITTED, CONFIRMED] \<and>
        fst (executeOrder env dr order w) = Inr ())
   \<and> published (snd (runJob env job w)) = published w @ emitted w (snd (runJob env job w))
   \<and> (\<forall>u\<in>set (emitted w (snd (runJob env job w))). upd_orderId u = orderId (job_data job))
   \<and> terminals (emitted w (snd (runJob env job w))) \<le> 1"
proof -
  obtain us where us1: "published (snd (executeOrder env dr order w)) = published w @ us"
    and us2: "CONFIRMED \<in> set (map upd_status us) \<longrightarrow>
       map upd_status us = [PENDING, ROUTING, ROUTING, BUILDING, SUBMITTED, CONFIRMED] \<and>
       fst (executeOrder env dr order w) = Inr ()"
    using executeOrder_pub[of env dr order w] by (elim exE conjE) (rule that; assumption)
  have e1: "emitted w (snd (executeOrder env dr order w)) = us" using us1 by (rule emitted_append)
  obtain vs where vs1: "published (snd (runJob env job w)) = published w @ vs"
    and vs2: "\<forall>u\<in>set vs. upd_orderId u = orderId (job_data job)" and vs3: "terminals vs \<le> 1"
    using runJob_pub[of env job w] by (elim exE conjE) (rule that; assumption)
  have e2: "emitted w (snd (runJob env job w)) = vs" using vs1 by (rule emitted_append)
  have b: "fst (executeOrderBody env dr order w) = Inr () \<longrightarrow>
        (\<exists>b res. selectBestDex (getAllQuotes dr (tokenIn order) (tokenOut order) (amountIn order)) = Inr b
           \<and> executeSwap dr order b = Inr res
           \<and> us = successUpdates order
                   (getAllQuotes dr (tokenIn order) (tokenOut order) (amountIn order)) b res) \<and>
        map upd_status us = [PENDING, ROUTING, ROUTING, BUILDING, SUBMITTED, CONFIRMED]"
    using body_ok_updates[of env dr order w] body_ok_statuses[of env dr order w] unfolding e1 by blast
  show ?thesis unfolding e1 e2
    by (intro conjI us1 us2 vs1 vs2 vs3 b)
qed

theorem published_sequence_witness:
  "fst (executeOrderBody healthyEnv midDraws solOrder emptyWorld) = Inr ()
   \<and> CONFIRMED \<in> set (map upd_status
         (emitted emptyWorld (snd (executeOrder healthyEnv midDraws solOrder emptyWorld))))
   \<and> map upd_status (emitted emptyWorld (snd (executeOrder healthyEnv midDraws solOrder emptyWorld)))
       = [PENDING, ROUTING, ROUTING, BUILDING, SUBMITTED, CONFIRMED]
   \<and> take 3 (emitted emptyWorld (snd (executeOrder healthyEnv midDraws solOrder emptyWorld)))
       = [\<lparr>upd_orderId = ''order-1'', upd_status = PENDING, upd_data = None\<rparr>,
          \<lparr>upd_orderId = ''order-1'', upd_status = ROUTING, upd_data = None\<rparr>,
          \<lparr>upd_orderId = ''order-1'', upd_status = ROUTING,
            upd_data = Some (noData\<lparr>selectedDex := Some RAYDIUM,
                         quotes := Some (getAllQuotes midDraws ''SOL'' ''USDC'' 100)\<rparr>)\<rparr>]
   \<and> fst (executeOrder healthyEnv midDraws solOrder emptyWorld) = Inr ()
   \<and> map upd_status (emitted emptyWorld (snd (runJob brokenStoreEnv solJob emptyWorld)))
       = [PENDING, ROUTING, ROUTING, PENDING, ROUTING, ROUTING, PENDING, ROUTING, ROUTING, FAILED]
   \<and> last (emitted emptyWorld (snd (runJob brokenStoreEnv solJob emptyWorld)))
        \<in> set (emitted emptyWorld (snd (runJob brokenStoreEnv solJob emptyWorld)))
   \<and> upd_orderId (last (emitted emptyWorld (snd (runJob brokenStoreEnv solJob emptyWorld))))
       = orderId (job_data solJob)
   \<and> terminals (emitted emptyWorld (snd (runJob brokenStoreEnv solJob emptyWorld))) \<le> 1"
proof -
  note T = published_sequence [of healthyEnv midDraws solOrder emptyWorld solJob]
  note U = published_sequence [of brokenStoreEnv midDraws solOrder emptyWorld solJob]
  let ?E = "emitted emptyWorld (snd (executeOrder healthyEnv midDraws solOrder emptyWorld))"
  have b: "fst (executeOrderBody healthyEnv midDraws solOrder emptyWorld) = Inr ()"
    by (rule healthy_sol_run(1))
  have s: "map upd_status ?E = [PENDING, ROUTING, ROUTING, BUILDING, SUBMITTED, CONFIRMED]"
    using b T by blast
  obtain q res where q: "selectBestDex (getAllQuotes midDraws (tokenIn solOrder) (tokenOut solOrder)
                             (amountIn solOrder)) = Inr q"
    and e: "?E = successUpdates solOrder
                   (getAllQuotes midDraws (tokenIn solOrder) (tokenOut solOrder) (amountIn solOrder)) q res"
    using b T by blast
  have q': "q = solQuote" using q sol_select by simp
  have o: "orderId solOrder = ''order-1''" "tokenIn solOrder = ''SOL''" "tokenOut solOrder = ''USDC''"
    "amountIn solOrder = 100" "dex solQuote = RAYDIUM"
    by (simp_all add: solOrder_def solQuote_def)
  have p: "take 3 ?E
       = [\<lparr>upd_orderId = ''order-1'', upd_status = PENDING, upd_data = None\<rparr>,
          \<lparr>upd_orderId = ''order-1'', upd_status = ROUTING, upd_data = None\<rparr>,
          \<lparr>upd_orderId = ''order-1'', upd_status = ROUTING,
            upd_data = Some (noData\<lparr>selectedDex := Some RAYDIUM,
                         quotes := Some (getAllQuotes midDraws ''SOL'' ''USDC'' 100)\<rparr>)\<rparr>]"
    unfolding e q' by (simp add: successUpdates_def o)
  have c: "CONFIRMED \<in> set (map upd_status ?E)"
    unfolding s by simp
  have r: "fst (executeOrder healthyEnv midDraws solOrder emptyWorld) = Inr ()"
    using c T by blast
  have n: "map upd_status (emitted emptyWorld (snd (runJob brokenStoreEnv solJob emptyWorld)))
       = [PENDING, ROUTING, ROUTING, PENDING, ROUTING, ROUTING, PENDING, ROUTING, ROUTING, FAILED]"
    using broken_sol_run(3) by (simp add: emitted_def published_emptyWorld)
  have ne: "emitted emptyWorld (snd (runJob brokenStoreEnv solJob emptyWorld)) \<noteq> []"
    using n by auto
  have l: "last (emitted emptyWorld (snd (runJob brokenStoreEnv solJob emptyWorld)))
        \<in> set (emitted emptyWorld (snd (runJob brokenStoreEnv solJob emptyWorld)))"
    using ne by (rule last_in_set)
  have i: "upd_orderId (last (emitted emptyWorld (snd (runJob brokenStoreEnv solJob emptyWorld))))
       = orderId (job_data solJob)"
    using l U by blast
  have t: "terminals (emitted emptyWorld (snd (runJob brokenStoreEnv solJob emptyWorld))) \<le> 1"
    using U by (elim conjE)
  show ?thesis
    by (intro conjI b c s p r n l i t)
qed

text \<open>
  The claim as stated fails twice. The successful run of the example order publishes
  ROUTING twice, so its statuses are not PENDING, ROUTING, BUILDING, SUBMITTED, CONFIRMED
  and not distinct. And the six updates are those of the attempt that succeeds, not all
  that is published for the order: when the first attempt fails at settlement and the
  retry-count increment fails too, the job is retried, the second attempt confirms the
  order, and the statuses published for it are those of both attempts.
\<close>

theorem published_sequence_counterexample:
  "fst (executeOrderBody healthyEnv midDraws solOrder emptyWorld) = Inr ()
   \<and> map upd_status (published (snd (executeOrder healthyEnv midDraws solOrder emptyWorld)))
       = [PENDING, ROUTING, ROUTING, BUILDING, SUBMITTED, CONFIRMED]
   \<and> map upd_status (published (snd (executeOrder healthyEnv midDraws solOrder emptyWorld)))
       \<noteq> [PENDING, ROUTING, BUILDING, SUBMITTED, CONFIRMED]
   \<and> \<not> distinct (map upd_status (published (snd (executeOrder healthyEnv midDraws solOrder emptyWorld))))
   \<and> fst (runJob flakyEnv solJob emptyWorld)
       = solJob\<lparr>attemptsStarted := 2, attemptsMade := 1, job_state := Completed\<rparr>
   \<and> map upd_status (published (snd (runJob flakyEnv solJob emptyWorld)))
       = [PENDING, ROUTING, ROUTING, BUILDING, SUBMITTED,
          PENDING, ROUTING, ROUTING, BUILDING, SUBMITTED, CONFIRMED]"
  by (simp add: healthy_sol_run flaky_sol_run)


subsection \<open>Retries\<close>

text \<open>
  C3 (the code at the failing input). The venue fails settlement on every attempt, the
  store is healthy and the maximum is 3 attempts. executeOrder catches the failure, calls
  handleFailure (which increments the retry count and logs that the order will be
  retried) and returns normally, so processOrder does not throw and the worker completes
  the job: the pipeline runs once, PENDING, ROUTING, ROUTING, BUILDING, SUBMITTED are
  published and no FAILED event follows.
\<close>

theorem failing_venue_single_attempt:
  "retryMaxAttempts failingVenueEnv = 3
   \<and> (\<forall>k w. fst (executeOrderBody failingVenueEnv (draws failingVenueEnv ''order-1'' k) solOrder w)
         = Inl (Error ''Transaction simulation failed: Network congestion''))
   \<and> attemptsStarted (fst (runJob failingVenueEnv solJob emptyWorld)) = 1
   \<and> attemptsMade (fst (runJob failingVenueEnv solJob emptyWorld)) = 0
   \<and> job_state (fst (runJob failingVenueEnv solJob emptyWorld)) = Completed
   \<and> map upd_status (published (snd (runJob failingVenueEnv solJob emptyWorld)))
       = [PENDING, ROUTING, ROUTING, BUILDING, SUBMITTED]
   \<and> terminals (published (snd (runJob failingVenueEnv solJob emptyWorld))) = 0"
proof -
  have j: "job_data solJob = solOrder" "attemptsStarted solJob = 0" "attemptsMade solJob = 0"
    by (simp_all add: solJob_def)
  have st: "map upd_status (published (snd (runJob failingVenueEnv solJob emptyWorld)))
       = [PENDING, ROUTING, ROUTING, BUILDING, SUBMITTED]"
    using failing_executeOrder[of emptyWorld]
    by (simp add: healthy_runJob[OF failingVenueEnv_healthy] j failing_draws published_emptyWorld)
  have t: "terminals (published (snd (runJob failingVenueEnv solJob emptyWorld))) = 0"
    unfolding terminals_by_status st by (simp add: isTerminal_def)
  show ?thesis
    using st t
    by (simp add: healthy_runJob[OF failingVenueEnv_healthy] j failing_draws failing_body(1))
      (simp add: failingVenueEnv_def)
qed


text \<open>
  The same holds for every order and every venue behaviour: with a healthy store no job
  is ever retried. The job is completed after its first attempt, and when that attempt's
  pipeline failed (with the retry count below the maximum less one) no terminal event is
  published.
\<close>

theorem healthy_store_single_attempt:
  assumes h: "storeHealthy env"
  shows "attemptsStarted (fst (runJob env job w)) = Suc (attemptsStarted job)
         \<and> job_state (fst (runJob env job w)) = Completed
         \<and> ((\<exists>e. fst (executeOrderBody env (draws env (orderId (job_data job)) (attemptsMade job))
                        (job_data job) w) = Inl e) \<and>
              int (case retryCount (job_data job) of None \<Rightarrow> 0 | Some n \<Rightarrow> n)
                < retryMaxAttempts env - 1 \<longrightarrow>
              terminals (emitted w (snd (runJob env job w))) = 0)"
proof (intro conjI impI)
  let ?dr = "draws env (orderId (job_data job)) (attemptsMade job)"
  let ?o = "job_data job"
  show "attemptsStarted (fst (runJob env job w)) = Suc (attemptsStarted job)"
    by (simp add: healthy_runJob[OF h])
  show "job_state (fst (runJob env job w)) = Completed"
    by (simp add: healthy_runJob[OF h])
  assume a: "(\<exists>e. fst (executeOrderBody env ?dr ?o w) = Inl e) \<and>
             int (case retryCount ?o of None \<Rightarrow> 0 | Some n \<Rightarrow> n) < retryMaxAttempts env - 1"
  then obtain e where e: "fst (executeOrderBody env ?dr ?o w) = Inl e" by blast
  from emitsE_body[of env ?dr ?o, unfolded emitsE_def, rule_format, of w] e
  obtain us rest where us: "published (snd (executeOrderBody env ?dr ?o w)) = published w @ us"
    "[PENDING, ROUTING, ROUTING, BUILDING, SUBMITTED] = map upd_status us @ rest"
    by auto
  have "published (snd (runJob env job w)) = published w @ us"
    using executeOrder_swallows[OF e, of ] a us(1) by (simp add: healthy_runJob[OF h])
  then have "emitted w (snd (runJob env job w)) = us" by (rule emitted_append)
  then show "terminals (emitted w (snd (runJob env job w))) = 0"
    using no_terminal_in_front[OF us(2)] by simp
qed

theorem healthy_store_single_attempt_witness:
  "storeHealthy failingVenueEnv
   \<and> attemptsStarted (fst (runJob failingVenueEnv solJob emptyWorld)) = 1
   \<and> job_state (fst (runJob failingVenueEnv solJob emptyWorld)) = Completed
   \<and> fst (executeOrderBody failingVenueEnv (draws failingVenueEnv (orderId (job_data solJob))
             (attemptsMade solJob)) (job_data solJob) emptyWorld)
       = Inl (Error ''Transaction simulation failed: Network congestion'')
   \<and> int (case retryCount (job_data solJob) of None \<Rightarrow> 0 | Some n \<Rightarrow> n)
        < retryMaxAttempts failingVenueEnv - 1
   \<and> terminals (emitted emptyWorld (snd (runJob failingVenueEnv solJob emptyWorld))) = 0"
proof -
  note T = healthy_store_single_attempt [OF failingVenueEnv_healthy, of solJob emptyWorld]
  have j: "job_data solJob = solOrder" "attemptsStarted solJob = 0" "attemptsMade solJob = 0"
    by (simp_all add: solJob_def)
  have b: "fst (executeOrderBody failingVenueEnv (draws failingVenueEnv (orderId (job_data solJob))
             (attemptsMade solJob)) (job_data solJob) emptyWorld)
       = Inl (Error ''Transaction simulation failed: Network congestion'')"
    by (simp add: j failing_draws failing_body(1))
  have r: "int (case retryCount (job_data solJob) of None \<Rightarrow> 0 | Some n \<Rightarrow> n)
        < retryMaxAttempts failingVenueEnv - 1"
    by (simp add: j solOrder_def failingVenueEnv_def)
  have t: "terminals (emitted emptyWorld (snd (runJob failingVenueEnv solJob emptyWorld))) = 0"
    using b r T by blast
  show ?thesis
    using failingVenueEnv_healthy b r t T by (simp add: j)
qed


subsection \<open>Store failures\<close>

lemma logEvent_logged:
  "dbFails env (queryCount w) (InsertEvent oid st d) \<noteq> None \<Longrightarrow>
     (LogError, ''Failed to log order event'') \<in> set (logs (snd (logEvent env oid st d w)))"
  by (auto simp add: logEvent_def db_query_fail logger_def)

lemma saveQuotes_logged:
  "fst (saveQuotesLoop env oid qs w) \<noteq> Inr () \<Longrightarrow>
     (LogError, ''Failed to save quotes'') \<in> set (logs (snd (saveQuotes env oid qs w)))"
  by (cases "saveQuotesLoop env oid qs w") (auto simp add: saveQuotes_def logger_def split: sum.splits)

lemma updateStatus_fail_logged:
  assumes "dbFails env (queryCount w) (updateQuery \<lparr>upd_orderId = oid, upd_status = st, upd_data = d\<rparr>) = Some m"
  shows "(LogError, ''Failed to update order status'') \<in> set (logs (snd (updateStatus env oid st d w)))"
  using assms by (simp add: updateStatus_def Let_def om_updateStatus_fail bindE_Inl logger_def)

lemma noAuditEnv_inserts_only: "insertFaultsOnly noAuditEnv"
  by (auto simp add: insertFaultsOnly_def noAuditEnv_def split: Query.splits)

lemma noAuditEnv_healthy: "noAuditEnv\<lparr>dbFails := (\<lambda>n q. None)\<rparr> = healthyEnv"
  by (simp add: noAuditEnv_def healthyEnv_def)


lemma fault_update:
  "updateFaultAt env st m \<Longrightarrow>
     dbFails env n (updateQuery \<lparr>upd_orderId = oid, upd_status = s, upd_data = d\<rparr>)
       = (if s = st then Some m else None)"
  by (cases d) (simp_all add: updateFaultAt_def updateQuery_def)

lemma fault_increment: "updateFaultAt env st m \<Longrightarrow> dbFails env n (IncrementRetry oid) = None"
  by (simp add: updateFaultAt_def)

lemma fault_logged:
  "updateFaultAt env st m \<Longrightarrow>
     (LogError, ''Failed to update order status'') \<in> set (logs (snd (updateStatus env oid st d w)))"
  by (rule updateStatus_fail_logged[where m = m]) (simp add: fault_update)

lemma fault_body:
  assumes f: "updateFaultAt env st m"
    and st: "st \<noteq> FAILED"
    and sw: "st = CONFIRMED \<longrightarrow>
               (\<exists>b res. selectBestDex (getAllQuotes dr (tokenIn order) (tokenOut order) (amountIn order)) = Inr b
                  \<and> executeSwap dr order b = Inr res)"
  shows "fst (executeOrderBody env dr order w) = Inl (Error m)"
    and "map upd_status (published (snd (executeOrderBody env dr order w)))
           = map upd_status (published w)
               @ takeWhile (\<lambda>s. s \<noteq> st) [PENDING, ROUTING, ROUTING, BUILDING, SUBMITTED, CONFIRMED]"
    and "(LogError, ''Failed to update order status'')
           \<in> set (logs (snd (executeOrderBody env dr order w)))"
proof -
  obtain b where s: "selectBestDex (getAllQuotes dr (tokenIn order) (tokenOut order) (amountIn order)) = Inr b"
    using selectBestDex_getAllQuotes by blast
  note u = fault_update[OF f]
  note l = fault_logged[OF f]
  have c: "st = PENDING \<or> st = ROUTING \<or> st = BUILDING \<or> st = SUBMITTED \<or> st = CONFIRMED"
    using st by (cases st) simp_all
  have "fst (executeOrderBody env dr order w) = Inl (Error m)
        \<and> map upd_status (published (snd (executeOrderBody env dr order w)))
           = map upd_status (published w)
               @ takeWhile (\<lambda>s. s \<noteq> st) [PENDING, ROUTING, ROUTING, BUILDING, SUBMITTED, CONFIRMED]
        \<and> (LogError, ''Failed to update order status'')
           \<in> set (logs (snd (executeOrderBody env dr order w)))"
    using c
  proof (elim disjE)
    assume a: "st = PENDING"
    show ?thesis using l[of "orderId order"] unfolding a
      by (simp add: executeOrderBody_def Let_def bindE_eval updateStatus_ok updateStatus_fail u a s)
  next
    assume a: "st = ROUTING"
    show ?thesis using l[of "orderId order"] unfolding a
      by (simp add: executeOrderBody_def Let_def bindE_eval updateStatus_ok updateStatus_fail u a s)
  next
    assume a: "st = BUILDING"
    show ?thesis using l[of "orderId order"] unfolding a
      by (simp add: executeOrderBody_def Let_def bindE_eval updateStatus_ok updateStatus_fail u a s)
  next
    assume a: "st = SUBMITTED"
    show ?thesis using l[of "orderId order"] unfolding a
      by (simp add: executeOrderBody_def Let_def bindE_eval updateStatus_ok updateStatus_fail u a s)
  next
    assume a: "st = CONFIRMED"
    then obtain res where x: "executeSwap dr order b = Inr res" using sw s by auto
    show ?thesis using l[of "orderId order"] unfolding a
      by (simp add: executeOrderBody_def Let_def bindE_eval updateStatus_ok updateStatus_fail u a s x)
  qed
  then show "fst (executeOrderBody env dr order w) = Inl (Error m)"
    and "map upd_status (published (snd (executeOrderBody env dr order w)))
           = map upd_status (published w)
               @ takeWhile (\<lambda>s. s \<noteq> st) [PENDING, ROUTING, ROUTING, BUILDING, SUBMITTED, CONFIRMED]"
    and "(LogError, ''Failed to update order status'')
           \<in> set (logs (snd (executeOrderBody env dr order w)))"
    by blast+
qed

lemma executeOrder_of_body_err:
  "fst (executeOrderBody env dr order w) = Inl e \<Longrightarrow>
     executeOrder env dr order w = handleFailure env order e False (snd (executeOrderBody env dr order w))"
  by (cases "executeOrderBody env dr order w") (simp add: executeOrder_def)

lemma buildingFault: "updateFaultAt buildingFaultEnv BUILDING ''db down''"
  by (auto simp add: updateFaultAt_def buildingFaultEnv_def split: Query.splits)

lemma logs_incrementRetryCount_ok:
  "dbFails env (queryCount w) (IncrementRetry oid) = None \<Longrightarrow>
     logs (snd (incrementRetryCount env oid w)) = logs w"
  by (cases "orders w oid") (simp_all add: incrementRetryCount_def db_query_def Let_def)

lemma buildingFault_executeOrder:
  assumes "retryCount order = Some 0"
  shows "fst (executeOrder buildingFaultEnv dr order w) = Inr ()"
    and "map upd_status (published (snd (executeOrder buildingFaultEnv dr order w)))
           = map upd_status (published w) @ [PENDING, ROUTING, ROUTING]"
    and "(LogError, ''Failed to update order status'')
           \<in> set (logs (snd (executeOrder buildingFaultEnv dr order w)))"
proof -
  let ?b = "executeOrderBody buildingFaultEnv dr order w"
  have e: "fst ?b = Inl (Error ''db down'')"
    and p: "map upd_status (published (snd ?b)) = map upd_status (published w) @ [PENDING, ROUTING, ROUTING]"
    and l: "(LogError, ''Failed to update order status'') \<in> set (logs (snd ?b))"
    using fault_body[OF buildingFault, of dr order w] by simp_all
  have x: "executeOrder buildingFaultEnv dr order w
             = handleFailure buildingFaultEnv order (Error ''db down'') False (snd ?b)"
    using e by (rule executeOrder_of_body_err)
  have m: "retryMaxAttempts buildingFaultEnv = 3" by (simp add: buildingFaultEnv_def)
  have h: "handleFailure buildingFaultEnv order (Error ''db down'') False v
             = incrementRetryCount buildingFaultEnv (orderId order)
                 (logger LogError ''Order execution failed'' v)" for v
    using assms by (simp add: handleFailure_def Let_def m)
  note i = fault_increment[OF buildingFault]
  show "fst (executeOrder buildingFaultEnv dr order w) = Inr ()"
    unfolding x h by (simp add: incrementRetryCount_ok i)
  show "map upd_status (published (snd (executeOrder buildingFaultEnv dr order w)))
           = map upd_status (published w) @ [PENDING, ROUTING, ROUTING]"
    unfolding x h using p by simp
  show "(LogError, ''Failed to update order status'')
           \<in> set (logs (snd (executeOrder buildingFaultEnv dr order w)))"
    unfolding x h using l by (simp add: logs_incrementRetryCount_ok i logger_def)
qed

lemma buildingFault_sol_run:
  "fst (runJob buildingFaultEnv solJob emptyWorld)
     = solJob\<lparr>attemptsStarted := 1, job_state := Completed\<rparr>"
  "map upd_status (published (snd (runJob buildingFaultEnv solJob emptyWorld)))
     = [PENDING, ROUTING, ROUTING]"
  "(LogError, ''Failed to update order status'')
     \<in> set (logs (snd (runJob buildingFaultEnv solJob emptyWorld)))"
proof -
  let ?a1 = "solJob\<lparr>attemptsStarted := Suc (attemptsStarted solJob), job_state := Active\<rparr>"
  let ?dr = "draws buildingFaultEnv (orderId solOrder) 0"
  have d: "job_data solJob = solOrder" "attemptsMade solJob = 0" "attemptsStarted solJob = 0"
    "retryCount solOrder = Some 0"
    by (simp_all add: solJob_def solOrder_def)
  obtain x v where e: "executeOrder buildingFaultEnv ?dr solOrder emptyWorld = (x, v)"
    by (cases "executeOrder buildingFaultEnv ?dr solOrder emptyWorld")
  have x: "x = Inr ()"
    and v: "map upd_status (published v) = [PENDING, ROUTING, ROUTING]"
    and l: "(LogError, ''Failed to update order status'') \<in> set (logs v)"
    using buildingFault_executeOrder[OF d(4), of ?dr emptyWorld] e
    by (simp_all add: published_emptyWorld)
  have p: "processOrder buildingFaultEnv ?a1 emptyWorld = (Inr (), v)"
    by (simp add: processOrder_def Let_def d e x)
  have r: "runJob buildingFaultEnv solJob emptyWorld = (?a1\<lparr>job_state := Completed\<rparr>, v)"
    by (subst runJob.simps) (simp add: Let_def p)
  show "fst (runJob buildingFaultEnv solJob emptyWorld)
     = solJob\<lparr>attemptsStarted := 1, job_state := Completed\<rparr>"
    unfolding r by (simp add: d)
  show "map upd_status (published (snd (runJob buildingFaultEnv solJob emptyWorld)))
     = [PENDING, ROUTING, ROUTING]"
    unfolding r using v by simp
  show "(LogError, ''Failed to update order status'')
     \<in> set (logs (snd (runJob buildingFaultEnv solJob emptyWorld)))"
    unfolding r using l by simp
qed


lemma uf_count [simp]: "updateFailures (w\<lparr>queryCount := n\<rparr>) = updateFailures w"
  by (simp add: updateFailures_def)

lemma uf_published [simp]: "updateFailures (w\<lparr>published := p\<rparr>) = updateFailures w"
  by (simp add: updateFailures_def)

lemma uf_connections [simp]: "updateFailures (w\<lparr>connections := c\<rparr>) = updateFailures w"
  by (simp add: updateFailures_def)

lemma uf_logger:
  "updateFailures (logger lvl msg w)
     = updateFailures w + (if (lvl, msg) = (LogError, ''Failed to update order status'') then 1 else 0)"
  by (simp add: updateFailures_def logger_def)

lemma uf_applyQuery [simp]: "updateFailures (applyQuery q w) = updateFailures w"
  by (cases q) (simp_all add: updateFailures_def split: option.splits)

lemma uf_db_query [simp]: "updateFailures (snd (db_query env q w)) = updateFailures w"
  by (simp add: db_query_def Let_def uf_logger split: option.splits)

lemma uf_logEvent [simp]: "updateFailures (snd (logEvent env oid st d w)) = updateFailures w"
proof -
  obtain r w1 where q: "db_query env (InsertEvent oid st d) w = (r, w1)"
    by (cases "db_query env (InsertEvent oid st d) w")
  then have "updateFailures w1 = updateFailures w"
    using uf_db_query[of env "InsertEvent oid st d" w] by simp
  then show ?thesis by (cases r) (simp_all add: logEvent_def q uf_logger)
qed

lemma uf_saveQuotesLoop [simp]: "updateFailures (snd (saveQuotesLoop env oid qs w)) = updateFailures w"
proof (induction qs arbitrary: w)
  case Nil
  then show ?case by simp
next
  case (Cons q qs)
  obtain r w1 where d: "db_query env (InsertQuote oid q) w = (r, w1)"
    by (cases "db_query env (InsertQuote oid q) w")
  then have "updateFailures w1 = updateFailures w"
    using uf_db_query[of env "InsertQuote oid q" w] by simp
  then show ?case using Cons.IH[of w1] by (cases r) (simp_all add: d bindE_def)
qed

lemma uf_saveQuotes [simp]: "updateFailures (snd (saveQuotes env oid qs w)) = updateFailures w"
proof -
  obtain r w1 where q: "saveQuotesLoop env oid qs w = (r, w1)" by (cases "saveQuotesLoop env oid qs w")
  then have "updateFailures w1 = updateFailures w" using uf_saveQuotesLoop[of env oid qs w] by simp
  then show ?thesis by (cases r) (simp_all add: saveQuotes_def q uf_logger)
qed

lemma uf_sendUpdate [simp]: "updateFailures (sendUpdate u w) = updateFailures w"
  by (simp add: sendUpdate_def ws_send_def uf_logger split: option.splits)

lemma uf_om_updateStatus:
  "updateFailures (snd (om_updateStatus env u w))
     = updateFailures w + (case fst (om_updateStatus env u w) of Inr x \<Rightarrow> 0 | Inl e \<Rightarrow> 1)"
proof -
  obtain r w1 where q: "db_query env (updateQuery u) w = (r, w1)"
    by (cases "db_query env (updateQuery u) w")
  then have p1: "updateFailures w1 = updateFailures w"
    using uf_db_query[of env "updateQuery u" w] by simp
  show ?thesis
  proof (cases r)
    case (Inl e)
    then show ?thesis using p1 by (simp add: om_updateStatus_def q bindE_def uf_logger)
  next
    case (Inr x)
    obtain r2 w2 where l: "logEvent env (upd_orderId u) (upd_status u) (upd_data u) w1 = (r2, w2)"
      by (cases "logEvent env (upd_orderId u) (upd_status u) (upd_data u) w1")
    then have p2: "updateFailures w2 = updateFailures w1"
      using uf_logEvent[of env "upd_orderId u" "upd_status u" "upd_data u" w1] by simp
    have r2: "r2 = Inr ()"
      using logEvent_ok[of env "upd_orderId u" "upd_status u" "upd_data u" w1] l by simp
    show ?thesis using p1 p2 Inr r2 by (simp add: om_updateStatus_def q bindE_def l)
  qed
qed

lemma failsOnce_updateStatus: "failsOnce (updateStatus env oid st d)"
  unfolding failsOnce_def
proof
  fix w
  let ?u = "\<lparr>upd_orderId = oid, upd_status = st, upd_data = d\<rparr>"
  obtain r w1 where q: "om_updateStatus env ?u w = (r, w1)" by (cases "om_updateStatus env ?u w")
  have p: "updateFailures w1 = updateFailures w + (case r of Inr x \<Rightarrow> 0 | Inl e \<Rightarrow> 1)"
    using uf_om_updateStatus[of env ?u w] q by simp
  show "case fst (updateStatus env oid st d w) of
          Inr x \<Rightarrow> updateFailures (snd (updateStatus env oid st d w)) = updateFailures w
        | Inl e \<Rightarrow> updateFailures (snd (updateStatus env oid st d w)) \<le> updateFailures w + 1"
    using p by (cases r) (simp_all add: updateStatus_def Let_def bindE_def q)
qed

lemma failsOnce_quiet:
  "(\<And>w. updateFailures (snd (m w)) = updateFailures w) \<Longrightarrow> failsOnce m"
  unfolding failsOnce_def by (auto split: sum.splits)

lemma failsOnce_bind:
  assumes m: "failsOnce m" and f: "\<And>x. failsOnce (f x)"
  shows "failsOnce (\<lambda>w. bindE (m w) f)"
  unfolding failsOnce_def
proof
  fix w
  obtain r w1 where mw: "m w = (r, w1)" by (cases "m w")
  show "case fst (bindE (m w) f) of
          Inr x \<Rightarrow> updateFailures (snd (bindE (m w) f)) = updateFailures w
        | Inl e \<Rightarrow> updateFailures (snd (bindE (m w) f)) \<le> updateFailures w + 1"
  proof (cases r)
    case (Inl e)
    then show ?thesis using m[unfolded failsOnce_def, rule_format, of w] by (simp add: bindE_def mw)
  next
    case (Inr x)
    have p1: "updateFailures w1 = updateFailures w"
      using m[unfolded failsOnce_def, rule_format, of w] mw Inr by simp
    show ?thesis
      using f[of x, unfolded failsOnce_def, rule_format, of w1] p1 Inr
      by (simp add: bindE_def mw split: sum.splits)
  qed
qed

lemma failsOnce_body: "failsOnce (executeOrderBody env dr order)"
  unfolding executeOrderBody_def Let_def
  by (intro failsOnce_bind failsOnce_updateStatus failsOnce_quiet) simp_all

lemma body_update_failures:
  "(fst (executeOrderBody env dr order w) = Inr () \<longrightarrow>
      updateFailures (snd (executeOrderBody env dr order w)) = updateFailures w)
   \<and> updateFailures (snd (executeOrderBody env dr order w)) \<le> updateFailures w + 1"
  using failsOnce_body[of env dr order, unfolded failsOnce_def, rule_format, of w]
  by (auto split: sum.splits)

lemma updateFailures_mem:
  "(LogError, ''Failed to update order status'') \<in> set (logs w) \<Longrightarrow> 1 \<le> updateFailures w"
proof -
  assume "(LogError, ''Failed to update order status'') \<in> set (logs w)"
  then have "filter (\<lambda>l. l = (LogError, ''Failed to update order status'')) (logs w) \<noteq> []"
    by (simp add: filter_empty_conv)
  then show ?thesis by (simp add: updateFailures_def Suc_le_eq)
qed


text \<open>
  C4 (as amended). A failure of the store while recording an order event or a quote set
  is logged and swallowed: logEvent and saveQuotes never throw, and when the store fails
  on nothing but these inserts, every execution and every job ends with the same result
  and the same outcome (orders table, published updates, subscribers, queue) as with a
  store that never fails. A failure of the status-transition UPDATE itself is logged and
  rethrown: updateStatus throws it and publishes nothing. When the store fails on the
  UPDATEs to one status of the pipeline, the attempt stops at that stage: the try block
  throws the database error, the updates published are those of the stages before it,
  and nothing after it is executed. For every store: when the try block returns, no
  status UPDATE has failed in it, and at most one fails in an attempt. Whatever the try
  block throws, executeOrder hands to handleFailure as the failure of the attempt.
\<close>

theorem audit_faults_are_swallowed:
  "fst (logEvent env oid st d w) = Inr ()
   \<and> fst (saveQuotes env oid qs w) = Inr ()
   \<and> (dbFails env (queryCount w) (InsertEvent oid st d) \<noteq> None \<longrightarrow>
        (LogError, ''Failed to log order event'') \<in> set (logs (snd (logEvent env oid st d w))))
   \<and> (fst (saveQuotesLoop env oid qs w) \<noteq> Inr () \<longrightarrow>
        (LogError, ''Failed to save quotes'') \<in> set (logs (snd (saveQuotes env oid qs w))))
   \<and> (insertFaultsOnly env \<longrightarrow>
        fst (executeOrder env dr order w)
          = fst (executeOrder (env\<lparr>dbFails := (\<lambda>n q. None)\<rparr>) dr order w) \<and>
        sameOutcome (snd (executeOrder env dr order w))
          (snd (executeOrder (env\<lparr>dbFails := (\<lambda>n q. None)\<rparr>) dr order w)) \<and>
        fst (runJob env job w) = fst (runJob (env\<lparr>dbFails := (\<lambda>n q. None)\<rparr>) job w) \<and>
        sameOutcome (snd (runJob env job w))
          (snd (runJob (env\<lparr>dbFails := (\<lambda>n q. None)\<rparr>) job w)))
   \<and> (\<forall>m. dbFails env (queryCount w)
               (updateQuery \<lparr>upd_orderId = oid, upd_status = st, upd_data = d\<rparr>) = Some m \<longrightarrow>
          fst (updateStatus env oid st d w) = Inl (Error m) \<and>
          published (snd (updateStatus env oid st d w)) = published w \<and>
          (LogError, ''Failed to update order status'')
            \<in> set (logs (snd (updateStatus env oid st d w))))
   \<and> (\<forall>m. updateFaultAt env st m \<and> st \<noteq> FAILED \<and>
          (st = CONFIRMED \<longrightarrow>
             (\<exists>b res. selectBestDex (getAllQuotes dr (tokenIn order) (tokenOut order) (amountIn order)) = Inr b
                \<and> executeSwap dr order b = Inr res)) \<longrightarrow>
          fst (executeOrderBody env dr order w) = Inl (Error m) \<and>
          map upd_status (emitted w (snd (executeOrderBody env dr order w)))
            = takeWhile (\<lambda>s. s \<noteq> st) [PENDING, ROUTING, ROUTING, BUILDING, SUBMITTED, CONFIRMED] \<and>
          (LogError, ''Failed to update order status'')
            \<in> set (logs (snd (executeOrderBody env dr order w))))
   \<and> (\<forall>e. fst (executeOrderBody env dr order w) = Inl e \<longrightarrow>
          executeOrder env dr order w
            = handleFailure env order e False (snd (executeOrderBody env dr order w)))
   \<and> (fst (executeOrderBody env dr order w) = Inr () \<longrightarrow>
          updateFailures (snd (executeOrderBody env dr order w)) = updateFailures w)
   \<and> updateFailures (snd (executeOrderBody env dr order w)) \<le> updateFailures w + 1"
proof (intro conjI impI allI)
  assume i: "insertFaultsOnly env"
  let ?env0 = "env\<lparr>dbFails := (\<lambda>n q. None)\<rparr>"
  have i0: "insertFaultsOnly ?env0" by simp
  have m: "retryMaxAttempts ?env0 = retryMaxAttempts env" and dd: "draws ?env0 = draws env" by simp_all
  from agree_executeOrder[OF i i0 m, of dr order, unfolded agree_def, rule_format, OF sameOutcome_refl]
  show "fst (executeOrder env dr order w) = fst (executeOrder ?env0 dr order w)"
    and "sameOutcome (snd (executeOrder env dr order w)) (snd (executeOrder ?env0 dr order w))"
    by simp_all
  from runJob_agree[OF i i0 m dd sameOutcome_refl, of job w]
  show "fst (runJob env job w) = fst (runJob ?env0 job w)"
    and "sameOutcome (snd (runJob env job w)) (snd (runJob ?env0 job w))"
    by simp_all
next
  fix m
  assume a: "updateFaultAt env st m \<and> st \<noteq> FAILED \<and>
          (st = CONFIRMED \<longrightarrow>
             (\<exists>b res. selectBestDex (getAllQuotes dr (tokenIn order) (tokenOut order) (amountIn order)) = Inr b
                \<and> executeSwap dr order b = Inr res))"
  then have f: "updateFaultAt env st m" and n: "st \<noteq> FAILED"
    and sw: "st = CONFIRMED \<longrightarrow>
             (\<exists>b res. selectBestDex (getAllQuotes dr (tokenIn order) (tokenOut order) (amountIn order)) = Inr b
                \<and> executeSwap dr order b = Inr res)"
    by blast+
  show "fst (executeOrderBody env dr order w) = Inl (Error m)"
    using fault_body(1)[OF f n sw] .
  have "\<exists>us. published (snd (executeOrderBody env dr order w)) = published w @ us"
    using emitsE_body[of env dr order, unfolded emitsE_def, rule_format, of w] by blast
  then obtain us where us: "published (snd (executeOrderBody env dr order w)) = published w @ us" ..
  have "map upd_status us
          = takeWhile (\<lambda>s. s \<noteq> st) [PENDING, ROUTING, ROUTING, BUILDING, SUBMITTED, CONFIRMED]"
    using fault_body(2)[OF f n sw, of w] unfolding us by simp
  then show "map upd_status (emitted w (snd (executeOrderBody env dr order w)))
            = takeWhile (\<lambda>s. s \<noteq> st) [PENDING, ROUTING, ROUTING, BUILDING, SUBMITTED, CONFIRMED]"
    using emitted_append[OF us] by simp
  show "(LogError, ''Failed to update order status'')
            \<in> set (logs (snd (executeOrderBody env dr order w)))"
    using fault_body(3)[OF f n sw] .
next
  fix e
  assume "fst (executeOrderBody env dr order w) = Inl e"
  then show "executeOrder env dr order w
            = handleFailure env order e False (snd (executeOrderBody env dr order w))"
    by (rule executeOrder_of_body_err)
next
  assume "fst (executeOrderBody env dr order w) = Inr ()"
  then show "updateFailures (snd (executeOrderBody env dr order w)) = updateFailures w"
    using body_update_failures[of env dr order w] by blast
next
  show "updateFailures (snd (executeOrderBody env dr order w)) \<le> updateFailures w + 1"
    using body_update_failures[of env dr order w] by blast
qed (simp_all add: logEvent_logged saveQuotes_logged updateStatus_fail updateStatus_fail_logged)

theorem audit_faults_are_swallowed_witness:
  "insertFaultsOnly noAuditEnv
   \<and> dbFails noAuditEnv (queryCount emptyWorld) (InsertEvent ''order-1'' PENDING None) \<noteq> None
   \<and> logs (snd (logEvent noAuditEnv ''order-1'' PENDING None emptyWorld))
       = [(LogError, ''Database query error''), (LogError, ''Failed to log order event'')]
   \<and> fst (saveQuotesLoop noAuditEnv ''order-1'' [solQuote] emptyWorld) \<noteq> Inr ()
   \<and> (LogError, ''Failed to save quotes'')
        \<in> set (logs (snd (saveQuotes noAuditEnv ''order-1'' [solQuote] emptyWorld)))
   \<and> fst (runJob noAuditEnv solJob emptyWorld) = solJob\<lparr>attemptsStarted := 1, job_state := Completed\<rparr>
   \<and> map upd_status (published (snd (runJob noAuditEnv solJob emptyWorld)))
       = [PENDING, ROUTING, ROUTING, BUILDING, SUBMITTED, CONFIRMED]
   \<and> dbFails buildingFaultEnv (queryCount emptyWorld)
        (updateQuery \<lparr>upd_orderId = ''order-1'', upd_status = BUILDING, upd_data = None\<rparr>)
       = Some ''db down''
   \<and> fst (updateStatus buildingFaultEnv ''order-1'' BUILDING None emptyWorld) = Inl (Error ''db down'')
   \<and> published (snd (updateStatus buildingFaultEnv ''order-1'' BUILDING None emptyWorld)) = []
   \<and> updateFaultAt buildingFaultEnv BUILDING ''db down''
   \<and> BUILDING \<noteq> FAILED \<and> BUILDING \<noteq> CONFIRMED
   \<and> fst (executeOrderBody buildingFaultEnv midDraws solOrder emptyWorld) = Inl (Error ''db down'')
   \<and> map upd_status (emitted emptyWorld (snd (executeOrderBody buildingFaultEnv midDraws solOrder emptyWorld)))
       = [PENDING, ROUTING, ROUTING]
   \<and> executeOrder buildingFaultEnv midDraws solOrder emptyWorld
       = handleFailure buildingFaultEnv solOrder (Error ''db down'') False
           (snd (executeOrderBody buildingFaultEnv midDraws solOrder emptyWorld))
   \<and> updateFailures (snd (executeOrderBody buildingFaultEnv midDraws solOrder emptyWorld)) = 1
   \<and> fst (executeOrderBody healthyEnv midDraws solOrder emptyWorld) = Inr ()
   \<and> updateFailures (snd (executeOrderBody healthyEnv midDraws solOrder emptyWorld)) = 0"
proof -
  note V = audit_faults_are_swallowed
    [of healthyEnv "''order-1''" PENDING None emptyWorld "[solQuote]" midDraws solOrder solJob]
  note T = audit_faults_are_swallowed
    [of noAuditEnv "''order-1''" PENDING None emptyWorld "[solQuote]" midDraws solOrder solJob]
  note U = audit_faults_are_swallowed
    [of buildingFaultEnv "''order-1''" BUILDING None emptyWorld "[solQuote]" midDraws solOrder solJob]
  have f1: "dbFails noAuditEnv (queryCount emptyWorld) (InsertEvent ''order-1'' PENDING None) \<noteq> None"
    by (simp add: noAuditEnv_def)
  have l1: "logs (snd (logEvent noAuditEnv ''order-1'' PENDING None emptyWorld))
       = [(LogError, ''Database query error''), (LogError, ''Failed to log order event'')]"
    by (simp add: logEvent_def db_query_def noAuditEnv_def logger_def emptyWorld_def)
  have f2: "fst (saveQuotesLoop noAuditEnv ''order-1'' [solQuote] emptyWorld) \<noteq> Inr ()"
    by (simp add: db_query_def noAuditEnv_def bindE_Inl)
  have l2: "(LogError, ''Failed to save quotes'')
        \<in> set (logs (snd (saveQuotes noAuditEnv ''order-1'' [solQuote] emptyWorld)))"
    using f2 T by blast
  have r: "fst (runJob noAuditEnv solJob emptyWorld) = fst (runJob healthyEnv solJob emptyWorld)
           \<and> sameOutcome (snd (runJob noAuditEnv solJob emptyWorld)) (snd (runJob healthyEnv solJob emptyWorld))"
    using noAuditEnv_inserts_only T unfolding noAuditEnv_healthy by blast
  have p: "published (snd (runJob noAuditEnv solJob emptyWorld))
             = published (snd (runJob healthyEnv solJob emptyWorld))"
    using r by (simp add: sameOutcome_def)
  have f3: "dbFails buildingFaultEnv (queryCount emptyWorld)
        (updateQuery \<lparr>upd_orderId = ''order-1'', upd_status = BUILDING, upd_data = None\<rparr>)
       = Some ''db down''"
    by (simp add: fault_update[OF buildingFault])
  have u: "fst (updateStatus buildingFaultEnv ''order-1'' BUILDING None emptyWorld) = Inl (Error ''db down'')
           \<and> published (snd (updateStatus buildingFaultEnv ''order-1'' BUILDING None emptyWorld))
                = published emptyWorld"
    using f3 U by blast
  have g: "updateFaultAt buildingFaultEnv BUILDING ''db down'' \<and> BUILDING \<noteq> FAILED \<and>
          (BUILDING = CONFIRMED \<longrightarrow>
             (\<exists>b res. selectBestDex (getAllQuotes midDraws (tokenIn solOrder) (tokenOut solOrder)
                          (amountIn solOrder)) = Inr b
                \<and> executeSwap midDraws solOrder b = Inr res))"
    using buildingFault by simp
  have b: "fst (executeOrderBody buildingFaultEnv midDraws solOrder emptyWorld) = Inl (Error ''db down'')
           \<and> map upd_status (emitted emptyWorld (snd (executeOrderBody buildingFaultEnv midDraws solOrder emptyWorld)))
              = takeWhile (\<lambda>s. s \<noteq> BUILDING) [PENDING, ROUTING, ROUTING, BUILDING, SUBMITTED, CONFIRMED]"
    using g U by blast
  have h: "executeOrder buildingFaultEnv midDraws solOrder emptyWorld
       = handleFailure buildingFaultEnv solOrder (Error ''db down'') False
           (snd (executeOrderBody buildingFaultEnv midDraws solOrder emptyWorld))"
    using b U by blast
  have b2: "map upd_status (emitted emptyWorld (snd (executeOrderBody buildingFaultEnv midDraws solOrder emptyWorld)))
              = [PENDING, ROUTING, ROUTING]"
    using b by simp
  have j: "fst (runJob noAuditEnv solJob emptyWorld) = solJob\<lparr>attemptsStarted := 1, job_state := Completed\<rparr>"
    using r healthy_sol_job(1) by simp
  have k: "map upd_status (published (snd (runJob noAuditEnv solJob emptyWorld)))
       = [PENDING, ROUTING, ROUTING, BUILDING, SUBMITTED, CONFIRMED]"
    using p healthy_sol_job(2) by simp
  have u1: "fst (updateStatus buildingFaultEnv ''order-1'' BUILDING None emptyWorld) = Inl (Error ''db down'')"
    and u2: "published (snd (updateStatus buildingFaultEnv ''order-1'' BUILDING None emptyWorld)) = []"
    using u by (simp_all add: published_emptyWorld)
  have b1: "fst (executeOrderBody buildingFaultEnv midDraws solOrder emptyWorld) = Inl (Error ''db down'')"
    using b by blast
  have n1: "BUILDING \<noteq> FAILED" and n2: "BUILDING \<noteq> CONFIRMED" by simp_all
  have z: "updateFailures emptyWorld = 0" by (simp add: updateFailures_def emptyWorld_def)
  have lg: "(LogError, ''Failed to update order status'')
              \<in> set (logs (snd (executeOrderBody buildingFaultEnv midDraws solOrder emptyWorld)))"
    using g U by blast
  have "updateFailures (snd (executeOrderBody buildingFaultEnv midDraws solOrder emptyWorld))
          \<le> updateFailures emptyWorld + 1"
    using U by (elim conjE)
  then have c1: "updateFailures (snd (executeOrderBody buildingFaultEnv midDraws solOrder emptyWorld)) = 1"
    using updateFailures_mem[OF lg] z by simp
  have hb: "fst (executeOrderBody healthyEnv midDraws solOrder emptyWorld) = Inr ()"
    by (rule healthy_sol_run(1))
  have "updateFailures (snd (executeOrderBody healthyEnv midDraws solOrder emptyWorld))
          = updateFailures emptyWorld"
    using hb V by blast
  then have c0: "updateFailures (snd (executeOrderBody healthyEnv midDraws solOrder emptyWorld)) = 0"
    using z by simp
  show ?thesis
    by (intro conjI noAuditEnv_inserts_only f1 l1 f2 l2 j k f3 u1 u2 buildingFault n1 n2 b1 b2 h
        c1 hb c0)
qed


text \<open>
  The claim as stated fails for the status-transition UPDATE: with a store that rejects
  nothing but the update to BUILDING, the example order, which a healthy store confirms,
  stops after PENDING, ROUTING, ROUTING and is never confirmed.
\<close>

theorem store_failure_changes_outcome:
  "draws buildingFaultEnv = draws healthyEnv
   \<and> retryMaxAttempts buildingFaultEnv = retryMaxAttempts healthyEnv
   \<and> dbFails buildingFaultEnv 0 (InsertEvent ''order-1'' BUILDING None) = None
   \<and> dbFails buildingFaultEnv 0 (InsertQuote ''order-1'' solQuote) = None
   \<and> dbFails buildingFaultEnv 0 (IncrementRetry ''order-1'') = None
   \<and> fst (runJob healthyEnv solJob emptyWorld) = solJob\<lparr>attemptsStarted := 1, job_state := Completed\<rparr>
   \<and> map upd_status (published (snd (runJob healthyEnv solJob emptyWorld)))
       = [PENDING, ROUTING, ROUTING, BUILDING, SUBMITTED, CONFIRMED]
   \<and> fst (runJob buildingFaultEnv solJob emptyWorld)
       = solJob\<lparr>attemptsStarted := 1, job_state := Completed\<rparr>
   \<and> map upd_status (published (snd (runJob buildingFaultEnv solJob emptyWorld)))
       = [PENDING, ROUTING, ROUTING]
   \<and> (LogError, ''Failed to update order status'')
        \<in> set (logs (snd (runJob buildingFaultEnv solJob emptyWorld)))"
  using buildingFault_sol_run healthy_sol_job
  by (simp add: buildingFaultEnv_def healthyEnv_def)


subsection \<open>Admission\<close>




lemma waiting_logger [simp]: "waiting (logger lvl msg w) = waiting w"
  by (simp add: logger_def)

lemma waiting_applyQuery [simp]: "waiting (applyQuery q w) = waiting w"
  by (cases q) (simp_all split: option.splits)

lemma waiting_db_query [simp]: "waiting (snd (db_query env q w)) = waiting w"
  by (simp add: db_query_def Let_def split: option.splits)

lemma waiting_logEvent [simp]: "waiting (snd (logEvent env oid st d w)) = waiting w"
proof -
  obtain r w1 where q: "db_query env (InsertEvent oid st d) w = (r, w1)"
    by (cases "db_query env (InsertEvent oid st d) w")
  then have "waiting w1 = waiting w" using waiting_db_query[of env "InsertEvent oid st d" w] by simp
  then show ?thesis by (cases r) (simp_all add: logEvent_def q)
qed

lemma waiting_incrementRetryCount [simp]:
  "waiting (snd (incrementRetryCount env oid w)) = waiting w"
proof -
  obtain r w1 where q: "db_query env (IncrementRetry oid) w = (r, w1)"
    by (cases "db_query env (IncrementRetry oid) w")
  then have "waiting w1 = waiting w" using waiting_db_query[of env "IncrementRetry oid" w] by simp
  then show ?thesis by (cases r) (simp_all add: incrementRetryCount_def q)
qed

lemma waiting_om_updateStatus [simp]: "waiting (snd (om_updateStatus env u w)) = waiting w"
proof -
  obtain r w1 where q: "db_query env (updateQuery u) w = (r, w1)"
    by (cases "db_query env (updateQuery u) w")
  then have p1: "waiting w1 = waiting w" using waiting_db_query[of env "updateQuery u" w] by simp
  show ?thesis
  proof (cases r)
    case (Inl e)
    then show ?thesis using p1 by (simp add: om_updateStatus_def q bindE_def)
  next
    case (Inr x)
    obtain r2 w2 where l: "logEvent env (upd_orderId u) (upd_status u) (upd_data u) w1 = (r2, w2)"
      by (cases "logEvent env (upd_orderId u) (upd_status u) (upd_data u) w1")
    then have "waiting w2 = waiting w1"
      using waiting_logEvent[of env "upd_orderId u" "upd_status u" "upd_data u" w1] by simp
    then show ?thesis using p1 Inr by (cases r2) (simp_all add: om_updateStatus_def q bindE_def l)
  qed
qed

lemma waiting_saveQuotesLoop [simp]: "waiting (snd (saveQuotesLoop env oid qs w)) = waiting w"
proof (induction qs arbitrary: w)
  case Nil
  then show ?case by simp
next
  case (Cons q qs)
  obtain r w1 where d: "db_query env (InsertQuote oid q) w = (r, w1)"
    by (cases "db_query env (InsertQuote oid q) w")
  then have "waiting w1 = waiting w" using waiting_db_query[of env "InsertQuote oid q" w] by simp
  then show ?case using Cons.IH[of w1] by (cases r) (simp_all add: d bindE_def)
qed

lemma waiting_saveQuotes [simp]: "waiting (snd (saveQuotes env oid qs w)) = waiting w"
proof -
  obtain r w1 where q: "saveQuotesLoop env oid qs w = (r, w1)" by (cases "saveQuotesLoop env oid qs w")
  then have "waiting w1 = waiting w" using waiting_saveQuotesLoop[of env oid qs w] by simp
  then show ?thesis by (cases r) (simp_all add: saveQuotes_def q)
qed

lemma waiting_sendUpdate [simp]: "waiting (sendUpdate u w) = waiting w"
  by (simp add: sendUpdate_def ws_send_def split: option.splits)

lemma waiting_updateStatus [simp]: "waiting (snd (updateStatus env oid st d w)) = waiting w"
proof -
  let ?u = "\<lparr>upd_orderId = oid, upd_status = st, upd_data = d\<rparr>"
  obtain r w1 where q: "om_updateStatus env ?u w = (r, w1)" by (cases "om_updateStatus env ?u w")
  then have "waiting w1 = waiting w" using waiting_om_updateStatus[of env ?u w] by simp
  then show ?thesis by (cases r) (simp_all add: updateStatus_def bindE_def q Let_def)
qed

lemma waiting_bindE:
  assumes "waiting (snd m) = waiting w" and "\<And>x v. waiting (snd (f x v)) = waiting v"
  shows "waiting (snd (bindE m f)) = waiting w"
  using assms by (cases m) (auto simp add: bindE_def split: sum.splits)

lemma waiting_body [simp]: "waiting (snd (executeOrderBody env dr order w)) = waiting w"
  unfolding executeOrderBody_def Let_def
  by (intro waiting_bindE) simp_all

lemma waiting_handleFailure [simp]: "waiting (snd (handleFailure env order e fin w)) = waiting w"
  by (simp add: handleFailure_def Let_def)

lemma waiting_executeOrder [simp]: "waiting (snd (executeOrder env dr order w)) = waiting w"
proof -
  obtain r w1 where b: "executeOrderBody env dr order w = (r, w1)"
    by (cases "executeOrderBody env dr order w")
  then have "waiting w1 = waiting w" using waiting_body[of env dr order w] by simp
  then show ?thesis by (cases r) (simp_all add: executeOrder_def b)
qed

lemma waiting_processOrder [simp]: "waiting (snd (processOrder env job w)) = waiting w"
proof -
  let ?x = "executeOrder env (draws env (orderId (job_data job)) (attemptsMade job)) (job_data job) w"
  obtain r w1 where b: "?x = (r, w1)" by (cases ?x)
  then have w1: "waiting w1 = waiting w"
    using waiting_executeOrder[of env "draws env (orderId (job_data job)) (attemptsMade job)" "job_data job" w]
    by simp
  show ?thesis
  proof (cases r)
    case (Inr u)
    then show ?thesis using w1 by (simp add: processOrder_def Let_def b)
  next
    case (Inl e)
    let ?w2 = "logger LogError ''Order execution failed in queue'' w1"
    obtain r3 w3 where h: "handleFailure env (job_data job) e True ?w2 = (r3, w3)"
      by (cases "handleFailure env (job_data job) e True ?w2")
    then have "waiting w3 = waiting w1"
      using waiting_handleFailure[of env "job_data job" e True ?w2] by simp
    then show ?thesis using w1 Inl by (cases r3) (simp_all add: processOrder_def Let_def b h)
  qed
qed

lemma waiting_runJob [simp]: "waiting (snd (runJob env job w)) = waiting w"
proof (induction env job w rule: runJob.induct)
  case (1 env job w)
  let ?job1 = "job\<lparr>attemptsStarted := Suc (attemptsStarted job), job_state := Active\<rparr>"
  let ?r = "processOrder env ?job1 w"
  have w1: "waiting (snd ?r) = waiting w" by simp
  show ?case
  proof (cases "fst ?r")
    case (Inr u)
    then show ?thesis by (subst runJob.simps) (simp add: Let_def)
  next
    case (Inl e)
    show ?thesis
    proof (cases "int (Suc (attemptsMade job)) < retryMaxAttempts env")
      case False
      then show ?thesis using Inl by (subst runJob.simps) (simp add: Let_def)
    next
      case True
      have rj: "runJob env job w
                  = runJob env (?job1\<lparr>attemptsMade := Suc (attemptsMade job), job_state := Delayed\<rparr>) (snd ?r)"
        using Inl True by (subst runJob.simps) (simp add: Let_def)
      show ?thesis unfolding rj using "1.IH"[OF refl refl Inl True] w1 by simp
    qed
  qed
qed









end
